(* ===== verification/Prelude.thy ===== *)
theory Prelude
  imports Main
    "HOL-Library.Char_ord" "HOL-Library.List_Lexorder" "HOL-Library.Product_Lexorder"
    "HOL-Library.Sublist" "HOL-Library.Multiset"
begin

text \<open>
  Shared vocabulary of the development: tables as lists of rows (in the order in which the
  rows were inserted, SQLite's rowid order) with lookup, update and delete by predicate, a
  locale for updates that keep a table's primary key, and a locale for step relations with
  an invariant. Nothing here is specific to one component of the file manager.
\<close>

named_theorems table_simps \<open>lookup, update and delete on tables\<close>

section \<open>Tables\<close>

definition lookup_by :: "('r \<Rightarrow> 'k) \<Rightarrow> 'r list \<Rightarrow> 'k \<Rightarrow> 'r option" where
  "lookup_by key rows k = find (\<lambda>r. key r = k) rows"

definition update_where :: "('r \<Rightarrow> bool) \<Rightarrow> ('r \<Rightarrow> 'r) \<Rightarrow> 'r list \<Rightarrow> 'r list" where
  "update_where P f rows = map (\<lambda>r. if P r then f r else r) rows"

definition delete_where :: "('r \<Rightarrow> bool) \<Rightarrow> 'r list \<Rightarrow> 'r list" where
  "delete_where P rows = filter (\<lambda>r. \<not> P r) rows"

lemma lookup_by_Nil [simp]: "lookup_by key [] k = None"
  by (simp add: lookup_by_def)

lemma lookup_by_Cons [simp]:
  "lookup_by key (r # rows) k = (if key r = k then Some r else lookup_by key rows k)"
  by (simp add: lookup_by_def)

lemma lookup_by_append [simp]:
  "lookup_by key (xs @ ys) k = (case lookup_by key xs k of None \<Rightarrow> lookup_by key ys k | Some r \<Rightarrow> Some r)"
  by (induction xs) auto

lemma lookup_by_SomeD: "lookup_by key rows k = Some r \<Longrightarrow> r \<in> set rows \<and> key r = k"
  by (induction rows) (auto split: if_splits)

lemma lookup_by_None_iff: "lookup_by key rows k = None \<longleftrightarrow> k \<notin> key ` set rows"
  by (induction rows) auto

lemma lookup_by_ex: "k \<in> key ` set rows \<Longrightarrow> \<exists>r. lookup_by key rows k = Some r"
  using lookup_by_None_iff [of key rows k] by fastforce

lemma lookup_by_eq_Some:
  "distinct (map key rows) \<Longrightarrow> lookup_by key rows k = Some r \<longleftrightarrow> r \<in> set rows \<and> key r = k"
  by (induction rows) (auto simp: image_iff)

lemma lookup_by_self:
  "distinct (map key rows) \<Longrightarrow> r \<in> set rows \<Longrightarrow> lookup_by key rows (key r) = Some r"
  by (simp add: lookup_by_eq_Some)

lemma key_inj:
  "distinct (map key rows) \<Longrightarrow> r \<in> set rows \<Longrightarrow> s \<in> set rows \<Longrightarrow> key r = key s \<Longrightarrow> r = s"
  by (metis lookup_by_self option.inject)

lemma lookup_by_map:
  "(\<And>r. key (g r) = key r) \<Longrightarrow> lookup_by key (map g rows) k = map_option g (lookup_by key rows k)"
  by (induction rows) auto

lemma update_where_Nil [simp]: "update_where P f [] = []"
  by (simp add: update_where_def)

lemma update_where_Cons [simp]:
  "update_where P f (r # rows) = (if P r then f r else r) # update_where P f rows"
  by (simp add: update_where_def)

lemma update_where_append [simp]:
  "update_where P f (xs @ ys) = update_where P f xs @ update_where P f ys"
  by (simp add: update_where_def)

lemma set_update_where: "set (update_where P f rows) = (\<lambda>r. if P r then f r else r) ` set rows"
  by (simp add: update_where_def)

lemma length_update_where [simp]: "length (update_where P f rows) = length rows"
  by (simp add: update_where_def)

lemma update_where_none: "(\<And>r. r \<in> set rows \<Longrightarrow> \<not> P r) \<Longrightarrow> update_where P f rows = rows"
  by (induction rows) auto

lemma update_where_map_same:
  "(\<And>r. g (f r) = g r) \<Longrightarrow> map g (update_where P f rows) = map g rows"
  by (induction rows) auto

lemma delete_where_Nil [simp]: "delete_where P [] = []"
  by (simp add: delete_where_def)

lemma delete_where_Cons [simp]:
  "delete_where P (r # rows) = (if P r then delete_where P rows else r # delete_where P rows)"
  by (simp add: delete_where_def)

lemma set_delete_where [simp]: "set (delete_where P rows) = {r \<in> set rows. \<not> P r}"
  by (auto simp: delete_where_def)

lemma distinct_delete_where: "distinct (map g rows) \<Longrightarrow> distinct (map g (delete_where P rows))"
  by (simp add: delete_where_def distinct_map_filter)

lemma delete_where_delete_where:
  "delete_where P (delete_where Q rows) = delete_where (\<lambda>r. P r \<or> Q r) rows"
  by (induction rows) auto

lemma lookup_by_delete_where:
  "distinct (map key rows) \<Longrightarrow>
   lookup_by key (delete_where P rows) k =
     (case lookup_by key rows k of None \<Rightarrow> None | Some r \<Rightarrow> if P r then None else Some r)"
proof (cases "lookup_by key rows k")
  case None
  then have "lookup_by key (delete_where P rows) k = None"
    by (auto simp: lookup_by_None_iff)
  with None show ?thesis by simp
next
  case (Some r)
  assume dist: "distinct (map key rows)"
  from Some have r: "r \<in> set rows" "key r = k" by (auto dest: lookup_by_SomeD)
  show ?thesis
  proof (cases "P r")
    case True
    with dist r have "lookup_by key (delete_where P rows) k = None"
      by (auto simp: lookup_by_None_iff dest: key_inj)
    with Some True show ?thesis by simp
  next
    case False
    with dist r have "lookup_by key (delete_where P rows) k = Some r"
      by (simp add: lookup_by_eq_Some distinct_delete_where)
    with Some False show ?thesis by simp
  qed
qed

text \<open>Updates that write other columns than the primary key.\<close>

locale key_keeping =
  fixes key :: "'r \<Rightarrow> 'k" and upd :: "'r \<Rightarrow> 'r"
  assumes key_upd: "key (upd r) = key r"
begin

lemma keys_update: "map key (update_where P upd rows) = map key rows"
  by (rule update_where_map_same) (rule key_upd)

lemma key_set_update: "key ` set (update_where P upd rows) = key ` set rows"
  using keys_update [of P rows] by (metis set_map)

lemma lookup_update:
  "lookup_by key (update_where P upd rows) k =
     map_option (\<lambda>r. if P r then upd r else r) (lookup_by key rows k)"
  by (induction rows) (auto simp: key_upd)

lemma lookup_update_key:
  "lookup_by key (update_where (\<lambda>r. key r = i) upd rows) k =
     (if k = i then map_option upd (lookup_by key rows k) else lookup_by key rows k)"
  by (induction rows) (auto simp: key_upd)

lemma member_update:
  "s \<in> set (update_where P upd rows) \<longleftrightarrow>
     (\<exists>r \<in> set rows. s = (if P r then upd r else r))"
  by (auto simp: set_update_where)

end

section \<open>Sums over tables\<close>

definition sum_where :: "('r \<Rightarrow> bool) \<Rightarrow> ('r \<Rightarrow> int) \<Rightarrow> 'r list \<Rightarrow> int" where
  "sum_where P g rows = sum_list (map g (filter P rows))"

lemma sum_where_Nil [simp]: "sum_where P g [] = 0"
  by (simp add: sum_where_def)

lemma sum_where_Cons [simp]:
  "sum_where P g (r # rows) = (if P r then g r else 0) + sum_where P g rows"
  by (simp add: sum_where_def)

lemma sum_where_append [simp]:
  "sum_where P g (xs @ ys) = sum_where P g xs + sum_where P g ys"
  by (induction xs) auto

lemma sum_where_nonneg: "(\<And>r. r \<in> set rows \<Longrightarrow> P r \<Longrightarrow> 0 \<le> g r) \<Longrightarrow> 0 \<le> sum_where P g rows"
  by (induction rows) auto

lemma sum_where_delete_le:
  "(\<And>r. r \<in> set rows \<Longrightarrow> 0 \<le> g r) \<Longrightarrow> sum_where P g (delete_where Q rows) \<le> sum_where P g rows"
  by (induction rows) (auto simp: add_increasing)

lemma sum_where_update_le:
  assumes "\<And>r. r \<in> set rows \<Longrightarrow> Q r \<Longrightarrow> (if P (f r) then g (f r) else 0) \<le> (if P r then g r else 0)"
  shows "sum_where P g (update_where Q f rows) \<le> sum_where P g rows"
  using assms by (induction rows) (force intro: add_mono)+

text \<open>Updating the one row with a given key changes a sum by that row's contribution.\<close>

lemma sum_where_update_one:
  assumes "distinct (map key rows)" and "lookup_by key rows k = Some r"
  shows "sum_where P g (update_where (\<lambda>r. key r = k) f rows) =
     sum_where P g rows - (if P r then g r else 0) + (if P (f r) then g (f r) else 0)"
  using assms
proof (induction rows)
  case (Cons s rows)
  show ?case
  proof (cases "key s = k")
    case True
    with Cons.prems have "k \<notin> key ` set rows" and "r = s" by auto
    then have "update_where (\<lambda>r. key r = k) f rows = rows"
      by (intro update_where_none) auto
    with True \<open>r = s\<close> show ?thesis by simp
  next
    case False
    with Cons show ?thesis by auto
  qed
qed simp

section \<open>Step relations with an invariant\<close>

text \<open>
  The interface of every state machine of the development: its start states, its steps and
  an invariant that the start states satisfy and every step keeps.
\<close>

locale invariant_system =
  fixes start :: "'s \<Rightarrow> bool" and step :: "'s \<Rightarrow> 's \<Rightarrow> bool" and inv :: "'s \<Rightarrow> bool"
  assumes inv_start: "start s \<Longrightarrow> inv s"
    and inv_step: "step s t \<Longrightarrow> inv s \<Longrightarrow> inv t"
begin

lemma inv_steps: "step\<^sup>*\<^sup>* s t \<Longrightarrow> inv s \<Longrightarrow> inv t"
  by (induction rule: rtranclp_induct) (auto intro: inv_step)

lemma reachable_inv: "start s \<Longrightarrow> step\<^sup>*\<^sup>* s t \<Longrightarrow> inv t"
  by (blast intro: inv_start inv_steps)

end

section \<open>Lists\<close>

lemma find_map_filter_None: "List.map_filter (\<lambda>x. None) xs = []"
  by (simp add: map_filter_def)

lemma set_map_filter_iff: "y \<in> set (List.map_filter f xs) \<longleftrightarrow> (\<exists>x \<in> set xs. f x = Some y)"
  by (force simp: map_filter_def)

lemma takeWhile_sublist_split:
  "sublist sub s \<longleftrightarrow> (\<exists>i \<le> length s - length sub. length sub \<le> length s \<and> take (length sub) (drop i s) = sub)"
proof
  assume "sublist sub s"
  then obtain a b where "s = a @ sub @ b" by (auto simp: sublist_def)
  then show "\<exists>i \<le> length s - length sub. length sub \<le> length s \<and> take (length sub) (drop i s) = sub"
    by (intro exI [of _ "length a"]) auto
next
  assume "\<exists>i \<le> length s - length sub. length sub \<le> length s \<and> take (length sub) (drop i s) = sub"
  then obtain i where "take (length sub) (drop i s) = sub" by blast
  then have "s = take i s @ sub @ drop (length sub) (drop i s)"
    by (metis append_take_drop_id)
  then show "sublist sub s" by (metis sublist_def)
qed

end
