(* ===== verification/Go_Text.thy ===== *)
theory Go_Text
  imports Prelude "HOL-Library.Word"
begin

text \<open>
  The part of Go's language and standard library that the services compute with: strings
  as lists of bytes (\<open>strings.Contains\<close>, \<open>Split\<close>, \<open>TrimSpace\<close>, \<open>ToLower\<close>), decimal
  numbers (\<open>fmt\<close>'s \<open>%d\<close>, \<open>strconv.ParseInt\<close>), hexadecimal encoding, and \<open>int64\<close>
  arithmetic. A \<open>char\<close> is one byte. Unicode case tables are not written out: the
  non-ASCII branch of \<open>ToLower\<close> is a parameter of the definitions that use it.
\<close>

section \<open>Substrings, prefixes, splitting\<close>

definition go_contains :: "string \<Rightarrow> string \<Rightarrow> bool" where
  "go_contains s sub = sublist sub s"

definition has_prefix :: "string \<Rightarrow> string \<Rightarrow> bool" where
  "has_prefix s p = prefix p s"

definition has_suffix :: "string \<Rightarrow> string \<Rightarrow> bool" where
  "has_suffix s p = suffix p s"

text \<open>\<open>strings.ContainsAny\<close> with a set of bytes.\<close>

definition contains_any_byte :: "string \<Rightarrow> string \<Rightarrow> bool" where
  "contains_any_byte s cs = list_ex (\<lambda>c. c \<in> set cs) s"

text \<open>\<open>strings.Split\<close> at one byte: always at least one part.\<close>

fun go_split :: "char \<Rightarrow> string \<Rightarrow> string list" where
  "go_split d [] = [[]]"
| "go_split d (c # cs) =
     (if c = d then [] # go_split d cs
      else (case go_split d cs of [] \<Rightarrow> [[c]] | p # ps \<Rightarrow> (c # p) # ps))"

fun go_join :: "char \<Rightarrow> string list \<Rightarrow> string" where
  "go_join d [] = []"
| "go_join d [p] = p"
| "go_join d (p # q # ps) = p @ d # go_join d (q # ps)"

lemma go_split_not_Nil [simp]: "go_split d s \<noteq> []"
  by (cases s) (auto split: list.splits)

lemma go_split_no_sep: "d \<notin> set s \<Longrightarrow> go_split d s = [s]"
  by (induction s) auto

lemma go_split_append: "d \<notin> set p \<Longrightarrow> go_split d (p @ d # s) = p # go_split d s"
  by (induction p) auto

lemma go_join_split: "go_join d (go_split d s) = s"
proof (induction s)
  case (Cons c s)
  obtain p ps where "go_split d s = p # ps"
    by (cases "go_split d s") auto
  with Cons show ?case by (cases ps) auto
qed simp

lemma go_split_join:
  assumes "ps \<noteq> []" and "\<And>p. p \<in> set ps \<Longrightarrow> d \<notin> set p"
  shows "go_split d (go_join d ps) = ps"
  using assms
  by (induction d ps rule: go_join.induct) (auto simp: go_split_no_sep go_split_append)

lemma go_split_parts: "p \<in> set (go_split d s) \<Longrightarrow> d \<notin> set p"
proof (induction s arbitrary: p)
  case (Cons c s)
  then show ?case
    by (cases "go_split d s") (auto split: if_splits)
qed simp

lemma set_go_split: "p \<in> set (go_split d s) \<Longrightarrow> set p \<subseteq> set s"
proof (induction s arbitrary: p)
  case (Cons c s)
  show ?case
  proof (cases "go_split d s")
    case (Cons q qs)
    with Cons.IH [of q] Cons.IH [of p] Cons.prems show ?thesis
      by (auto split: if_splits)
  qed simp
qed simp

section \<open>Trimming white space\<close>

text \<open>
  \<open>strings.TrimSpace\<close> strips the runes of \<open>unicode.IsSpace\<close> at both ends. The list holds
  their UTF-8 encodings, so stripping is byte-wise.
\<close>

definition space_runes :: "string list" where
  "space_runes =
     [[CHR 0x09], [CHR 0x0A], [CHR 0x0B], [CHR 0x0C], [CHR 0x0D], [CHR 0x20],
      [CHR 0xC2, CHR 0x85], [CHR 0xC2, CHR 0xA0], [CHR 0xE1, CHR 0x9A, CHR 0x80],
      [CHR 0xE2, CHR 0x80, CHR 0x80], [CHR 0xE2, CHR 0x80, CHR 0x81],
      [CHR 0xE2, CHR 0x80, CHR 0x82], [CHR 0xE2, CHR 0x80, CHR 0x83],
      [CHR 0xE2, CHR 0x80, CHR 0x84], [CHR 0xE2, CHR 0x80, CHR 0x85],
      [CHR 0xE2, CHR 0x80, CHR 0x86], [CHR 0xE2, CHR 0x80, CHR 0x87],
      [CHR 0xE2, CHR 0x80, CHR 0x88], [CHR 0xE2, CHR 0x80, CHR 0x89],
      [CHR 0xE2, CHR 0x80, CHR 0x8A], [CHR 0xE2, CHR 0x80, CHR 0xA8],
      [CHR 0xE2, CHR 0x80, CHR 0xA9], [CHR 0xE2, CHR 0x80, CHR 0xAF],
      [CHR 0xE2, CHR 0x81, CHR 0x9F], [CHR 0xE3, CHR 0x80, CHR 0x80]]"

function strip_left :: "string list \<Rightarrow> string \<Rightarrow> string" where
  "strip_left qs s =
     (case find (\<lambda>q. q \<noteq> [] \<and> prefix q s) qs of
        None \<Rightarrow> s
      | Some q \<Rightarrow> strip_left qs (drop (length q) s))"
  by pat_completeness auto
termination
proof (relation "measure (\<lambda>(qs, s). length s)")
  fix qs s q assume "find (\<lambda>q. q \<noteq> [] \<and> prefix q s) qs = Some q"
  then have "q \<noteq> []" and "prefix q s" by (auto simp: find_Some_iff)
  then show "((qs, drop (length q) s), (qs, s)) \<in> measure (\<lambda>(qs, s). length s)"
    by (auto simp: prefix_def)
qed simp

declare strip_left.simps [simp del]

definition trim_space :: "string \<Rightarrow> string" where
  "trim_space s = rev (strip_left (map rev space_runes) (rev (strip_left space_runes s)))"

lemma strip_left_suffix: "suffix (strip_left qs s) s"
proof (induction qs s rule: strip_left.induct)
  case (1 qs s)
  show ?case
  proof (cases "find (\<lambda>q. q \<noteq> [] \<and> prefix q s) qs")
    case None
    then show ?thesis by (subst strip_left.simps) simp
  next
    case (Some q)
    with 1 have "suffix (strip_left qs (drop (length q) s)) (drop (length q) s)" by simp
    with Some show ?thesis
      by (subst strip_left.simps) (auto intro: suffix_order.trans suffix_drop)
  qed
qed

lemma strip_left_done: "find (\<lambda>q. q \<noteq> [] \<and> prefix q (strip_left qs s)) qs = None"
proof (induction qs s rule: strip_left.induct)
  case (1 qs s)
  show ?case
  proof (cases "find (\<lambda>q. q \<noteq> [] \<and> prefix q s) qs")
    case None
    then show ?thesis by (simp add: strip_left.simps [of qs s])
  next
    case (Some q)
    with 1 show ?thesis by (simp add: strip_left.simps [of qs s])
  qed
qed

lemma strip_left_fixed: "find (\<lambda>q. q \<noteq> [] \<and> prefix q s) qs = None \<Longrightarrow> strip_left qs s = s"
  by (subst strip_left.simps) simp

lemma trim_space_sublist: "sublist (trim_space s) s"
proof -
  have "suffix (rev (trim_space s)) (rev (strip_left space_runes s))"
    by (simp add: trim_space_def strip_left_suffix)
  then have "prefix (trim_space s) (strip_left space_runes s)"
    by (simp add: suffix_to_prefix)
  with strip_left_suffix [of space_runes s] show ?thesis
    by (metis prefix_imp_sublist sublist_order.order_trans suffix_imp_sublist)
qed

lemma set_trim_space: "set (trim_space s) \<subseteq> set s"
  using trim_space_sublist by (rule set_mono_sublist)

lemma trim_space_idem: "trim_space (trim_space s) = trim_space s"
proof -
  let ?l = "strip_left space_runes s" and ?t = "trim_space s"
  have "suffix (rev ?t) (rev ?l)"
    by (simp add: trim_space_def strip_left_suffix)
  then have pre: "prefix ?t ?l" by (simp add: suffix_to_prefix)
  have "find (\<lambda>q. q \<noteq> [] \<and> prefix q ?l) space_runes = None" by (rule strip_left_done)
  with pre have "find (\<lambda>q. q \<noteq> [] \<and> prefix q ?t) space_runes = None"
    by (auto simp: find_None_iff intro: prefix_order.trans)
  then have "strip_left space_runes ?t = ?t" by (rule strip_left_fixed)
  moreover have "strip_left (map rev space_runes) (rev ?t) = rev ?t"
    by (rule strip_left_fixed) (simp add: trim_space_def strip_left_done)
  ultimately show ?thesis by (simp add: trim_space_def)
qed

section \<open>Case folding\<close>

definition is_ascii :: "string \<Rightarrow> bool" where
  "is_ascii s = list_all (\<lambda>c. (of_char c :: nat) < 128) s"

definition ascii_lower :: "char \<Rightarrow> char" where
  "ascii_lower c = (if 65 \<le> (of_char c :: nat) \<and> (of_char c :: nat) \<le> 90
     then char_of ((of_char c :: nat) + 32) else c)"

text \<open>\<open>strings.ToLower\<close>: the ASCII fast path, and Unicode's tables for the rest.\<close>

definition go_to_lower :: "(string \<Rightarrow> string) \<Rightarrow> string \<Rightarrow> string" where
  "go_to_lower uni_lower s = (if is_ascii s then map ascii_lower s else uni_lower s)"

lemma of_char_ascii_lower:
  "(of_char (ascii_lower c) :: nat) =
     (if 65 \<le> (of_char c :: nat) \<and> (of_char c :: nat) \<le> 90 then of_char c + 32 else of_char c)"
  by (simp add: ascii_lower_def of_char_of take_bit_eq_mod)

lemma ascii_lower_idem [simp]: "ascii_lower (ascii_lower c) = ascii_lower c"
  by (simp add: ascii_lower_def of_char_of take_bit_eq_mod)

lemma is_ascii_lower: "is_ascii s \<Longrightarrow> is_ascii (map ascii_lower s)"
  by (auto simp: is_ascii_def list_all_iff of_char_ascii_lower)

lemma go_to_lower_ascii_idem: "is_ascii s \<Longrightarrow> go_to_lower u (go_to_lower u s) = go_to_lower u s"
  by (simp add: go_to_lower_def is_ascii_lower)

section \<open>Numbers as text\<close>

definition digit :: "nat \<Rightarrow> char" where
  "digit n = char_of (48 + n)"

definition digit_val :: "char \<Rightarrow> nat option" where
  "digit_val c = (if 48 \<le> (of_char c :: nat) \<and> (of_char c :: nat) \<le> 57
     then Some (of_char c - 48) else None)"

fun dec_nat :: "nat \<Rightarrow> string" where
  "dec_nat n = (if n < 10 then [digit n] else dec_nat (n div 10) @ [digit (n mod 10)])"

declare dec_nat.simps [simp del]

text \<open>\<open>fmt\<close>'s \<open>%d\<close> on a signed integer.\<close>

definition dec_int :: "int \<Rightarrow> string" where
  "dec_int i = (if i < 0 then CHR ''-'' # dec_nat (nat (- i)) else dec_nat (nat i))"

fun parse_digits :: "nat \<Rightarrow> string \<Rightarrow> nat option" where
  "parse_digits acc [] = Some acc"
| "parse_digits acc (c # cs) =
     (case digit_val c of None \<Rightarrow> None | Some d \<Rightarrow> parse_digits (10 * acc + d) cs)"

text \<open>
  \<open>strconv.ParseInt(s, 10, 64)\<close>, and \<open>strconv.Atoi\<close> where \<open>int\<close> has 64 bits: an optional
  sign, at least one digit, and a value in range. \<open>None\<close> is the error return.
\<close>

definition parse_int64 :: "string \<Rightarrow> int option" where
  "parse_int64 s =
     (let neg = (s \<noteq> [] \<and> hd s = CHR ''-'');
          ds = (if s \<noteq> [] \<and> (hd s = CHR ''-'' \<or> hd s = CHR ''+'') then tl s else s)
      in if ds = [] then None
         else case parse_digits 0 ds of
             None \<Rightarrow> None
           | Some n \<Rightarrow>
               if neg then (if n \<le> 2 ^ 63 then Some (- int n) else None)
               else (if n < 2 ^ 63 then Some (int n) else None))"

definition in_int64 :: "int \<Rightarrow> bool" where
  "in_int64 i \<longleftrightarrow> - (2 ^ 63) \<le> i \<and> i < 2 ^ 63"

lemma digit_val_digit: "n < 10 \<Longrightarrow> digit_val (digit n) = Some n"
  by (simp add: digit_val_def digit_def of_char_of take_bit_eq_mod)

lemma parse_digits_append:
  "parse_digits acc (xs @ ys) =
     (case parse_digits acc xs of None \<Rightarrow> None | Some m \<Rightarrow> parse_digits m ys)"
  by (induction acc xs rule: parse_digits.induct) (auto split: option.split)

lemma parse_dec_nat: "parse_digits 0 (dec_nat n) = Some n"
proof (induction n rule: dec_nat.induct)
  case (1 n)
  then show ?case
    by (subst dec_nat.simps) (auto simp: parse_digits_append digit_val_digit)
qed

lemma of_char_digit: "n < 10 \<Longrightarrow> (of_char (digit n) :: nat) = 48 + n"
  by (simp add: digit_def of_char_of take_bit_eq_mod)

lemma digit_bytes: "c = digit n \<Longrightarrow> n < 10 \<Longrightarrow> 48 \<le> (of_char c :: nat) \<and> (of_char c :: nat) \<le> 57"
  by (simp add: of_char_digit)

lemma dec_nat_bytes: "c \<in> set (dec_nat n) \<Longrightarrow> 48 \<le> (of_char c :: nat) \<and> (of_char c :: nat) \<le> 57"
proof (induction n rule: dec_nat.induct)
  case (1 n)
  show ?case
  proof (cases "n < 10")
    case True
    with "1.prems" have "c = digit n" by (simp add: dec_nat.simps [of n])
    with True show ?thesis by (intro digit_bytes)
  next
    case False
    from "1.prems" False have "c \<in> set (dec_nat (n div 10)) \<or> c = digit (n mod 10)"
      by (subst (asm) dec_nat.simps) auto
    with "1.IH" False digit_bytes [of c "n mod 10"] show ?thesis by auto
  qed
qed

lemma dec_nat_not_Nil [simp]: "dec_nat n \<noteq> []"
  by (subst dec_nat.simps) simp

lemma dec_nat_no_sign: "CHR ''-'' \<notin> set (dec_nat n)" "CHR ''+'' \<notin> set (dec_nat n)"
    "CHR ''.'' \<notin> set (dec_nat n)"
  using dec_nat_bytes [of "CHR ''-''" n] dec_nat_bytes [of "CHR ''+''" n]
    dec_nat_bytes [of "CHR ''.''" n] by auto

lemma dec_int_no_dot: "CHR ''.'' \<notin> set (dec_int i)"
  by (simp add: dec_int_def dec_nat_no_sign)

text \<open>Printing and parsing an \<open>int64\<close> gives the number back.\<close>

lemma parse_dec_int:
  assumes "in_int64 i"
  shows "parse_int64 (dec_int i) = Some i"
proof (cases "i < 0")
  case True
  with assms show ?thesis
    by (auto simp: parse_int64_def dec_int_def in_int64_def parse_dec_nat nat_le_iff)
next
  case False
  obtain c cs where s: "dec_nat (nat i) = c # cs"
    by (cases "dec_nat (nat i)") auto
  with dec_nat_no_sign [of "nat i"] have "c \<noteq> CHR ''-''" "c \<noteq> CHR ''+''" by auto
  with False assms s parse_dec_nat [of "nat i"] show ?thesis
    by (auto simp: parse_int64_def dec_int_def in_int64_def nat_less_iff)
qed

lemma parse_int64_range: "parse_int64 s = Some i \<Longrightarrow> in_int64 i"
  by (auto simp: parse_int64_def in_int64_def Let_def split: option.splits if_splits)

section \<open>Signed 64-bit arithmetic\<close>

text \<open>Go's \<open>int64\<close> operators wrap around; \<open>wrap64\<close> brings an integer back into range.\<close>

definition wrap64 :: "int \<Rightarrow> int" where
  "wrap64 i = sint (word_of_int i :: 64 word)"

lemma wrap64_id: "in_int64 i \<Longrightarrow> wrap64 i = i"
  by (simp add: wrap64_def in_int64_def sint_sbintrunc' signed_take_bit_int_eq_self)

lemma wrap64_range: "in_int64 (wrap64 i)"
  using sint_range_size [of "word_of_int i :: 64 word"]
  by (simp add: wrap64_def in_int64_def word_size)

section \<open>Hexadecimal encoding\<close>

definition hex_digit :: "nat \<Rightarrow> char" where
  "hex_digit n = (if n < 10 then char_of (48 + n) else char_of (87 + n))"

text \<open>\<open>hex.EncodeToString\<close>: two lower-case digits per byte.\<close>

definition hex_encode :: "string \<Rightarrow> string" where
  "hex_encode bs = concat (map (\<lambda>b. [hex_digit (of_char b div 16), hex_digit (of_char b mod 16)]) bs)"

definition is_hex_digit :: "char \<Rightarrow> bool" where
  "is_hex_digit c \<longleftrightarrow>
     (48 \<le> (of_char c :: nat) \<and> (of_char c :: nat) \<le> 57) \<or>
     (97 \<le> (of_char c :: nat) \<and> (of_char c :: nat) \<le> 102)"

lemma of_char_hex_digit: "n < 16 \<Longrightarrow> (of_char (hex_digit n) :: nat) = (if n < 10 then 48 + n else 87 + n)"
  by (simp add: hex_digit_def of_char_of take_bit_eq_mod)

lemma of_char_div_16: "(of_char (b :: char) :: nat) div 16 < 16"
  using nat_of_char_less_256 [of b] by (simp add: less_mult_imp_div_less)

lemma is_hex_digit_hex: "n < 16 \<Longrightarrow> is_hex_digit (hex_digit n)"
  by (auto simp: is_hex_digit_def of_char_hex_digit)

lemma hex_encode_digits: "c \<in> set (hex_encode bs) \<Longrightarrow> is_hex_digit c"
proof -
  assume "c \<in> set (hex_encode bs)"
  then obtain b :: char where
    "c = hex_digit (of_char b div 16) \<or> c = hex_digit (of_char b mod 16)"
    by (auto simp: hex_encode_def)
  with of_char_div_16 [of b] show ?thesis by (auto intro: is_hex_digit_hex)
qed

lemma length_hex_encode [simp]: "length (hex_encode bs) = 2 * length bs"
  by (induction bs) (auto simp: hex_encode_def)

lemma hex_digit_inj:
  assumes "m < 16" and "n < 16"
  shows "hex_digit m = hex_digit n \<longleftrightarrow> m = n"
proof
  assume "hex_digit m = hex_digit n"
  then have "(of_char (hex_digit m) :: nat) = of_char (hex_digit n)" by simp
  with assms show "m = n" by (auto simp: of_char_hex_digit split: if_splits)
qed simp

lemma hex_byte_inj:
  "hex_digit (of_char b div 16) = hex_digit (of_char c div 16) \<Longrightarrow>
   hex_digit (of_char b mod 16) = hex_digit (of_char c mod 16) \<Longrightarrow> b = (c :: char)"
proof -
  assume "hex_digit (of_char b div 16) = hex_digit (of_char c div 16)"
    and "hex_digit (of_char b mod 16) = hex_digit (of_char c mod 16)"
  then have "(of_char b :: nat) div 16 = of_char c div 16" "(of_char b :: nat) mod 16 = of_char c mod 16"
    using of_char_div_16 [of b] of_char_div_16 [of c] by (simp_all add: hex_digit_inj)
  then have "(of_char b :: nat) = of_char c" by (metis div_mult_mod_eq)
  then show ?thesis by simp
qed

lemma hex_encode_inj: "hex_encode xs = hex_encode ys \<longleftrightarrow> xs = ys"
proof
  assume "hex_encode xs = hex_encode ys"
  then show "xs = ys"
  proof (induction xs arbitrary: ys)
    case Nil
    then show ?case by (cases ys) (auto simp: hex_encode_def)
  next
    case (Cons x xs)
    then obtain y ys' where "ys = y # ys'" by (cases ys) (auto simp: hex_encode_def)
    with Cons show ?case by (auto simp: hex_encode_def dest: hex_byte_inj)
  qed
qed simp

lemma hex_digit_not_sep:
  "is_hex_digit c \<Longrightarrow> c \<noteq> CHR ''.'' \<and> c \<noteq> CHR ''/''"
  by (auto simp: is_hex_digit_def)

end
