(* ===== verification/Schema.thy ===== *)
theory Schema
  imports Go_Text
begin

text \<open>
  The database of \<open>migrations/001_initial_schema.sql\<close> and the SQL statements the services
  run against it. A table is the list of its rows in rowid order. A statement either
  changes the database or fails and leaves it alone: it fails when it breaks a constraint
  of the schema, and it fails when the caller says that the database itself failed (a busy
  or broken file, a cancelled context), which is the statement's first argument. A column
  that holds an RFC 3339 text written by the Go code is modelled by the Unix second it
  denotes; only the two system rows carry another text (SQLite's \<open>datetime('now')\<close>).
\<close>

section \<open>Errors\<close>

datatype db_fault =
    UniqueFault string
  | ForeignKeyFault
  | CheckFault string
  | ExternalFault string

text \<open>The text SQLite gives a failed constraint; other failures bring their own text.\<close>

fun fault_text :: "db_fault \<Rightarrow> string" where
  "fault_text (UniqueFault cols) = ''UNIQUE constraint failed: '' @ cols"
| "fault_text ForeignKeyFault = ''FOREIGN KEY constraint failed''"
| "fault_text (CheckFault e) = ''CHECK constraint failed: '' @ e"
| "fault_text (ExternalFault m) = m"

datatype fs_fault = NotExist | AlreadyThere | IsDirectory | NoDirectory | IoFault string

datatype err =
    ErrNotFound | ErrAlreadyExists | ErrInvalidName | ErrCycleDetected
  | ErrSystemNodeProtected | ErrInvalidOperation
  | ErrUploadNotFound | ErrInvalidState | ErrOffsetMismatch | ErrLengthMismatch
  | ErrUploadExpired | ErrQuotaExceeded | ErrPhysicalSpaceBlocked | ErrFileTooLarge
  | ErrShareNotFound | ErrShareRevoked | ErrShareExpired | ErrInvalidPassword | ErrAccessDenied
  | ErrObjectNotFound | ErrInvalidPath
  | ErrDownloadLimitReached | ErrFileNotFound | ErrCanceled
  | ErrText string
  | DbErr db_fault
  | FsErr fs_fault
  | Wrap string err

text \<open>\<open>errors.Is\<close>: the error itself or one it wraps with \<open>%w\<close>.\<close>

fun errors_is :: "err \<Rightarrow> err \<Rightarrow> bool" where
  "errors_is (Wrap m e) t = (Wrap m e = t \<or> errors_is e t)"
| "errors_is e t = (e = t)"

section \<open>Rows\<close>

datatype stamp = Rfc3339 int | SqliteText int

fun parse_stamp :: "stamp \<Rightarrow> int option" where
  "parse_stamp (Rfc3339 t) = Some t"
| "parse_stamp (SqliteText t) = None"

datatype node_kind = KindFile | KindFolder

record node_row =
  nr_id :: string
  nr_parent :: "string option"
  nr_kind :: node_kind
  nr_name :: string
  nr_name_key :: string
  nr_created :: stamp
  nr_updated :: stamp
  nr_trashed :: "int option"
  nr_restore :: "string option"
  nr_system :: bool

record file_row =
  fr_node :: string
  fr_key :: string
  fr_size :: int
  fr_mime :: string
  fr_sha :: "string option"
  fr_backup :: "int option"
  fr_created :: int
  fr_updated :: int

datatype upload_state =
    StateCreated | StateReceiving | StateVerifying | StateFinalizing
  | StateComplete | StateFailed | StateExpired | StateTerminated

record upload_row =
  up_id :: string
  up_owner :: string
  up_parent :: string
  up_name :: string
  up_name_key :: string
  up_expected :: int
  up_received :: int
  up_reserved :: int
  up_staging :: string
  up_final :: string
  up_state :: upload_state
  up_sha :: "string option"
  up_error :: "string option"
  up_created :: int
  up_updated :: int
  up_expires :: int

record share_row =
  sr_id :: string
  sr_target :: string
  sr_token_hash :: string
  sr_password :: "string option"
  sr_expires :: "int option"
  sr_revoked :: "int option"
  sr_auth_version :: int
  sr_epoch :: int
  sr_created :: int
  sr_updated :: int

record audit_row =
  au_id :: string
  au_created :: int
  au_request :: string
  au_actor :: string
  au_action :: string
  au_object_type :: string
  au_object_id :: string
  au_outcome :: string
  au_ip :: string
  au_metadata :: string

record database =
  nodes :: "node_row list"
  file_objects :: "file_row list"
  uploads :: "upload_row list"
  shares :: "share_row list"
  audit_events :: "audit_row list"

section \<open>Lookups by primary key\<close>

definition find_node :: "database \<Rightarrow> string \<Rightarrow> node_row option" where
  "find_node db i = lookup_by nr_id (nodes db) i"

definition find_file :: "database \<Rightarrow> string \<Rightarrow> file_row option" where
  "find_file db i = lookup_by fr_node (file_objects db) i"

definition find_upload :: "database \<Rightarrow> string \<Rightarrow> upload_row option" where
  "find_upload db i = lookup_by up_id (uploads db) i"

definition find_share :: "database \<Rightarrow> string \<Rightarrow> share_row option" where
  "find_share db i = lookup_by sr_id (shares db) i"

section \<open>Constraints of the table of nodes\<close>

text \<open>
  The two partial unique indexes: among rows that are not trashed, no two with the same
  parent have the same name key; rows without a parent count as siblings.
\<close>

definition clashes :: "node_row \<Rightarrow> node_row \<Rightarrow> bool" where
  "clashes r s \<longleftrightarrow> nr_trashed r = None \<and> nr_trashed s = None \<and>
     nr_parent r = nr_parent s \<and> nr_name_key r = nr_name_key s"

fun siblings_unique :: "node_row list \<Rightarrow> bool" where
  "siblings_unique [] = True"
| "siblings_unique (r # rows) = (\<not> list_ex (clashes r) rows \<and> siblings_unique rows)"

text \<open>\<open>parent_id REFERENCES nodes(id)\<close>.\<close>

definition parents_exist :: "node_row list \<Rightarrow> bool" where
  "parents_exist rows =
     list_all (\<lambda>r. case nr_parent r of None \<Rightarrow> True | Some p \<Rightarrow> p \<in> nr_id ` set rows) rows"

section \<open>Statements\<close>

definition exec :: "string option \<Rightarrow> db_fault + 'a \<Rightarrow> db_fault + 'a" where
  "exec flt body = (case flt of Some m \<Rightarrow> Inl (ExternalFault m) | None \<Rightarrow> body)"

definition check_nodes :: "database \<Rightarrow> node_row list \<Rightarrow> db_fault + database" where
  "check_nodes db rows =
     (if \<not> siblings_unique rows then Inl (UniqueFault ''nodes.parent_id, nodes.name_key'')
      else if \<not> parents_exist rows then Inl ForeignKeyFault
      else Inr (db\<lparr>nodes := rows\<rparr>))"

definition insert_node :: "string option \<Rightarrow> node_row \<Rightarrow> database \<Rightarrow> db_fault + database" where
  "insert_node flt r db = exec flt
     (if nr_id r \<in> nr_id ` set (nodes db) then Inl (UniqueFault ''nodes.id'')
      else check_nodes db (nodes db @ [r]))"

definition update_nodes ::
  "string option \<Rightarrow> (node_row \<Rightarrow> bool) \<Rightarrow> (node_row \<Rightarrow> node_row) \<Rightarrow> database \<Rightarrow> db_fault + database" where
  "update_nodes flt P f db = exec flt (check_nodes db (update_where P f (nodes db)))"

text \<open>
  Deleting one row of \<open>nodes\<close>: its file object and its shares go with it (\<open>ON DELETE
  CASCADE\<close>); a child or an upload that still refers to it stops the statement at once (\<open>ON
  DELETE RESTRICT\<close>).
\<close>

definition delete_node :: "string \<Rightarrow> database \<Rightarrow> db_fault + database" where
  "delete_node i db =
     (let db' = db\<lparr>nodes := delete_where (\<lambda>r. nr_id r = i) (nodes db),
                  file_objects := delete_where (\<lambda>f. fr_node f = i) (file_objects db),
                  shares := delete_where (\<lambda>s. sr_target s = i) (shares db)\<rparr>
      in if list_ex (\<lambda>r. nr_parent r = Some i) (nodes db') \<or> list_ex (\<lambda>u. up_parent u = i) (uploads db')
         then Inl ForeignKeyFault else Inr db')"

text \<open>\<open>DELETE ... WHERE id IN\<close>: row by row, in rowid order; one failure undoes the statement.\<close>

fun delete_each :: "string list \<Rightarrow> database \<Rightarrow> db_fault + database" where
  "delete_each [] db = Inr db"
| "delete_each (i # is) db =
     (case delete_node i db of Inl e \<Rightarrow> Inl e | Inr db' \<Rightarrow> delete_each is db')"

definition delete_nodes :: "string option \<Rightarrow> string list \<Rightarrow> database \<Rightarrow> db_fault + database" where
  "delete_nodes flt ids db = exec flt
     (delete_each (map nr_id (filter (\<lambda>r. nr_id r \<in> set ids) (nodes db))) db)"

definition insert_file :: "string option \<Rightarrow> file_row \<Rightarrow> database \<Rightarrow> db_fault + database" where
  "insert_file flt f db = exec flt
     (if fr_node f \<in> fr_node ` set (file_objects db) then Inl (UniqueFault ''file_objects.node_id'')
      else if fr_key f \<in> fr_key ` set (file_objects db) then Inl (UniqueFault ''file_objects.storage_key'')
      else if fr_size f < 0 then Inl (CheckFault ''size_bytes >= 0'')
      else if fr_node f \<notin> nr_id ` set (nodes db) then Inl ForeignKeyFault
      else Inr (db\<lparr>file_objects := file_objects db @ [f]\<rparr>))"

text \<open>The updates of the other tables write no key and no constrained column.\<close>

definition update_files ::
  "string option \<Rightarrow> (file_row \<Rightarrow> bool) \<Rightarrow> (file_row \<Rightarrow> file_row) \<Rightarrow> database \<Rightarrow> db_fault + database" where
  "update_files flt P f db = exec flt (Inr (db\<lparr>file_objects := update_where P f (file_objects db)\<rparr>))"

definition insert_upload :: "string option \<Rightarrow> upload_row \<Rightarrow> database \<Rightarrow> db_fault + database" where
  "insert_upload flt u db = exec flt
     (if up_id u \<in> up_id ` set (uploads db) then Inl (UniqueFault ''uploads.id'')
      else if up_staging u \<in> up_staging ` set (uploads db) then Inl (UniqueFault ''uploads.staging_key'')
      else if up_final u \<in> up_final ` set (uploads db) then Inl (UniqueFault ''uploads.final_storage_key'')
      else if up_expected u < 0 \<or> up_received u < 0 \<or> up_reserved u < 0 then Inl (CheckFault ''>= 0'')
      else if up_parent u \<notin> nr_id ` set (nodes db) then Inl ForeignKeyFault
      else Inr (db\<lparr>uploads := uploads db @ [u]\<rparr>))"

text \<open>An update of \<open>uploads\<close> may write \<open>received_bytes\<close> and \<open>reservation_bytes\<close>, which have a check.\<close>

definition update_upload ::
  "string option \<Rightarrow> string \<Rightarrow> (upload_row \<Rightarrow> upload_row) \<Rightarrow> database \<Rightarrow> db_fault + database" where
  "update_upload flt i f db = exec flt
     (let rows = update_where (\<lambda>u. up_id u = i) f (uploads db)
      in if list_ex (\<lambda>u. up_received u < 0 \<or> up_reserved u < 0) rows then Inl (CheckFault ''>= 0'')
         else Inr (db\<lparr>uploads := rows\<rparr>))"

definition insert_share :: "string option \<Rightarrow> share_row \<Rightarrow> database \<Rightarrow> db_fault + database" where
  "insert_share flt s db = exec flt
     (if sr_id s \<in> sr_id ` set (shares db) then Inl (UniqueFault ''shares.id'')
      else if sr_token_hash s \<in> sr_token_hash ` set (shares db) then Inl (UniqueFault ''shares.token_hash'')
      else if sr_target s \<notin> nr_id ` set (nodes db) then Inl ForeignKeyFault
      else Inr (db\<lparr>shares := shares db @ [s]\<rparr>))"

definition update_share ::
  "string option \<Rightarrow> string \<Rightarrow> (share_row \<Rightarrow> share_row) \<Rightarrow> database \<Rightarrow> db_fault + database" where
  "update_share flt i f db = exec flt
     (Inr (db\<lparr>shares := update_where (\<lambda>s. sr_id s = i) f (shares db)\<rparr>))"

section \<open>The migrated, empty database\<close>

definition root_id :: string where "root_id = ''ROOT''"
definition trash_root_id :: string where "trash_root_id = ''TRASH_ROOT''"

definition system_row :: "string \<Rightarrow> string \<Rightarrow> string \<Rightarrow> int \<Rightarrow> node_row" where
  "system_row i name key t =
     \<lparr>nr_id = i, nr_parent = None, nr_kind = KindFolder, nr_name = name, nr_name_key = key,
      nr_created = SqliteText t, nr_updated = SqliteText t, nr_trashed = None, nr_restore = None,
      nr_system = True\<rparr>"

definition init_db :: "int \<Rightarrow> database" where
  "init_db t =
     \<lparr>nodes = [system_row root_id ''Root'' ''root'' t, system_row trash_root_id ''Trash'' ''trash'' t],
      file_objects = [], uploads = [], shares = [], audit_events = []\<rparr>"

section \<open>Facts about the statements\<close>

lemma exec_Inr [simp]: "exec flt b = Inr x \<longleftrightarrow> flt = None \<and> b = Inr x"
  by (auto simp: exec_def split: option.splits)

lemma exec_None [simp]: "exec None b = b"
  by (simp add: exec_def)

lemma root_neq_trash [simp]: "root_id \<noteq> trash_root_id" "trash_root_id \<noteq> root_id"
    "root_id \<noteq> []" "trash_root_id \<noteq> []"
  by (simp_all add: root_id_def trash_root_id_def)

lemma clashes_sym: "clashes r s = clashes s r"
  by (auto simp: clashes_def)

lemma siblings_unique_append:
  "siblings_unique (xs @ ys) \<longleftrightarrow>
     siblings_unique xs \<and> siblings_unique ys \<and> (\<forall>x \<in> set xs. \<forall>y \<in> set ys. \<not> clashes x y)"
  by (induction xs) (auto simp: list_ex_iff)

text \<open>With distinct ids the index says: no two rows clash.\<close>

lemma siblings_unique_iff:
  "distinct (map nr_id rows) \<Longrightarrow>
   siblings_unique rows \<longleftrightarrow>
     (\<forall>r \<in> set rows. \<forall>s \<in> set rows. nr_id r \<noteq> nr_id s \<longrightarrow> \<not> clashes r s)"
proof (induction rows)
  case (Cons r rows)
  then show ?case
    by (auto simp: list_ex_iff image_iff clashes_sym)
qed simp

lemma parents_exist_iff:
  "parents_exist rows \<longleftrightarrow> (\<forall>r \<in> set rows. \<forall>p. nr_parent r = Some p \<longrightarrow> p \<in> nr_id ` set rows)"
  by (auto simp: parents_exist_def list_all_iff split: option.splits)

lemma check_nodes_Inr [simp]:
  "check_nodes db rows = Inr db' \<longleftrightarrow>
     siblings_unique rows \<and> parents_exist rows \<and> db' = db\<lparr>nodes := rows\<rparr>"
  by (auto simp: check_nodes_def)

lemma insert_node_Inr:
  "insert_node flt r db = Inr db' \<longleftrightarrow>
     flt = None \<and> nr_id r \<notin> nr_id ` set (nodes db) \<and> siblings_unique (nodes db @ [r]) \<and>
     parents_exist (nodes db @ [r]) \<and> db' = db\<lparr>nodes := nodes db @ [r]\<rparr>"
  by (auto simp: insert_node_def)

lemma update_nodes_Inr:
  "update_nodes flt P f db = Inr db' \<longleftrightarrow>
     flt = None \<and> siblings_unique (update_where P f (nodes db)) \<and>
     parents_exist (update_where P f (nodes db)) \<and> db' = db\<lparr>nodes := update_where P f (nodes db)\<rparr>"
  by (auto simp: update_nodes_def)

lemma insert_file_Inr:
  "insert_file flt f db = Inr db' \<longleftrightarrow>
     flt = None \<and> fr_node f \<notin> fr_node ` set (file_objects db) \<and>
     fr_key f \<notin> fr_key ` set (file_objects db) \<and> 0 \<le> fr_size f \<and>
     fr_node f \<in> nr_id ` set (nodes db) \<and> db' = db\<lparr>file_objects := file_objects db @ [f]\<rparr>"
  by (auto simp: insert_file_def)

lemma update_files_Inr:
  "update_files flt P f db = Inr db' \<longleftrightarrow>
     flt = None \<and> db' = db\<lparr>file_objects := update_where P f (file_objects db)\<rparr>"
  by (auto simp: update_files_def)

lemma insert_upload_Inr:
  "insert_upload flt u db = Inr db' \<longleftrightarrow>
     flt = None \<and> up_id u \<notin> up_id ` set (uploads db) \<and>
     up_staging u \<notin> up_staging ` set (uploads db) \<and> up_final u \<notin> up_final ` set (uploads db) \<and>
     0 \<le> up_expected u \<and> 0 \<le> up_received u \<and> 0 \<le> up_reserved u \<and>
     up_parent u \<in> nr_id ` set (nodes db) \<and> db' = db\<lparr>uploads := uploads db @ [u]\<rparr>"
  by (auto simp: insert_upload_def)

lemma update_upload_Inr:
  "update_upload flt i f db = Inr db' \<longleftrightarrow>
     flt = None \<and>
     (\<forall>u \<in> set (update_where (\<lambda>u. up_id u = i) f (uploads db)). 0 \<le> up_received u \<and> 0 \<le> up_reserved u) \<and>
     db' = db\<lparr>uploads := update_where (\<lambda>u. up_id u = i) f (uploads db)\<rparr>"
  by (force simp: update_upload_def Let_def list_ex_iff)

lemma insert_share_Inr:
  "insert_share flt s db = Inr db' \<longleftrightarrow>
     flt = None \<and> sr_id s \<notin> sr_id ` set (shares db) \<and>
     sr_token_hash s \<notin> sr_token_hash ` set (shares db) \<and> sr_target s \<in> nr_id ` set (nodes db) \<and>
     db' = db\<lparr>shares := shares db @ [s]\<rparr>"
  by (auto simp: insert_share_def)

lemma update_share_Inr:
  "update_share flt i f db = Inr db' \<longleftrightarrow>
     flt = None \<and> db' = db\<lparr>shares := update_where (\<lambda>s. sr_id s = i) f (shares db)\<rparr>"
  by (auto simp: update_share_def)

lemmas statement_Inr =
  insert_node_Inr update_nodes_Inr insert_file_Inr update_files_Inr insert_upload_Inr
  update_upload_Inr insert_share_Inr update_share_Inr

section \<open>The outside world of one call\<close>

text \<open>
  What one call of a service reads from outside: for its k-th database call whether the
  database fails and with which text, the same for its k-th file-system call, its k-th
  reading of the clock (nanoseconds), its k-th generated UUID and its k-th draw of random
  bytes. A definition names the index of each call it makes.
\<close>

record outside =
  db_fails :: "nat \<Rightarrow> string option"
  fs_fails :: "nat \<Rightarrow> string option"
  clock :: "nat \<Rightarrow> int"
  uuid :: "nat \<Rightarrow> string"
  rand_bytes :: "nat \<Rightarrow> string"

definition quiet :: "outside \<Rightarrow> bool" where
  "quiet ora \<longleftrightarrow> (\<forall>k. db_fails ora k = None) \<and> (\<forall>k. fs_fails ora k = None)"

text \<open>\<open>Format(time.RFC3339)\<close> keeps whole seconds.\<close>

definition secs :: "int \<Rightarrow> int" where
  "secs t = t div 1000000000"

text \<open>\<open>BeginTx\<close> and \<open>Commit\<close> touch no row; they can only fail.\<close>

definition tx_call :: "string option \<Rightarrow> db_fault + unit" where
  "tx_call flt = exec flt (Inr ())"

lemma quiet_db [simp]: "quiet ora \<Longrightarrow> db_fails ora k = None"
  and quiet_fs [simp]: "quiet ora \<Longrightarrow> fs_fails ora k = None"
  by (simp_all add: quiet_def)

lemma tx_call_None [simp]: "tx_call None = Inr ()"
  by (simp add: tx_call_def)

lemma tx_call_Inr [simp]: "tx_call flt = Inr u \<longleftrightarrow> flt = None"
  by (simp add: tx_call_def)

end
