(* ===== verification/Node_Tree.thy ===== *)
theory Node_Tree
  imports Schema
begin

text \<open>
  The tree that the \<open>parent_id\<close> column spells out: the recursive query the services use to
  visit a subtree, the relation it computes, and the well-formedness of the table of nodes
  (\<open>tree_ok\<close>) with one lemma per way in which a statement changes the table.
\<close>

section \<open>The parent relation\<close>

definition par_rel :: "node_row list \<Rightarrow> (string \<times> string) set" where
  "par_rel rows = {(nr_id r, p) | r p. r \<in> set rows \<and> nr_parent r = Some p}"

definition children :: "node_row list \<Rightarrow> string \<Rightarrow> string list" where
  "children rows x = map nr_id (filter (\<lambda>r. nr_parent r = Some x) rows)"

lemma par_rel_iff: "(c, p) \<in> par_rel rows \<longleftrightarrow> (\<exists>r \<in> set rows. nr_id r = c \<and> nr_parent r = Some p)"
  by (auto simp: par_rel_def)

lemma set_children: "set (children rows x) = {c. (c, x) \<in> par_rel rows}"
  by (auto simp: children_def par_rel_iff)

lemma finite_par_rel: "finite (par_rel rows)"
proof -
  have "par_rel rows \<subseteq> (\<lambda>r. (nr_id r, the (nr_parent r))) ` set rows"
    by (force simp: par_rel_def)
  then show ?thesis by (rule finite_subset) simp
qed

lemma wf_par_rel: "acyclic (par_rel rows) \<Longrightarrow> wf (par_rel rows)"
  by (rule finite_acyclic_wf [OF finite_par_rel])

lemma wf_par_rel_converse: "acyclic (par_rel rows) \<Longrightarrow> wf ((par_rel rows)\<inverse>)"
  by (rule finite_acyclic_wf_converse [OF finite_par_rel])

lemma par_rel_append: "par_rel (xs @ ys) = par_rel xs \<union> par_rel ys"
  by (auto simp: par_rel_def)

lemma par_rel_map:
  assumes "\<And>r. nr_id (g r) = nr_id r" and "\<And>r. nr_parent (g r) = nr_parent r"
  shows "par_rel (map g rows) = par_rel rows"
  by (simp add: set_eq_iff split_paired_all par_rel_iff assms)

lemma par_rel_source: "(c, p) \<in> par_rel rows \<Longrightarrow> c \<in> nr_id ` set rows"
  by (auto simp: par_rel_iff)

lemma par_rel_trancl_source: "(c, p) \<in> (par_rel rows)\<^sup>+ \<Longrightarrow> c \<in> nr_id ` set rows"
  by (auto dest!: tranclD par_rel_source)

text \<open>Depths that decrease towards the root rule out a cycle.\<close>

lemma acyclic_depth:
  assumes "\<And>r p. r \<in> set rows \<Longrightarrow> nr_parent r = Some p \<Longrightarrow> depth p < (depth (nr_id r) :: nat)"
  shows "acyclic (par_rel rows)"
proof -
  have "par_rel rows \<subseteq> (measure depth)\<inverse>"
    using assms by (auto simp: par_rel_def)
  moreover have "acyclic ((measure depth)\<inverse>)"
    by (simp add: wf_acyclic)
  ultimately show ?thesis by (blast intro: acyclic_subset)
qed

section \<open>The recursive query\<close>

text \<open>
  \<open>WITH RECURSIVE subnodes(id) AS (... UNION ALL SELECT n.id FROM nodes n JOIN subnodes s ON
  n.parent_id = s.id)\<close>: SQLite keeps a queue of rows; it takes one row out, emits it and
  appends that row's children. \<open>None\<close> is a query that never ends.
\<close>

partial_function (option) cte_run :: "node_row list \<Rightarrow> string list \<Rightarrow> string list option" where
  "cte_run rows queue =
     (case queue of
        [] \<Rightarrow> Some []
      | x # xs \<Rightarrow> Option.bind (cte_run rows (xs @ children rows x)) (\<lambda>out. Some (x # out)))"

text \<open>Started from the children of a node: its proper descendants.\<close>

definition subnodes :: "node_row list \<Rightarrow> string \<Rightarrow> string list option" where
  "subnodes rows i = cte_run rows (children rows i)"

text \<open>Started from the node itself (\<open>SELECT ? UNION ALL ...\<close>).\<close>

definition subtree :: "node_row list \<Rightarrow> string \<Rightarrow> string list option" where
  "subtree rows i = cte_run rows [i]"

lemma cte_run_Nil [simp]: "cte_run rows [] = Some []"
  by (simp add: cte_run.simps)

lemma cte_run_Cons [simp]:
  "cte_run rows (x # xs) = Option.bind (cte_run rows (xs @ children rows x)) (\<lambda>out. Some (x # out))"
  by (simp add: cte_run.simps [of rows "x # xs"])

definition below :: "node_row list \<Rightarrow> string list \<Rightarrow> string set" where
  "below rows queue = {d. \<exists>x \<in> set queue. (d, x) \<in> (par_rel rows)\<^sup>*}"

lemma below_Nil [simp]: "below rows [] = {}"
  by (simp add: below_def)

lemma below_Cons: "below rows (x # xs) = insert x (below rows (xs @ children rows x))"
proof -
  have "(d, x) \<in> (par_rel rows)\<^sup>* \<longleftrightarrow> d = x \<or> (\<exists>c. (d, c) \<in> (par_rel rows)\<^sup>* \<and> (c, x) \<in> par_rel rows)" for d
    by (metis rtrancl.simps)
  then show ?thesis by (auto simp: below_def set_children)
qed

lemma cte_run_sound:
  assumes "cte_run rows queue = Some out"
  shows "set out = below rows queue"
proof (rule cte_run.raw_induct [where P = "\<lambda>rows queue out. set out = below rows queue", OF _ assms])
  fix run rows queue out
  assume IH: "\<And>rows queue out. run rows queue = Some out \<Longrightarrow> set out = below rows queue"
    and eq: "(case queue of [] \<Rightarrow> Some []
        | x # xs \<Rightarrow> Option.bind (run rows (xs @ children rows x)) (\<lambda>out. Some (x # out))) = Some out"
  show "set out = below rows queue"
  proof (cases queue)
    case Nil
    with eq show ?thesis by simp
  next
    case (Cons x xs)
    with eq obtain out' where "run rows (xs @ children rows x) = Some out'" and "out = x # out'"
      by (auto simp: bind_eq_Some_conv)
    with IH Cons show ?thesis by (simp add: below_Cons)
  qed
qed

lemma cte_queue_decreases:
  "(mset (xs @ children rows x), mset (x # xs)) \<in> mult1 (par_rel rows)"
proof -
  have "mset (xs @ children rows x) = mset xs + mset (children rows x)" by simp
  moreover have "\<forall>b. b \<in># mset (children rows x) \<longrightarrow> (b, x) \<in> par_rel rows"
    by (simp add: set_children)
  ultimately show ?thesis unfolding mult1_def
    by (intro CollectI case_prodI exI [of _ x] exI [of _ "mset xs"] exI [of _ "mset (children rows x)"]) simp
qed

text \<open>On a forest the query ends.\<close>

lemma cte_run_total:
  assumes "acyclic (par_rel rows)"
  shows "\<exists>out. cte_run rows queue = Some out"
proof -
  have "wf (mult1 (par_rel rows))"
    by (rule wf_mult1 [OF wf_par_rel [OF assms]])
  then show ?thesis
  proof (induction "mset queue" arbitrary: queue rule: wf_induct_rule)
    case less
    show ?case
    proof (cases queue)
      case (Cons x xs)
      with less cte_queue_decreases [of xs rows x]
      obtain out where "cte_run rows (xs @ children rows x) = Some out" by blast
      with Cons show ?thesis by simp
    qed simp
  qed
qed

text \<open>A node that is its own ancestor keeps the query running for ever.\<close>

lemma cte_run_cycle:
  assumes "x \<in> set queue" and "(x, x) \<in> (par_rel rows)\<^sup>+"
  shows "cte_run rows queue = None"
proof -
  let ?loop = "\<lambda>q. \<exists>y \<in> set q. (y, y) \<in> (par_rel rows)\<^sup>+"
  have step: "?loop (ys @ children rows y)" if "?loop (y # ys)" for y ys
  proof (cases "\<exists>z \<in> set ys. (z, z) \<in> (par_rel rows)\<^sup>+")
    case False
    with that have "(y, y) \<in> (par_rel rows)\<^sup>+" by auto
    then obtain z where "(y, z) \<in> (par_rel rows)\<^sup>*" "(z, y) \<in> par_rel rows"
      by (auto dest: tranclD2)
    then have "(z, z) \<in> (par_rel rows)\<^sup>+" by (simp add: rtrancl_into_trancl2)
    with \<open>(z, y) \<in> par_rel rows\<close> show ?thesis by (auto simp: set_children)
  qed auto
  have len: "\<not> ?loop queue" if "cte_run rows queue = Some out" for queue out
    using that
  proof (induction "length out" arbitrary: queue out)
    case 0
    then show ?case by (cases queue) (auto simp: bind_eq_Some_conv)
  next
    case (Suc n)
    then obtain y ys out' where "queue = y # ys" "cte_run rows (ys @ children rows y) = Some out'"
        "out = y # out'"
      by (cases queue) (auto simp: bind_eq_Some_conv)
    with Suc step [of y ys] show ?case by fastforce
  qed
  from assms len [of queue] show ?thesis by (cases "cte_run rows queue") auto
qed

lemma subnodes_eq:
  assumes "subnodes rows i = Some out"
  shows "set out = {d. (d, i) \<in> (par_rel rows)\<^sup>+}"
proof -
  have "set out = below rows (children rows i)"
    using assms unfolding subnodes_def by (rule cte_run_sound)
  also have "\<dots> = {d. (d, i) \<in> (par_rel rows)\<^sup>+}"
    by (auto simp: below_def set_children intro: rtrancl_into_trancl1 dest!: tranclD2)
  finally show ?thesis .
qed

lemma subtree_eq:
  "subtree rows i = Some out \<Longrightarrow> set out = {d. (d, i) \<in> (par_rel rows)\<^sup>*}"
  unfolding subtree_def by (drule cte_run_sound) (simp add: below_def)

lemma subnodes_total: "acyclic (par_rel rows) \<Longrightarrow> \<exists>out. subnodes rows i = Some out"
  by (simp add: subnodes_def cte_run_total)

lemma subtree_total: "acyclic (par_rel rows) \<Longrightarrow> \<exists>out. subtree rows i = Some out"
  unfolding subtree_def by (rule cte_run_total)

section \<open>Well-formed trees\<close>

definition system_ids :: "string set" where
  "system_ids = {root_id, trash_root_id}"

text \<open>
  A row without a parent is a system row; any other row lies in a folder, and an active
  (not trashed) folder lies in an active folder. An active file may lie in a trashed folder:
  an upload that finishes late puts it there.
\<close>

definition parent_ok :: "node_row list \<Rightarrow> node_row \<Rightarrow> bool" where
  "parent_ok rows r \<longleftrightarrow>
     (case nr_parent r of
        None \<Rightarrow> nr_id r \<in> system_ids
      | Some p \<Rightarrow> nr_id r \<notin> system_ids \<and>
          (\<exists>q \<in> set rows. nr_id q = p \<and> nr_kind q = KindFolder \<and>
             (nr_kind r = KindFolder \<and> nr_trashed r = None \<longrightarrow> nr_trashed q = None)))"

definition system_ok :: "node_row list \<Rightarrow> bool" where
  "system_ok rows \<longleftrightarrow>
     (\<forall>i \<in> system_ids. \<exists>r \<in> set rows. nr_id r = i \<and> nr_kind r = KindFolder \<and> nr_trashed r = None) \<and>
     (\<forall>r \<in> set rows. nr_system r \<longleftrightarrow> nr_id r \<in> system_ids)"

definition tree_ok :: "node_row list \<Rightarrow> bool" where
  "tree_ok rows \<longleftrightarrow>
     distinct (map nr_id rows) \<and> [] \<notin> nr_id ` set rows \<and> acyclic (par_rel rows) \<and>
     siblings_unique rows \<and> (\<forall>r \<in> set rows. parent_ok rows r) \<and> system_ok rows"

lemma root_in_system [simp]: "root_id \<in> system_ids" "trash_root_id \<in> system_ids"
  by (simp_all add: system_ids_def)

lemma tree_okD:
  assumes "tree_ok rows"
  shows "distinct (map nr_id rows)" "[] \<notin> nr_id ` set rows" "acyclic (par_rel rows)"
    "siblings_unique rows" "\<And>r. r \<in> set rows \<Longrightarrow> parent_ok rows r" "system_ok rows"
  using assms by (auto simp: tree_ok_def)

lemma parent_okD:
  assumes "parent_ok rows r" and "nr_parent r = Some p"
  shows "nr_id r \<notin> system_ids"
    and "\<exists>q \<in> set rows. nr_id q = p \<and> nr_kind q = KindFolder \<and>
             (nr_kind r = KindFolder \<and> nr_trashed r = None \<longrightarrow> nr_trashed q = None)"
  using assms by (auto simp: parent_ok_def)

lemma tree_ok_parents_exist: "tree_ok rows \<Longrightarrow> parents_exist rows"
  by (fastforce simp: parents_exist_iff dest: tree_okD(5) parent_okD(2))

lemma tree_ok_parent_id: "tree_ok rows \<Longrightarrow> (c, p) \<in> par_rel rows \<Longrightarrow> p \<in> nr_id ` set rows"
  by (fastforce simp: par_rel_iff dest: tree_okD(5) parent_okD(2))

lemma system_row_exists:
  "tree_ok rows \<Longrightarrow> i \<in> system_ids \<Longrightarrow>
   \<exists>r \<in> set rows. nr_id r = i \<and> nr_kind r = KindFolder \<and> nr_trashed r = None \<and> nr_parent r = None \<and> nr_system r"
  using tree_okD(5,6) by (fastforce simp: system_ok_def parent_ok_def split: option.splits)

lemma init_tree_ok: "tree_ok (nodes (init_db t))"
proof -
  have rel: "par_rel (nodes (init_db t)) = {}"
    by (auto simp: par_rel_def init_db_def system_row_def)
  have "siblings_unique (nodes (init_db t))"
    by (simp add: init_db_def system_row_def clashes_def)
  moreover have "system_ok (nodes (init_db t))"
    by (simp add: init_db_def system_row_def system_ok_def system_ids_def)
  moreover have "\<forall>r \<in> set (nodes (init_db t)). parent_ok (nodes (init_db t)) r"
    by (simp add: init_db_def system_row_def parent_ok_def)
  moreover have "distinct (map nr_id (nodes (init_db t)))" "[] \<notin> nr_id ` set (nodes (init_db t))"
    by (simp_all add: init_db_def system_row_def root_id_def trash_root_id_def)
  ultimately show ?thesis
    by (simp add: tree_ok_def rel wf_acyclic)
qed

text \<open>Adding a row under an existing folder.\<close>

lemma tree_ok_add:
  assumes ok: "tree_ok rows" and fresh: "nr_id r \<notin> nr_id ` set rows" and ne: "nr_id r \<noteq> []"
    and sys: "\<not> nr_system r" and par: "nr_parent r = Some p"
    and q: "q \<in> set rows" "nr_id q = p" "nr_kind q = KindFolder"
      "nr_kind r = KindFolder \<Longrightarrow> nr_trashed r = None \<Longrightarrow> nr_trashed q = None"
    and uniq: "siblings_unique (rows @ [r])"
  shows "tree_ok (rows @ [r])"
proof -
  have notsys: "nr_id r \<notin> system_ids"
    using tree_okD(6) [OF ok] fresh unfolding system_ok_def by (metis image_eqI)
  have rel: "par_rel (rows @ [r]) = insert (nr_id r, p) (par_rel rows)"
    using par by (auto simp: par_rel_def)
  have "(p, nr_id r) \<notin> (par_rel rows)\<^sup>*"
  proof
    assume "(p, nr_id r) \<in> (par_rel rows)\<^sup>*"
    moreover have "p \<noteq> nr_id r" using q(1,2) fresh by (metis image_eqI)
    ultimately obtain z where "(z, nr_id r) \<in> par_rel rows"
      by (blast elim: rtranclE)
    with tree_ok_parent_id [OF ok] fresh show False by blast
  qed
  with tree_okD(3) [OF ok] have "acyclic (par_rel (rows @ [r]))"
    by (simp add: rel acyclic_insert)
  moreover have "parent_ok (rows @ [r]) s" if "s \<in> set rows" for s
    using tree_okD(5) [OF ok that] by (auto simp: parent_ok_def split: option.splits)
  moreover have "parent_ok (rows @ [r]) r"
    using par q notsys by (auto simp: parent_ok_def)
  ultimately show ?thesis
    using tree_okD(1,2,6) [OF ok] fresh ne uniq notsys sys
    by (auto simp: tree_ok_def system_ok_def)
qed

text \<open>Rewriting the rows in place, keeping ids, kinds and the system flag.\<close>

lemma tree_ok_map:
  assumes ok: "tree_ok rows"
    and keep: "\<And>r. nr_id (g r) = nr_id r" "\<And>r. nr_kind (g r) = nr_kind r" "\<And>r. nr_system (g r) = nr_system r"
    and acyc: "acyclic (par_rel (map g rows))" and uniq: "siblings_unique (map g rows)"
    and sys: "\<And>r. r \<in> set rows \<Longrightarrow> nr_id r \<in> system_ids \<Longrightarrow> nr_parent (g r) = None \<and> nr_trashed (g r) = None"
    and par: "\<And>r. r \<in> set rows \<Longrightarrow> nr_id r \<notin> system_ids \<Longrightarrow>
      \<exists>q \<in> set rows. nr_parent (g r) = Some (nr_id q) \<and> nr_kind q = KindFolder \<and>
        (nr_kind r = KindFolder \<and> nr_trashed (g r) = None \<longrightarrow> nr_trashed (g q) = None)"
  shows "tree_ok (map g rows)"
proof -
  have "parent_ok (map g rows) (g r)" if r: "r \<in> set rows" for r
  proof (cases "nr_id r \<in> system_ids")
    case True
    with sys [OF r] keep show ?thesis by (simp add: parent_ok_def)
  next
    case False
    with par [OF r] keep show ?thesis by (auto simp: parent_ok_def)
  qed
  moreover have "system_ok (map g rows)"
  proof -
    have "\<exists>r' \<in> set (map g rows). nr_id r' = i \<and> nr_kind r' = KindFolder \<and> nr_trashed r' = None"
      if "i \<in> system_ids" for i
    proof -
      from that obtain r where "r \<in> set rows" "nr_id r = i" "nr_kind r = KindFolder"
        using tree_okD(6) [OF ok] unfolding system_ok_def by blast
      with that sys [of r] keep [of r] show ?thesis by auto
    qed
    moreover have "nr_system r' \<longleftrightarrow> nr_id r' \<in> system_ids" if "r' \<in> set (map g rows)" for r'
      using that tree_okD(6) [OF ok] keep by (auto simp: system_ok_def)
    ultimately show ?thesis unfolding system_ok_def by blast
  qed
  ultimately show ?thesis
    using tree_okD(1,2) [OF ok] acyc uniq keep by (auto simp: tree_ok_def comp_def)
qed

text \<open>Hanging one node under another that is not below it creates no cycle.\<close>

lemma acyclic_reparent:
  assumes acyc: "acyclic (par_rel rows)" and no: "(p, i) \<notin> (par_rel rows)\<^sup>*"
    and keep: "\<And>r. nr_id (g r) = nr_id r"
    and par: "\<And>r. r \<in> set rows \<Longrightarrow> nr_parent (g r) = (if nr_id r = i then Some p else nr_parent r)"
  shows "acyclic (par_rel (map g rows))"
proof -
  have "par_rel (map g rows) \<subseteq> insert (i, p) (par_rel rows)"
    using par by (auto simp: par_rel_def keep split: if_splits)
  moreover have "acyclic (insert (i, p) (par_rel rows))"
    using acyc no by (simp add: acyclic_insert)
  ultimately show ?thesis by (blast intro: acyclic_subset)
qed

text \<open>An active folder has only active folders above it.\<close>

lemma active_folder_above:
  assumes "(c, a) \<in> (par_rel rows)\<^sup>*" and ok: "tree_ok rows"
    and "r \<in> set rows" "nr_id r = c" "nr_kind r = KindFolder" "nr_trashed r = None"
  shows "\<exists>q \<in> set rows. nr_id q = a \<and> nr_kind q = KindFolder \<and> nr_trashed q = None"
  using assms(1)
proof (induction rule: rtrancl_induct)
  case base
  with assms show ?case by blast
next
  case (step b a)
  then obtain q where q: "q \<in> set rows" "nr_id q = b" "nr_kind q = KindFolder" "nr_trashed q = None"
    by blast
  from step(2) obtain q' where "q' \<in> set rows" "nr_id q' = b" "nr_parent q' = Some a"
    by (auto simp: par_rel_iff)
  with q key_inj [OF tree_okD(1) [OF ok]] have "nr_parent q = Some a" by metis
  with q parent_okD(2) [OF tree_okD(5) [OF ok]] show ?case by blast
qed

text \<open>So an active folder does not lie below a trashed node.\<close>

lemma active_not_below_trashed:
  assumes ok: "tree_ok rows" and r: "r \<in> set rows" "nr_id r = i" "nr_trashed r \<noteq> None"
    and q: "q \<in> set rows" "nr_id q = p" "nr_kind q = KindFolder" "nr_trashed q = None"
  shows "(p, i) \<notin> (par_rel rows)\<^sup>*"
proof
  assume "(p, i) \<in> (par_rel rows)\<^sup>*"
  from active_folder_above [OF this ok q] obtain q' where
    "q' \<in> set rows" "nr_id q' = i" "nr_trashed q' = None" by blast
  with r key_inj [OF tree_okD(1) [OF ok]] show False by metis
qed

text \<open>System nodes have nothing above them.\<close>

lemma system_no_parent:
  "tree_ok rows \<Longrightarrow> i \<in> system_ids \<Longrightarrow> (i, p) \<notin> par_rel rows"
  by (auto simp: par_rel_iff dest: tree_okD(5) parent_okD(1))

lemma system_not_below:
  "tree_ok rows \<Longrightarrow> i \<in> system_ids \<Longrightarrow> (i, p) \<notin> (par_rel rows)\<^sup>+"
  by (auto dest: tranclD system_no_parent)

text \<open>Every chain of parents ends in a system node: nothing is detached from the tree.\<close>

lemma anchored:
  assumes ok: "tree_ok rows" and r: "r \<in> set rows"
  shows "\<exists>a \<in> system_ids. (nr_id r, a) \<in> (par_rel rows)\<^sup>*"
  using r
proof (induction "nr_id r" arbitrary: r rule: wf_induct_rule [OF wf_par_rel_converse [OF tree_okD(3) [OF ok]]])
  case 1
  show ?case
  proof (cases "nr_parent r")
    case None
    with tree_okD(5) [OF ok 1(2)] show ?thesis by (auto simp: parent_ok_def)
  next
    case (Some p)
    with 1(2) have rel: "(nr_id r, p) \<in> par_rel rows" by (auto simp: par_rel_iff)
    with tree_ok_parent_id [OF ok] obtain q where "q \<in> set rows" "nr_id q = p" by blast
    with 1(1) [of q] rel obtain a where "a \<in> system_ids" "(p, a) \<in> (par_rel rows)\<^sup>*" by auto
    with rel show ?thesis by (blast intro: converse_rtrancl_into_rtrancl)
  qed
qed

text \<open>Removing rows that nothing refers to.\<close>

lemma tree_ok_delete:
  assumes ok: "tree_ok rows" and nochild: "parents_exist (delete_where P rows)"
    and nosys: "\<And>r. r \<in> set rows \<Longrightarrow> nr_id r \<in> system_ids \<Longrightarrow> \<not> P r"
  shows "tree_ok (delete_where P rows)"
proof -
  have "acyclic (par_rel (delete_where P rows))"
    by (rule acyclic_subset [OF tree_okD(3) [OF ok]]) (auto simp: par_rel_def)
  moreover have "siblings_unique (delete_where P rows)"
    using tree_okD(1,4) [OF ok] by (auto simp: siblings_unique_iff distinct_delete_where)
  moreover have "parent_ok (delete_where P rows) r" if r: "r \<in> set (delete_where P rows)" for r
  proof (cases "nr_parent r")
    case None
    with r tree_okD(5) [OF ok, of r] show ?thesis by (auto simp: parent_ok_def)
  next
    case (Some p)
    with r nochild obtain q where q: "q \<in> set (delete_where P rows)" "nr_id q = p"
      unfolding parents_exist_iff by (metis imageE)
    from r Some tree_okD(5) [OF ok, of r] obtain q' where
      "q' \<in> set rows" "nr_id q' = p" "nr_kind q' = KindFolder" "nr_id r \<notin> system_ids"
      "nr_kind r = KindFolder \<and> nr_trashed r = None \<longrightarrow> nr_trashed q' = None"
      by (auto simp: parent_ok_def)
    moreover from this q have "q' = q"
      using key_inj [OF tree_okD(1) [OF ok]] by auto
    ultimately show ?thesis using q Some by (auto simp: parent_ok_def)
  qed
  moreover have "system_ok (delete_where P rows)"
    using tree_okD(6) [OF ok] nosys by (fastforce simp: system_ok_def)
  ultimately show ?thesis
    using tree_okD(1,2) [OF ok] by (auto simp: tree_ok_def distinct_delete_where)
qed

end
