(* ===== verification/Files.thy ===== *)
theory Files
  imports Node_Tree
begin

text \<open>
  The package \<open>internal/files\<close>: names (\<open>NormalizeName\<close> of \<open>model.go\<close>) and the node service
  of \<open>service.go\<close>. An operation takes the outside world of the call, its arguments and the
  database; it returns its Go results and the database after it. Operations that run the
  recursive query or walk up the tree return an option: \<open>None\<close> is a call that never returns.
\<close>

section \<open>Names\<close>

text \<open>Unicode normalisation (\<open>golang.org/x/text\<close>) and Unicode lower-casing are parameters.\<close>

record text_env =
  nfc :: "string \<Rightarrow> string"
  uni_lower :: "string \<Rightarrow> string"

definition bad_name_bytes :: string where
  "bad_name_bytes = [CHR ''/'', CHR 0x5C, CHR 0x00, CHR 0x0D, CHR 0x0A]"

definition normalize_name :: "text_env \<Rightarrow> string \<Rightarrow> err + (string \<times> string)" where
  "normalize_name env name =
     (let trimmed = trim_space name
      in if trimmed = [] \<or> 255 < length trimmed then Inl ErrInvalidName
         else if contains_any_byte trimmed bad_name_bytes \<or> trimmed = ''.'' \<or> trimmed = ''..''
         then Inl ErrInvalidName
         else let disp = nfc env trimmed in Inr (disp, go_to_lower (uni_lower env) disp))"

section \<open>Nodes as the callers see them\<close>

record file_object =
  fo_node :: string
  fo_key :: string
  fo_size :: int
  fo_mime :: string
  fo_sha :: "string option"
  fo_backup :: "int option"
  fo_created :: int
  fo_updated :: int

record node =
  n_id :: string
  n_parent :: "string option"
  n_kind :: node_kind
  n_name :: string
  n_name_key :: string
  n_created :: "int option"
  n_updated :: "int option"
  n_trashed :: "int option"
  n_restore :: "string option"
  n_system :: bool
  n_file :: "file_object option"

definition scan_file :: "file_row \<Rightarrow> file_object" where
  "scan_file f =
     \<lparr>fo_node = fr_node f, fo_key = fr_key f, fo_size = fr_size f, fo_mime = fr_mime f,
      fo_sha = fr_sha f, fo_backup = fr_backup f, fo_created = fr_created f, fo_updated = fr_updated f\<rparr>"

text \<open>
  \<open>scanNode\<close> on a row of \<open>nodes LEFT JOIN file_objects\<close>. A time that does not parse as RFC
  3339 stays Go's zero time, here \<open>None\<close>.
\<close>

definition scan_node :: "node_row \<Rightarrow> file_row option \<Rightarrow> node" where
  "scan_node r f =
     \<lparr>n_id = nr_id r, n_parent = nr_parent r, n_kind = nr_kind r, n_name = nr_name r,
      n_name_key = nr_name_key r, n_created = parse_stamp (nr_created r),
      n_updated = parse_stamp (nr_updated r), n_trashed = nr_trashed r, n_restore = nr_restore r,
      n_system = nr_system r, n_file = map_option scan_file f\<rparr>"

definition scan_row :: "database \<Rightarrow> node_row \<Rightarrow> node" where
  "scan_row db r = scan_node r (find_file db (nr_id r))"

definition get_node :: "string option \<Rightarrow> database \<Rightarrow> string \<Rightarrow> err + node" where
  "get_node flt db i =
     (case flt of
        Some m \<Rightarrow> Inl (DbErr (ExternalFault m))
      | None \<Rightarrow>
          (case find_node db i of
             None \<Rightarrow> Inl ErrNotFound
           | Some r \<Rightarrow> Inr (scan_row db r)))"

section \<open>Constraint errors\<close>

text \<open>\<open>containsAny\<close>: for every non-empty substring that fits, try every position.\<close>

definition contains_any :: "string \<Rightarrow> string list \<Rightarrow> bool" where
  "contains_any s subs =
     list_ex (\<lambda>sub. 0 < length sub \<and> length sub \<le> length s \<and>
       list_ex (\<lambda>i. take (length sub) (drop i s) = sub) [0..<Suc (length s - length sub)]) subs"

definition is_constraint_error :: "db_fault \<Rightarrow> bool" where
  "is_constraint_error f =
     contains_any (fault_text f) [''UNIQUE constraint failed'', ''constraint failed'']"

section \<open>Creating folders\<close>

definition target_parent :: "string option \<Rightarrow> string" where
  "target_parent p = (case p of None \<Rightarrow> root_id | Some i \<Rightarrow> if i = [] then root_id else i)"

text \<open>A parent that may take new children: a folder that is not trashed.\<close>

definition check_folder :: "node \<Rightarrow> err + unit" where
  "check_folder p =
     (if n_kind p \<noteq> KindFolder \<or> n_trashed p \<noteq> None then Inl ErrInvalidOperation else Inr ())"

definition new_node :: "string \<Rightarrow> string \<Rightarrow> node_kind \<Rightarrow> string \<Rightarrow> string \<Rightarrow> int \<Rightarrow> node_row" where
  "new_node i p kind name key now =
     \<lparr>nr_id = i, nr_parent = Some p, nr_kind = kind, nr_name = name, nr_name_key = key,
      nr_created = Rfc3339 now, nr_updated = Rfc3339 now, nr_trashed = None, nr_restore = None,
      nr_system = False\<rparr>"

definition create_folder ::
  "text_env \<Rightarrow> outside \<Rightarrow> string option \<Rightarrow> string \<Rightarrow> database \<Rightarrow> (err + node) \<times> database" where
  "create_folder env ora parent name db =
     (case normalize_name env name of
        Inl e \<Rightarrow> (Inl e, db)
      | Inr (disp, key) \<Rightarrow>
          (case get_node (db_fails ora 0) db (target_parent parent) of
             Inl e \<Rightarrow> (Inl e, db)
           | Inr p \<Rightarrow>
               (case check_folder p of
                  Inl e \<Rightarrow> (Inl e, db)
                | Inr _ \<Rightarrow>
                    (case insert_node (db_fails ora 1)
                        (new_node (uuid ora 0) (target_parent parent) KindFolder disp key (secs (clock ora 0))) db of
                       Inl f \<Rightarrow>
                         (Inl (if is_constraint_error f then ErrAlreadyExists
                               else Wrap ''failed to insert folder'' (DbErr f)), db)
                     | Inr db' \<Rightarrow> (get_node (db_fails ora 2) db' (uuid ora 0), db')))))"

section \<open>Listing\<close>

record cursor =
  c_key :: string
  c_id :: string

text \<open>
  The cursor's text (JSON in URL-safe base64) is a parameter: \<open>decode_cursor\<close> gives the
  payload after \<open>DecodeString\<close> and \<open>Unmarshal\<close>, whose errors the code drops.
\<close>

record codec =
  encode_cursor :: "cursor \<Rightarrow> string"
  decode_cursor :: "string \<Rightarrow> cursor"

text \<open>
  SQLite's \<open>LIKE\<close>: \<open>%\<close> matches any run of characters, \<open>_\<close> one character, and ASCII letters
  match in either case. \<open>skip_char\<close> drops one UTF-8 character.
\<close>

fun skip_char :: "string \<Rightarrow> string" where
  "skip_char [] = []"
| "skip_char (b # bs) =
     (if 192 \<le> (of_char b :: nat) then dropWhile (\<lambda>c. 128 \<le> (of_char c :: nat) \<and> (of_char c :: nat) < 192) bs
      else bs)"

lemma length_skip_char: "length (skip_char s) \<le> length s - 1"
  by (cases s) (auto simp: length_dropWhile_le)

lemma skip_char_less: "s \<noteq> [] \<Longrightarrow> length (skip_char s) < length s"
  using length_skip_char [of s] by (cases s) auto

lemma skip_char_le: "length (skip_char s) \<le> length s"
  using length_skip_char [of s] by simp

function sql_like :: "string \<Rightarrow> string \<Rightarrow> bool" where
  "sql_like [] s = (s = [])"
| "sql_like (p # ps) s =
     (if p = CHR ''%'' then sql_like ps s \<or> (if s = [] then False else sql_like (p # ps) (skip_char s))
      else if p = CHR ''_'' then s \<noteq> [] \<and> sql_like ps (skip_char s)
      else s \<noteq> [] \<and> (p = hd s \<or> ascii_lower p = ascii_lower (hd s)) \<and> sql_like ps (tl s))"
  by pat_completeness auto
termination
  by (relation "measure (\<lambda>(p, s). length p + length s)") (auto simp: le_imp_less_Suc skip_char_less skip_char_le)

declare sql_like.simps [simp del]

definition after_cursor :: "cursor \<Rightarrow> node_row \<Rightarrow> bool" where
  "after_cursor cur r \<longleftrightarrow> c_key cur < nr_name_key r \<or> (nr_name_key r = c_key cur \<and> c_id cur < nr_id r)"

definition search_query :: "string \<Rightarrow> cursor \<Rightarrow> nat \<Rightarrow> node_row list \<Rightarrow> node_row list" where
  "search_query pat cur lim rows =
     take lim (sort_key (\<lambda>r. (nr_name_key r, nr_id r))
       (filter (\<lambda>r. nr_trashed r = None \<and> \<not> nr_system r \<and> sql_like pat (nr_name_key r) \<and> after_cursor cur r) rows))"

definition folder_rank :: "node_row \<Rightarrow> nat" where
  "folder_rank r = (if nr_kind r = KindFolder then 0 else 1)"

definition folder_query :: "string \<Rightarrow> cursor \<Rightarrow> nat \<Rightarrow> node_row list \<Rightarrow> node_row list" where
  "folder_query p cur lim rows =
     take lim (sort_key (\<lambda>r. (folder_rank r, nr_name_key r, nr_id r))
       (filter (\<lambda>r. nr_parent r = Some p \<and> nr_trashed r = None \<and> \<not> nr_system r \<and> after_cursor cur r) rows))"

definition page_limit :: "int \<Rightarrow> int" where
  "page_limit limit = (if limit \<le> 0 \<or> 200 < limit then 50 else limit)"

text \<open>The query asks for one row more than a page; that row says that a next page exists.\<close>

definition make_page :: "codec \<Rightarrow> nat \<Rightarrow> node list \<Rightarrow> node list \<times> string option" where
  "make_page cdc lim ns =
     (if lim < length ns
      then (take lim ns,
            Some (encode_cursor cdc \<lparr>c_key = n_name_key (ns ! (lim - 1)), c_id = n_id (ns ! (lim - 1))\<rparr>))
      else (ns, None))"

definition list_nodes ::
  "text_env \<Rightarrow> codec \<Rightarrow> outside \<Rightarrow> string option \<Rightarrow> string \<Rightarrow> int \<Rightarrow> string \<Rightarrow> database \<Rightarrow>
   err + (node list \<times> string option)" where
  "list_nodes env cdc ora parent cursor limit search db =
     (let lim = nat (page_limit limit);
          cur = (if cursor \<noteq> [] then decode_cursor cdc cursor else \<lparr>c_key = [], c_id = []\<rparr>);
          rows = (if search \<noteq> []
             then search_query
               (''%'' @ (case normalize_name env search of Inl _ \<Rightarrow> search | Inr (_, key) \<Rightarrow> key) @ ''%'')
               cur (lim + 1) (nodes db)
             else folder_query (target_parent parent) cur (lim + 1) (nodes db))
      in case db_fails ora 0 of
           Some m \<Rightarrow> Inl (Wrap ''failed to list nodes'' (DbErr (ExternalFault m)))
         | None \<Rightarrow> Inr (make_page cdc lim (map (scan_row db) rows)))"

text \<open>
  \<open>ORDER BY trashed_at DESC\<close> reads the index on \<open>(parent_id, trashed_at)\<close> backwards, so rows
  with the same second come newest rowid first.
\<close>

definition list_trash :: "outside \<Rightarrow> database \<Rightarrow> err + node list" where
  "list_trash ora db =
     (case db_fails ora 0 of
        Some m \<Rightarrow> Inl (Wrap ''failed to list trash'' (DbErr (ExternalFault m)))
      | None \<Rightarrow>
          Inr (map (scan_row db)
            (rev (sort_key (\<lambda>r. the (nr_trashed r))
              (filter (\<lambda>r. nr_parent r = Some trash_root_id \<and> nr_trashed r \<noteq> None) (nodes db))))))"

section \<open>Renaming\<close>

definition rename_row :: "string \<Rightarrow> string \<Rightarrow> int \<Rightarrow> node_row \<Rightarrow> node_row" where
  "rename_row disp key now r = r\<lparr>nr_name := disp, nr_name_key := key, nr_updated := Rfc3339 now\<rparr>"

definition rename_node ::
  "text_env \<Rightarrow> outside \<Rightarrow> string \<Rightarrow> string \<Rightarrow> database \<Rightarrow> (err + node) \<times> database" where
  "rename_node env ora i newname db =
     (case get_node (db_fails ora 0) db i of
        Inl e \<Rightarrow> (Inl e, db)
      | Inr n \<Rightarrow>
          if n_system n then (Inl ErrSystemNodeProtected, db)
          else (case normalize_name env newname of
             Inl e \<Rightarrow> (Inl e, db)
           | Inr (disp, key) \<Rightarrow>
               (case update_nodes (db_fails ora 1) (\<lambda>r. nr_id r = i)
                   (rename_row disp key (secs (clock ora 0))) db of
                  Inl f \<Rightarrow>
                    (Inl (if is_constraint_error f then ErrAlreadyExists
                          else Wrap ''failed to rename node'' (DbErr f)), db)
                | Inr db' \<Rightarrow> (get_node (db_fails ora 2) db' i, db'))))"

section \<open>Moving\<close>

text \<open>
  The cycle check walks from the new parent towards the root; \<open>k\<close> is the index of its next
  database call, and the walk returns the next index after its own calls. The loop has no
  bound of its own.
\<close>

partial_function (option) move_walk ::
  "outside \<Rightarrow> database \<Rightarrow> string \<Rightarrow> nat \<Rightarrow> string \<Rightarrow> (err + nat) option" where
  "move_walk ora db i k cur =
     (if cur = i then Some (Inl ErrCycleDetected)
      else (case db_fails ora k of
         Some m \<Rightarrow> Some (Inl (Wrap ''cycle check failed'' (DbErr (ExternalFault m))))
       | None \<Rightarrow>
           (case find_node db cur of
              None \<Rightarrow> Some (Inr (Suc k))
            | Some r \<Rightarrow>
                (case nr_parent r of
                   None \<Rightarrow> Some (Inr (Suc k))
                 | Some p \<Rightarrow> if p = [] then Some (Inr (Suc k)) else move_walk ora db i (Suc k) p))))"

definition move_row :: "string \<Rightarrow> int \<Rightarrow> node_row \<Rightarrow> node_row" where
  "move_row p now r = r\<lparr>nr_parent := Some p, nr_updated := Rfc3339 now\<rparr>"

definition move_node ::
  "outside \<Rightarrow> string \<Rightarrow> string \<Rightarrow> database \<Rightarrow> ((err + node) \<times> database) option" where
  "move_node ora i newparent db =
     (case get_node (db_fails ora 0) db i of
        Inl e \<Rightarrow> Some (Inl e, db)
      | Inr n \<Rightarrow>
          if n_system n then Some (Inl ErrSystemNodeProtected, db)
          else if i = newparent then Some (Inl ErrCycleDetected, db)
          else (case get_node (db_fails ora 1) db newparent of
             Inl e \<Rightarrow> Some (Inl e, db)
           | Inr p \<Rightarrow>
               (case check_folder p of
                  Inl e \<Rightarrow> Some (Inl e, db)
                | Inr _ \<Rightarrow>
                    (case move_walk ora db i 2 newparent of
                       None \<Rightarrow> None
                     | Some (Inl e) \<Rightarrow> Some (Inl e, db)
                     | Some (Inr k) \<Rightarrow>
                         (case update_nodes (db_fails ora k) (\<lambda>r. nr_id r = i)
                             (move_row newparent (secs (clock ora 0))) db of
                            Inl f \<Rightarrow>
                              Some (Inl (if is_constraint_error f then ErrAlreadyExists
                                    else Wrap ''failed to move node'' (DbErr f)), db)
                          | Inr db' \<Rightarrow> Some (get_node (db_fails ora (Suc k)) db' i, db'))))))"

section \<open>Trash\<close>

definition trash_row :: "int \<Rightarrow> node_row \<Rightarrow> node_row" where
  "trash_row now r =
     r\<lparr>nr_trashed := Some now, nr_restore := nr_parent r, nr_parent := Some trash_root_id,
       nr_updated := Rfc3339 now\<rparr>"

definition set_trashed :: "int option \<Rightarrow> node_row \<Rightarrow> node_row" where
  "set_trashed t r = r\<lparr>nr_trashed := t\<rparr>"

text \<open>\<open>UPDATE nodes SET trashed_at = ... WHERE id IN (SELECT id FROM subnodes)\<close>.\<close>

definition cascade_trashed ::
  "string option \<Rightarrow> string \<Rightarrow> int option \<Rightarrow> database \<Rightarrow> (db_fault + database) option" where
  "cascade_trashed flt i t db =
     (case flt of
        Some m \<Rightarrow> Some (Inl (ExternalFault m))
      | None \<Rightarrow>
          (case subnodes (nodes db) i of
             None \<Rightarrow> None
           | Some ids \<Rightarrow> Some (update_nodes None (\<lambda>r. nr_id r \<in> set ids) (set_trashed t) db)))"

definition trash_node :: "outside \<Rightarrow> string \<Rightarrow> database \<Rightarrow> ((err + unit) \<times> database) option" where
  "trash_node ora i db =
     (case get_node (db_fails ora 0) db i of
        Inl e \<Rightarrow> Some (Inl e, db)
      | Inr n \<Rightarrow>
          if n_system n then Some (Inl ErrSystemNodeProtected, db)
          else (case tx_call (db_fails ora 1) of
             Inl f \<Rightarrow> Some (Inl (DbErr f), db)
           | Inr _ \<Rightarrow>
               (case update_nodes (db_fails ora 2) (\<lambda>r. nr_id r = i) (trash_row (secs (clock ora 0))) db of
                  Inl f \<Rightarrow> Some (Inl (Wrap ''failed to trash node'' (DbErr f)), db)
                | Inr db1 \<Rightarrow>
                    (case (if n_kind n = KindFolder
                           then cascade_trashed (db_fails ora 3) i (Some (secs (clock ora 0))) db1
                           else Some (Inr db1)) of
                       None \<Rightarrow> None
                     | Some (Inl f) \<Rightarrow> Some (Inl (Wrap ''failed to cascade trashed_at'' (DbErr f)), db)
                     | Some (Inr db2) \<Rightarrow>
                         (case tx_call (db_fails ora 4) of
                            Inl f \<Rightarrow> Some (Inl (DbErr f), db)
                          | Inr _ \<Rightarrow> Some (Inr (), db2))))))"

section \<open>Restore\<close>

definition restore_row :: "string \<Rightarrow> int \<Rightarrow> node_row \<Rightarrow> node_row" where
  "restore_row p now r =
     r\<lparr>nr_parent := Some p, nr_trashed := None, nr_restore := None, nr_updated := Rfc3339 now\<rparr>"

text \<open>The recorded parent if it is still an active folder, the root otherwise.\<close>

definition restore_target :: "string option \<Rightarrow> database \<Rightarrow> node \<Rightarrow> string" where
  "restore_target flt db n =
     (case n_restore n of
        None \<Rightarrow> root_id
      | Some p \<Rightarrow>
          if p = [] then root_id
          else (case get_node flt db p of
             Inl _ \<Rightarrow> root_id
           | Inr q \<Rightarrow> if n_trashed q = None \<and> n_kind q = KindFolder then p else root_id))"

definition restore_node :: "outside \<Rightarrow> string \<Rightarrow> database \<Rightarrow> ((err + node) \<times> database) option" where
  "restore_node ora i db =
     (case get_node (db_fails ora 0) db i of
        Inl e \<Rightarrow> Some (Inl e, db)
      | Inr n \<Rightarrow>
          if n_trashed n = None then Some (Inl ErrInvalidOperation, db)
          else (case tx_call (db_fails ora 2) of
             Inl f \<Rightarrow> Some (Inl (DbErr f), db)
           | Inr _ \<Rightarrow>
               (case update_nodes (db_fails ora 3) (\<lambda>r. nr_id r = i)
                   (restore_row (restore_target (db_fails ora 1) db n) (secs (clock ora 0))) db of
                  Inl f \<Rightarrow>
                    Some (Inl (if is_constraint_error f then ErrAlreadyExists
                               else Wrap ''failed to restore node'' (DbErr f)), db)
                | Inr db1 \<Rightarrow>
                    (case (if n_kind n = KindFolder then cascade_trashed (db_fails ora 4) i None db1
                           else Some (Inr db1)) of
                       None \<Rightarrow> None
                     | Some (Inl f) \<Rightarrow>
                         Some (Inl (Wrap ''failed to clear trashed_at on descendants'' (DbErr f)), db)
                     | Some (Inr db2) \<Rightarrow>
                         (case tx_call (db_fails ora 5) of
                            Inl f \<Rightarrow> Some (Inl (DbErr f), db)
                          | Inr _ \<Rightarrow> Some (get_node (db_fails ora 6) db2 i, db2))))))"

section \<open>Purge\<close>

text \<open>
  The query for the storage keys joins the subtree with \<open>file_objects\<close>; when it fails, the
  code goes on with no keys.
\<close>

definition subtree_keys :: "string option \<Rightarrow> database \<Rightarrow> string \<Rightarrow> string list option" where
  "subtree_keys flt db i =
     (case flt of
        Some _ \<Rightarrow> Some []
      | None \<Rightarrow> map_option (List.map_filter (\<lambda>d. map_option fr_key (find_file db d))) (subtree (nodes db) i))"

definition delete_subtree :: "string option \<Rightarrow> string \<Rightarrow> database \<Rightarrow> (db_fault + database) option" where
  "delete_subtree flt i db =
     (case flt of
        Some m \<Rightarrow> Some (Inl (ExternalFault m))
      | None \<Rightarrow> map_option (\<lambda>ids. delete_nodes None ids db) (subtree (nodes db) i))"

definition purge_node :: "outside \<Rightarrow> string \<Rightarrow> database \<Rightarrow> ((err + string list) \<times> database) option" where
  "purge_node ora i db =
     (case get_node (db_fails ora 0) db i of
        Inl e \<Rightarrow> Some (Inl e, db)
      | Inr n \<Rightarrow>
          if n_system n then Some (Inl ErrSystemNodeProtected, db)
          else if n_trashed n = None then Some (Inl ErrInvalidOperation, db)
          else (case tx_call (db_fails ora 1) of
             Inl f \<Rightarrow> Some (Inl (DbErr f), db)
           | Inr _ \<Rightarrow>
               (case subtree_keys (db_fails ora 2) db i of
                  None \<Rightarrow> None
                | Some keys \<Rightarrow>
                    (case delete_subtree (db_fails ora 3) i db of
                       None \<Rightarrow> None
                     | Some (Inl f) \<Rightarrow> Some (Inl (Wrap ''failed to delete node subtree'' (DbErr f)), db)
                     | Some (Inr db') \<Rightarrow>
                         (case tx_call (db_fails ora 4) of
                            Inl f \<Rightarrow> Some (Inl (DbErr f), db)
                          | Inr _ \<Rightarrow> Some (Inr keys, db'))))))"

section \<open>Backup selection\<close>

definition backup_row :: "bool \<Rightarrow> int \<Rightarrow> file_row \<Rightarrow> file_row" where
  "backup_row selected now f =
     f\<lparr>fr_backup := (if selected then Some now else None), fr_updated := now\<rparr>"

text \<open>\<open>RowsAffected\<close> is the number of rows the update matched.\<close>

definition toggle_backup :: "outside \<Rightarrow> string \<Rightarrow> bool \<Rightarrow> database \<Rightarrow> (err + unit) \<times> database" where
  "toggle_backup ora i selected db =
     (case update_files (db_fails ora 0) (\<lambda>f. fr_node f = i) (backup_row selected (secs (clock ora 0))) db of
        Inl f \<Rightarrow> (Inl (Wrap ''failed to update backup selection'' (DbErr f)), db)
      | Inr db' \<Rightarrow>
          if length (filter (\<lambda>f. fr_node f = i) (file_objects db)) = 0 then (Inl ErrNotFound, db')
          else (Inr (), db'))"

end
