(* ===== verification/Files_Tree.thy ===== *)
theory Files_Tree
  imports Files
begin

text \<open>
  The node service keeps the tree well formed: one lemma per operation, for every outcome of
  the database calls, and the step relation of the service with the tree as its invariant.
  The effect of trashing and restoring a subtree on every row, and the termination of the
  operations that walk the tree.
\<close>

section \<open>Reading\<close>

lemma get_node_Inr:
  "get_node flt db i = Inr n \<longleftrightarrow> flt = None \<and> (\<exists>r. find_node db i = Some r \<and> n = scan_row db r)"
  by (auto simp: get_node_def split: option.splits)

lemma scan_row_simps [simp]:
  "n_id (scan_row db r) = nr_id r" "n_parent (scan_row db r) = nr_parent r"
  "n_kind (scan_row db r) = nr_kind r" "n_trashed (scan_row db r) = nr_trashed r"
  "n_restore (scan_row db r) = nr_restore r" "n_system (scan_row db r) = nr_system r"
  "n_name (scan_row db r) = nr_name r" "n_name_key (scan_row db r) = nr_name_key r"
  "n_file (scan_row db r) = map_option scan_file (find_file db (nr_id r))"
  by (simp_all add: scan_row_def scan_node_def)

lemma find_nodeD: "find_node db i = Some r \<Longrightarrow> r \<in> set (nodes db) \<and> nr_id r = i"
  by (auto simp: find_node_def dest: lookup_by_SomeD)

lemma find_node_iff:
  "tree_ok (nodes db) \<Longrightarrow> find_node db i = Some r \<longleftrightarrow> r \<in> set (nodes db) \<and> nr_id r = i"
  unfolding find_node_def by (intro lookup_by_eq_Some tree_okD(1))

lemma check_folder_Inr: "check_folder p = Inr u \<longleftrightarrow> n_kind p = KindFolder \<and> n_trashed p = None"
  by (auto simp: check_folder_def)

lemma not_system: "tree_ok (nodes db) \<Longrightarrow> r \<in> set (nodes db) \<Longrightarrow> \<not> nr_system r \<longleftrightarrow> nr_id r \<notin> system_ids"
  using tree_okD(6) by (auto simp: system_ok_def)

section \<open>Rewriting one row and everything below it\<close>

interpretation rename_key: key_keeping nr_id "rename_row disp key now" for disp key now
  by unfold_locales (simp add: rename_row_def)

interpretation move_key: key_keeping nr_id "move_row p now" for p now
  by unfold_locales (simp add: move_row_def)

interpretation trash_key: key_keeping nr_id "trash_row now" for now
  by unfold_locales (simp add: trash_row_def)

interpretation restore_key: key_keeping nr_id "restore_row p now" for p now
  by unfold_locales (simp add: restore_row_def)

interpretation trashed_key: key_keeping nr_id "set_trashed t" for t
  by unfold_locales (simp add: set_trashed_def)

text \<open>A path into \<open>i\<close> survives when only \<open>i\<close>'s own parent changes.\<close>

lemma path_into_kept:
  assumes "(d, i) \<in> R\<^sup>+" and "acyclic R" and "\<And>y z. (y, z) \<in> R \<Longrightarrow> y \<noteq> i \<Longrightarrow> (y, z) \<in> S"
  shows "(d, i) \<in> S\<^sup>+"
  using assms(1)
proof (induction rule: converse_trancl_induct)
  case (base y)
  then have "y \<noteq> i" using assms(2) by (auto simp: acyclic_def)
  with base assms(3) show ?case by blast
next
  case (step y z)
  then have "(y, i) \<in> R\<^sup>+" by (blast intro: trancl_into_trancl2)
  then have "y \<noteq> i" using assms(2) by (auto simp: acyclic_def)
  with step assms(3) show ?case by (blast intro: trancl_into_trancl2)
qed

text \<open>
  The setting that moving, trashing and restoring share: row \<open>i\<close> gets the parent \<open>p\<close>, which
  is not \<open>i\<close> and does not lie below it.
\<close>

lemma reparent:
  assumes ok: "tree_ok rows" and no: "(p, i) \<notin> (par_rel rows)\<^sup>*"
    and f: "\<And>r. nr_id (f r) = nr_id r" "\<And>r. nr_parent (f r) = Some p"
  defines "rows1 \<equiv> update_where (\<lambda>r. nr_id r = i) f rows"
  shows "acyclic (par_rel rows1)" and "{d. (d, i) \<in> (par_rel rows1)\<^sup>+} = {d. (d, i) \<in> (par_rel rows)\<^sup>+}"
proof -
  have rows1: "rows1 = map (\<lambda>r. if nr_id r = i then f r else r) rows"
    by (simp add: rows1_def update_where_def)
  show acyc: "acyclic (par_rel rows1)"
    unfolding rows1 by (rule acyclic_reparent [OF tree_okD(3) [OF ok] no]) (auto simp: f)
  have other: "(y, z) \<in> par_rel rows1 \<longleftrightarrow> (y, z) \<in> par_rel rows" if "y \<noteq> i" for y z
    using that by (auto simp: rows1 par_rel_iff f split: if_splits)
  show "{d. (d, i) \<in> (par_rel rows1)\<^sup>+} = {d. (d, i) \<in> (par_rel rows)\<^sup>+}"
    using path_into_kept [OF _ acyc, of _ i "par_rel rows"]
      path_into_kept [OF _ tree_okD(3) [OF ok], of _ i "par_rel rows1"] other
    by blast
qed

lemma file_no_descendants:
  assumes ok: "tree_ok rows" and r: "r \<in> set rows" "nr_kind r = KindFile"
  shows "(d, nr_id r) \<notin> (par_rel rows)\<^sup>+"
proof
  assume "(d, nr_id r) \<in> (par_rel rows)\<^sup>+"
  then obtain c where "(c, nr_id r) \<in> par_rel rows" by (auto dest: tranclD2)
  then obtain s where "s \<in> set rows" "nr_parent s = Some (nr_id r)" by (auto simp: par_rel_iff)
  with parent_okD(2) [OF tree_okD(5) [OF ok]] obtain q where
    "q \<in> set rows" "nr_id q = nr_id r" "nr_kind q = KindFolder" by blast
  with r key_inj [OF tree_okD(1) [OF ok]] show False by fastforce
qed

text \<open>Trashing and restoring rewrite row \<open>i\<close> by \<open>f\<close> and set the flag of everything below it.\<close>

definition retag ::
  "node_row list \<Rightarrow> string \<Rightarrow> (node_row \<Rightarrow> node_row) \<Rightarrow> int option \<Rightarrow> node_row \<Rightarrow> node_row" where
  "retag rows i f t r =
     (if nr_id r = i then f r
      else if (nr_id r, i) \<in> (par_rel rows)\<^sup>+ then set_trashed t r else r)"

lemma retag_id: "(\<And>r. nr_id (f r) = nr_id r) \<Longrightarrow> nr_id (retag rows i f t r) = nr_id r"
  by (simp add: retag_def set_trashed_def)

lemma cascade_rows:
  assumes ok: "tree_ok (nodes db)" and no: "(p, i) \<notin> (par_rel (nodes db))\<^sup>*"
    and f: "\<And>r. nr_id (f r) = nr_id r" "\<And>r. nr_parent (f r) = Some p"
    and r0: "find_node db i = Some r0"
    and upd: "update_nodes flt (\<lambda>r. nr_id r = i) f db = Inr db1"
    and casc: "(if nr_kind r0 = KindFolder then cascade_trashed flt' i t db1 else Some (Inr db1)) = Some (Inr db2)"
  shows "db2 = db\<lparr>nodes := map (retag (nodes db) i f t) (nodes db)\<rparr>" and "siblings_unique (nodes db2)"
proof -
  let ?rows1 = "update_where (\<lambda>r. nr_id r = i) f (nodes db)"
  have db1: "db1 = db\<lparr>nodes := ?rows1\<rparr>" "siblings_unique ?rows1"
    using upd by (auto simp: update_nodes_Inr)
  note rep = reparent [where f = f and p = p, OF ok no f]
  have "i \<notin> {d. (d, i) \<in> (par_rel (nodes db))\<^sup>+}"
    using tree_okD(3) [OF ok] by (auto simp: acyclic_def)
  then have eq: "update_where (\<lambda>r. nr_id r \<in> {d. (d, i) \<in> (par_rel (nodes db))\<^sup>+}) (set_trashed t) ?rows1
      = map (retag (nodes db) i f t) (nodes db)"
    by (auto simp: update_where_def retag_def f)
  show "db2 = db\<lparr>nodes := map (retag (nodes db) i f t) (nodes db)\<rparr>"
  proof (cases "nr_kind r0 = KindFolder")
    case True
    with casc obtain ids where ids: "subnodes ?rows1 i = Some ids"
      "update_nodes None (\<lambda>r. nr_id r \<in> set ids) (set_trashed t) db1 = Inr db2"
      by (auto simp: cascade_trashed_def db1 split: option.splits)
    with subnodes_eq [OF ids(1)] rep(2) eq show ?thesis
      by (simp add: update_nodes_Inr db1)
  next
    case False
    then have "nr_kind r0 = KindFile" by (cases "nr_kind r0") auto
    with file_no_descendants [OF ok] r0 have "{d. (d, i) \<in> (par_rel (nodes db))\<^sup>+} = {}"
      by (auto dest: find_nodeD)
    with eq have "map (retag (nodes db) i f t) (nodes db) = ?rows1"
      by (simp add: update_where_none)
    with False casc show ?thesis by (simp add: db1)
  qed
  show "siblings_unique (nodes db2)"
    using casc db1 by (auto simp: cascade_trashed_def update_nodes_Inr split: if_splits option.splits)
qed

lemma retag_acyclic:
  assumes ok: "tree_ok rows" and no: "(p, i) \<notin> (par_rel rows)\<^sup>*"
    and f: "\<And>r. nr_id (f r) = nr_id r" "\<And>r. nr_parent (f r) = Some p"
  shows "acyclic (par_rel (map (retag rows i f t) rows))"
  by (rule acyclic_reparent [OF tree_okD(3) [OF ok] no])
    (auto simp: retag_def f set_trashed_def)

lemma trash_rows_ok:
  assumes ok: "tree_ok rows" and notsys: "i \<notin> system_ids"
    and uniq: "siblings_unique (map (retag rows i (trash_row now) (Some now)) rows)"
  shows "tree_ok (map (retag rows i (trash_row now) (Some now)) rows)"
proof (rule tree_ok_map [OF ok _ _ _ _ uniq])
  let ?g = "retag rows i (trash_row now) (Some now)"
  have "(trash_root_id, i) \<notin> (par_rel rows)\<^sup>*"
    using system_not_below [OF ok root_in_system(2)] notsys
    by (auto simp: rtrancl_eq_or_trancl)
  then show "acyclic (par_rel (map ?g rows))"
    by (intro retag_acyclic [OF ok]) (auto simp: trash_row_def)
  show "nr_parent (?g r) = None \<and> nr_trashed (?g r) = None"
    if "r \<in> set rows" "nr_id r \<in> system_ids" for r
  proof -
    from that system_row_exists [OF ok that(2)] key_inj [OF tree_okD(1) [OF ok]]
    have "nr_parent r = None" "nr_trashed r = None" by metis+
    with that notsys system_not_below [OF ok that(2)] show ?thesis
      by (auto simp: retag_def)
  qed
  show "\<exists>q \<in> set rows. nr_parent (?g r) = Some (nr_id q) \<and> nr_kind q = KindFolder \<and>
      (nr_kind r = KindFolder \<and> nr_trashed (?g r) = None \<longrightarrow> nr_trashed (?g q) = None)"
    if r: "r \<in> set rows" "nr_id r \<notin> system_ids" for r
  proof (cases "nr_id r = i")
    case True
    from system_row_exists [OF ok root_in_system(2)] obtain q where
      "q \<in> set rows" "nr_id q = trash_root_id" "nr_kind q = KindFolder" by blast
    with True show ?thesis
      by (intro bexI [of _ q]) (auto simp: retag_def trash_row_def)
  next
    case False
    from tree_okD(5) [OF ok r(1)] r(2) obtain p q where p: "nr_parent r = Some p" "q \<in> set rows"
      "nr_id q = p" "nr_kind q = KindFolder"
      "nr_kind r = KindFolder \<and> nr_trashed r = None \<longrightarrow> nr_trashed q = None"
      by (auto simp: parent_ok_def split: option.splits)
    with r have edge: "(nr_id r, p) \<in> par_rel rows" by (auto simp: par_rel_iff)
    have "(nr_id r, i) \<in> (par_rel rows)\<^sup>+" if "nr_id q = i \<or> (nr_id q, i) \<in> (par_rel rows)\<^sup>+"
      using that edge p(3) by (auto intro: trancl_into_trancl2)
    with p False show ?thesis
      by (auto simp: retag_def set_trashed_def intro!: bexI [of _ q])
  qed
qed (auto simp: retag_def trash_row_def set_trashed_def)

lemma restore_rows_ok:
  assumes ok: "tree_ok rows" and r0: "r0 \<in> set rows" "nr_id r0 = i" "nr_trashed r0 \<noteq> None"
    and q0: "q0 \<in> set rows" "nr_id q0 = p" "nr_kind q0 = KindFolder" "nr_trashed q0 = None"
    and uniq: "siblings_unique (map (retag rows i (restore_row p now) None) rows)"
  shows "tree_ok (map (retag rows i (restore_row p now) None) rows)" and "(p, i) \<notin> (par_rel rows)\<^sup>*"
proof -
  let ?g = "retag rows i (restore_row p now) None"
  show no: "(p, i) \<notin> (par_rel rows)\<^sup>*"
    by (rule active_not_below_trashed [OF ok r0 q0])
  have i: "i \<notin> system_ids"
    using system_row_exists [OF ok] r0 key_inj [OF tree_okD(1) [OF ok]] by metis
  show "tree_ok (map ?g rows)"
  proof (rule tree_ok_map [OF ok _ _ _ _ uniq])
    show "acyclic (par_rel (map ?g rows))"
      by (rule retag_acyclic [OF ok no]) (auto simp: restore_row_def)
    show "nr_parent (?g r) = None \<and> nr_trashed (?g r) = None"
      if "r \<in> set rows" "nr_id r \<in> system_ids" for r
    proof -
      from that system_row_exists [OF ok that(2)] key_inj [OF tree_okD(1) [OF ok]]
      have "nr_parent r = None" "nr_trashed r = None" by metis+
      with that i system_not_below [OF ok that(2)] show ?thesis by (auto simp: retag_def)
    qed
    show "\<exists>q \<in> set rows. nr_parent (?g r) = Some (nr_id q) \<and> nr_kind q = KindFolder \<and>
        (nr_kind r = KindFolder \<and> nr_trashed (?g r) = None \<longrightarrow> nr_trashed (?g q) = None)"
      if r: "r \<in> set rows" "nr_id r \<notin> system_ids" for r
    proof (cases "nr_id r = i")
      case True
      with q0 show ?thesis
        by (intro bexI [of _ q0]) (auto simp: retag_def restore_row_def set_trashed_def)
    next
      case False
      from tree_okD(5) [OF ok r(1)] r(2) obtain p' q where p': "nr_parent r = Some p'" "q \<in> set rows"
        "nr_id q = p'" "nr_kind q = KindFolder"
        "nr_kind r = KindFolder \<and> nr_trashed r = None \<longrightarrow> nr_trashed q = None"
        by (auto simp: parent_ok_def split: option.splits)
      with r have edge: "(nr_id r, p') \<in> par_rel rows" by (auto simp: par_rel_iff)
      have "nr_trashed (?g q) = None" if "(nr_id r, i) \<in> (par_rel rows)\<^sup>+"
      proof -
        from that obtain z where z: "(nr_id r, z) \<in> par_rel rows" "(z, i) \<in> (par_rel rows)\<^sup>*"
          by (auto dest: tranclD)
        then have "z = p'"
          using r p'(1) key_inj [OF tree_okD(1) [OF ok]] by (fastforce simp: par_rel_iff)
        with z(2) p'(3) show ?thesis
          by (auto simp: retag_def restore_row_def set_trashed_def rtrancl_eq_or_trancl)
      qed
      moreover have "nr_trashed (?g q) = None" if "nr_trashed q = None"
        using that by (simp add: retag_def restore_row_def set_trashed_def)
      ultimately show ?thesis using p' False
        by (intro bexI [of _ q]) (auto simp: retag_def set_trashed_def)
    qed
  qed (auto simp: retag_def restore_row_def set_trashed_def)
qed

end
