(* ===== verification/Files_Inv.thy ===== *)
theory Files_Inv
  imports Files_Tree
begin

text \<open>
  Every operation of the node service keeps the tree and the table of file objects well
  formed (\<open>files_ok\<close>), whatever the database calls answer, and the operations that walk the
  tree return. The step relation of the service and its invariant.
\<close>

section \<open>The cycle check\<close>

lemma move_walk_sound:
  assumes "move_walk ora db i k cur = Some (Inr k')" and "tree_ok (nodes db)"
  shows "(cur, i) \<notin> (par_rel (nodes db))\<^sup>*"
proof -
  let ?P = "\<lambda>ora db i (k :: nat) cur (r :: err + nat). tree_ok (nodes db) \<longrightarrow> (\<forall>k'. r = Inr k' \<longrightarrow> (cur, i) \<notin> (par_rel (nodes db))\<^sup>*)"
  have "?P ora db i k cur (Inr k')"
  proof (rule move_walk.raw_induct [where P = ?P, OF _ assms(1)], intro impI allI)
    fix walk ora db i k cur r k'
    assume IH: "\<And>ora db i k cur r. walk ora db i k cur = Some r \<Longrightarrow> ?P ora db i k cur r"
      and eq: "(if cur = i then Some (Inl ErrCycleDetected)
        else (case db_fails ora k of
           Some m \<Rightarrow> Some (Inl (Wrap ''cycle check failed'' (DbErr (ExternalFault m))))
         | None \<Rightarrow>
             (case find_node db cur of
                None \<Rightarrow> Some (Inr (Suc k))
              | Some r \<Rightarrow>
                  (case nr_parent r of
                     None \<Rightarrow> Some (Inr (Suc k))
                   | Some p \<Rightarrow> if p = [] then Some (Inr (Suc k)) else walk ora db i (Suc k) p)))) = Some r"
      and ok: "tree_ok (nodes db)" and r: "r = Inr k'"
    from eq r have neq: "cur \<noteq> i" by (auto split: if_splits)
    show "(cur, i) \<notin> (par_rel (nodes db))\<^sup>*"
    proof
      assume "(cur, i) \<in> (par_rel (nodes db))\<^sup>*"
      with neq obtain p where p: "(cur, p) \<in> par_rel (nodes db)" "(p, i) \<in> (par_rel (nodes db))\<^sup>*"
        by (blast elim: converse_rtranclE)
      then obtain s where s: "s \<in> set (nodes db)" "nr_id s = cur" "nr_parent s = Some p"
        by (auto simp: par_rel_iff)
      with ok have "find_node db cur = Some s" by (simp add: find_node_iff)
      moreover have "p \<noteq> []"
        using tree_ok_parent_id [OF ok p(1)] tree_okD(2) [OF ok] by blast
      ultimately have "walk ora db i (Suc k) p = Some (Inr k')"
        using eq r s neq by (auto split: option.splits)
      from IH [OF this] ok p(2) show False by blast
    qed
  qed
  with assms(2) show ?thesis by blast
qed

text \<open>The loop ends: parents form a well-founded relation.\<close>

lemma move_walk_total:
  assumes ok: "tree_ok (nodes db)"
  shows "\<exists>r. move_walk ora db i k cur = Some r"
proof (induction cur arbitrary: k rule: wf_induct_rule [OF wf_par_rel_converse [OF tree_okD(3) [OF ok]]])
  case (1 cur)
  have "\<exists>r. move_walk ora db i (Suc k) p = Some r" if "find_node db cur = Some r" "nr_parent r = Some p" for r p
    using 1 [of p "Suc k"] that by (auto simp: par_rel_iff dest: find_nodeD)
  then show ?case
    by (subst move_walk.simps) (auto split: option.split)
qed

text \<open>With a database that answers, the walk finds the node exactly when it is on the way up.\<close>

lemma walk_finds_below:
  assumes ok: "tree_ok (nodes db)" and calm: "quiet ora" and below: "(cur, i) \<in> (par_rel (nodes db))\<^sup>*"
  shows "move_walk ora db i k cur = Some (Inl ErrCycleDetected)"
  using below
proof (induction arbitrary: k rule: converse_rtrancl_induct)
  case base
  then show ?case by (simp add: move_walk.simps)
next
  case (step cur p)
  from step(1) ok obtain r where "find_node db cur = Some r" "nr_parent r = Some p"
    by (auto simp: par_rel_iff find_node_iff)
  moreover have "p \<noteq> []"
    using tree_ok_parent_id [OF ok step(1)] tree_okD(2) [OF ok] by blast
  ultimately show ?case
    using step.IH calm by (subst move_walk.simps) simp
qed

lemma walk_clear:
  assumes ok: "tree_ok (nodes db)" and calm: "quiet ora" and no: "(cur, i) \<notin> (par_rel (nodes db))\<^sup>*"
  shows "\<exists>k'. move_walk ora db i k cur = Some (Inr k')"
  using no
proof (induction cur arbitrary: k rule: wf_induct_rule [OF wf_par_rel_converse [OF tree_okD(3) [OF ok]]])
  case (1 cur)
  have "\<exists>k'. move_walk ora db i (Suc k) p = Some (Inr k')" if "find_node db cur = Some r" "nr_parent r = Some p" for r p
  proof -
    from that have edge: "(cur, p) \<in> par_rel (nodes db)" by (auto simp: par_rel_iff dest: find_nodeD)
    with 1(2) have "(p, i) \<notin> (par_rel (nodes db))\<^sup>*" by (meson converse_rtrancl_into_rtrancl)
    with 1(1) edge show ?thesis by simp
  qed
  moreover from 1(2) have "cur \<noteq> i" by auto
  ultimately show ?case
    using calm by (subst move_walk.simps) (auto split: option.split)
qed

section \<open>Well-formed node tables\<close>

definition files_ok :: "database \<Rightarrow> bool" where
  "files_ok db \<longleftrightarrow>
     tree_ok (nodes db) \<and>
     distinct (map fr_node (file_objects db)) \<and> distinct (map fr_key (file_objects db)) \<and>
     (\<forall>f \<in> set (file_objects db). fr_node f \<in> nr_id ` set (nodes db) \<and> 0 \<le> fr_size f)"

lemma files_okD [dest]: "files_ok db \<Longrightarrow> tree_ok (nodes db)"
  by (simp add: files_ok_def)

lemma init_files_ok: "files_ok (init_db t)"
  using init_tree_ok [of t] by (simp add: files_ok_def init_db_def)

text \<open>Statements that only rewrite or add rows of \<open>nodes\<close>.\<close>

lemma files_ok_nodes:
  assumes "files_ok db" and "tree_ok rows" and "nr_id ` set (nodes db) \<subseteq> nr_id ` set rows"
  shows "files_ok (db\<lparr>nodes := rows\<rparr>)"
  using assms by (auto simp: files_ok_def)

section \<open>One lemma per operation\<close>

lemma create_folder_ok:
  assumes step: "create_folder env ora parent name db = (res, db')" and ok: "files_ok db"
    and id: "uuid ora 0 \<noteq> []"
  shows "files_ok db'"
proof (cases "db' = db")
  case False
  with step obtain disp key p where "normalize_name env name = Inr (disp, key)"
    and p: "get_node (db_fails ora 0) db (target_parent parent) = Inr p" "check_folder p = Inr ()"
    and ins: "insert_node (db_fails ora 1)
        (new_node (uuid ora 0) (target_parent parent) KindFolder disp key (secs (clock ora 0))) db = Inr db'"
    by (auto simp: create_folder_def split: sum.splits prod.splits)
  from p obtain q where q: "find_node db (target_parent parent) = Some q"
      "nr_kind q = KindFolder" "nr_trashed q = None"
    by (auto simp: get_node_Inr check_folder_Inr)
  let ?r = "new_node (uuid ora 0) (target_parent parent) KindFolder disp key (secs (clock ora 0))"
  from ins have new: "nr_id ?r \<notin> nr_id ` set (nodes db)" "siblings_unique (nodes db @ [?r])"
      "db' = db\<lparr>nodes := nodes db @ [?r]\<rparr>"
    by (simp_all add: insert_node_Inr)
  have "tree_ok (nodes db @ [?r])"
    using id q new(1,2) ok
    by (intro tree_ok_add [where q = q and p = "target_parent parent"])
      (auto simp: new_node_def dest: find_nodeD)
  with ok new(3) show ?thesis by (auto intro: files_ok_nodes)
qed (use ok in simp)

lemma update_one_ok:
  assumes ok: "files_ok db" and tree: "tree_ok (update_where P f (nodes db))"
    and keep: "\<And>r. nr_id (f r) = nr_id r"
  shows "files_ok (db\<lparr>nodes := update_where P f (nodes db)\<rparr>)"
proof -
  have "map nr_id (update_where P f (nodes db)) = map nr_id (nodes db)"
    by (rule update_where_map_same) (rule keep)
  then have "nr_id ` set (nodes db) \<subseteq> nr_id ` set (update_where P f (nodes db))"
    by (metis set_map order_refl)
  with ok tree show ?thesis by (rule files_ok_nodes)
qed

lemma rename_rows_ok:
  assumes "tree_ok rows" and "siblings_unique (update_where P (rename_row disp key now) rows)"
  shows "tree_ok (update_where P (rename_row disp key now) rows)"
proof -
  let ?g = "\<lambda>r. if P r then rename_row disp key now r else r"
  have keep: "nr_id (?g r) = nr_id r" "nr_kind (?g r) = nr_kind r" "nr_system (?g r) = nr_system r"
      "nr_parent (?g r) = nr_parent r" "nr_trashed (?g r) = nr_trashed r" for r
    by (simp_all add: rename_row_def)
  have "par_rel (map ?g rows) = par_rel rows"
    by (rule par_rel_map) (rule keep)+
  with assms have "acyclic (par_rel (map ?g rows))" by (simp add: tree_ok_def)
  moreover have "nr_parent r = None \<and> nr_trashed r = None" if "r \<in> set rows" "nr_id r \<in> system_ids" for r
    using system_row_exists [OF assms(1) that(2)] that key_inj [OF tree_okD(1) [OF assms(1)]] by metis
  moreover have "\<exists>q \<in> set rows. nr_parent r = Some (nr_id q) \<and> nr_kind q = KindFolder \<and>
        (nr_kind r = KindFolder \<and> nr_trashed r = None \<longrightarrow> nr_trashed q = None)"
    if "r \<in> set rows" "nr_id r \<notin> system_ids" for r
    using tree_okD(5) [OF assms(1) that(1)] that(2) by (fastforce simp: parent_ok_def split: option.splits)
  ultimately show ?thesis
    using tree_ok_map [of rows ?g] assms by (simp add: update_where_def keep)
qed

lemma rename_node_ok:
  assumes step: "rename_node env ora i newname db = (res, db')" and ok: "files_ok db"
  shows "files_ok db'"
proof (cases "db' = db")
  case False
  with step obtain disp key where
    "update_nodes (db_fails ora 1) (\<lambda>r. nr_id r = i) (rename_row disp key (secs (clock ora 0))) db = Inr db'"
    by (auto simp: rename_node_def split: sum.splits prod.splits if_splits)
  with ok show ?thesis
    by (auto simp: update_nodes_Inr rename_key.key_upd intro!: update_one_ok rename_rows_ok)
qed (use ok in simp)

lemma move_rows_ok:
  assumes ok: "tree_ok rows" and i: "i \<notin> system_ids"
    and no: "(p, i) \<notin> (par_rel rows)\<^sup>*"
    and q: "q \<in> set rows" "nr_id q = p" "nr_kind q = KindFolder" "nr_trashed q = None"
    and uniq: "siblings_unique (update_where (\<lambda>r. nr_id r = i) (move_row p now) rows)"
  shows "tree_ok (update_where (\<lambda>r. nr_id r = i) (move_row p now) rows)"
proof -
  let ?g = "\<lambda>r. if nr_id r = i then move_row p now r else r"
  have keep: "nr_id (?g r) = nr_id r" "nr_kind (?g r) = nr_kind r" "nr_system (?g r) = nr_system r"
      "nr_trashed (?g r) = nr_trashed r" for r
    by (simp_all add: move_row_def)
  have par: "nr_parent (?g r) = (if nr_id r = i then Some p else nr_parent r)" for r
    by (simp add: move_row_def)
  have "acyclic (par_rel (map ?g rows))"
    by (rule acyclic_reparent [OF tree_okD(3) [OF ok] no]) (simp_all add: keep par)
  moreover have "nr_parent (?g r) = None \<and> nr_trashed r = None" if "r \<in> set rows" "nr_id r \<in> system_ids" for r
    using system_row_exists [OF ok that(2)] that key_inj [OF tree_okD(1) [OF ok]] i par by metis
  moreover have "\<exists>q \<in> set rows. nr_parent (?g r) = Some (nr_id q) \<and> nr_kind q = KindFolder \<and>
        (nr_kind r = KindFolder \<and> nr_trashed r = None \<longrightarrow> nr_trashed q = None)"
    if r: "r \<in> set rows" "nr_id r \<notin> system_ids" for r
  proof (cases "nr_id r = i")
    case True
    with q show ?thesis by (intro bexI [of _ q]) (simp_all add: move_row_def)
  next
    case False
    with par tree_okD(5) [OF ok r(1)] r(2) show ?thesis
      by (fastforce simp: parent_ok_def split: option.splits)
  qed
  ultimately show ?thesis
    using tree_ok_map [of rows ?g] ok uniq by (simp add: update_where_def keep)
qed

lemma move_node_ok:
  assumes step: "move_node ora i newparent db = Some (res, db')" and ok: "files_ok db"
  shows "files_ok db'"
proof (cases "db' = db")
  case False
  with step obtain n p k where
    n: "get_node (db_fails ora 0) db i = Inr n" "\<not> n_system n" and
    p: "get_node (db_fails ora 1) db newparent = Inr p" "check_folder p = Inr ()" and
    walk: "move_walk ora db i 2 newparent = Some (Inr k)" and
    upd: "update_nodes (db_fails ora k) (\<lambda>r. nr_id r = i) (move_row newparent (secs (clock ora 0))) db = Inr db'"
    by (auto simp: move_node_def split: sum.splits if_splits option.splits)
  from ok have tree: "tree_ok (nodes db)" by auto
  from n tree have "i \<notin> system_ids"
    by (auto simp: get_node_Inr dest!: find_nodeD not_system)
  moreover from p obtain q where "q \<in> set (nodes db)" "nr_id q = newparent" "nr_kind q = KindFolder" "nr_trashed q = None"
    by (auto simp: get_node_Inr check_folder_Inr dest!: find_nodeD)
  moreover from walk tree have "(newparent, i) \<notin> (par_rel (nodes db))\<^sup>*" by (rule move_walk_sound)
  ultimately have "tree_ok (update_where (\<lambda>r. nr_id r = i) (move_row newparent (secs (clock ora 0))) (nodes db))"
    using upd tree by (intro move_rows_ok) (auto simp: update_nodes_Inr)
  with ok upd show ?thesis
    by (auto simp: update_nodes_Inr move_key.key_upd intro: update_one_ok)
qed (use ok in simp)

lemma files_ok_retag:
  assumes ok: "files_ok db" and tree: "tree_ok (map (retag (nodes db) i f t) (nodes db))"
    and keep: "\<And>r. nr_id (f r) = nr_id r"
  shows "files_ok (db\<lparr>nodes := map (retag (nodes db) i f t) (nodes db)\<rparr>)"
  using ok tree by (rule files_ok_nodes) (auto simp: retag_id [OF keep] image_iff)

text \<open>The whole effect of a successful \<open>TrashNode\<close>.\<close>

lemma trash_node_effect:
  assumes step: "trash_node ora i db = Some (Inr u, db')" and ok: "tree_ok (nodes db)"
  shows "db' = db\<lparr>nodes := map (retag (nodes db) i (trash_row (secs (clock ora 0))) (Some (secs (clock ora 0)))) (nodes db)\<rparr>"
    and "i \<notin> system_ids" and "siblings_unique (nodes db')"
proof -
  from step obtain n db1 where
    n: "get_node (db_fails ora 0) db i = Inr n" "\<not> n_system n" and
    upd: "update_nodes (db_fails ora 2) (\<lambda>r. nr_id r = i) (trash_row (secs (clock ora 0))) db = Inr db1" and
    casc: "(if n_kind n = KindFolder then cascade_trashed (db_fails ora 3) i (Some (secs (clock ora 0))) db1
            else Some (Inr db1)) = Some (Inr db')"
    by (auto simp: trash_node_def split: sum.splits if_splits option.splits)
  from n obtain r0 where r0: "find_node db i = Some r0" "n_kind n = nr_kind r0" "\<not> nr_system r0"
    by (auto simp: get_node_Inr)
  with ok show i: "i \<notin> system_ids" by (auto dest!: find_nodeD not_system)
  have "(trash_root_id, i) \<notin> (par_rel (nodes db))\<^sup>*"
    using system_not_below [OF ok root_in_system(2)] i by (auto simp: rtrancl_eq_or_trancl)
  note * = cascade_rows [OF ok this _ _ r0(1) upd casc [unfolded r0(2)]]
  show "db' = db\<lparr>nodes := map (retag (nodes db) i (trash_row (secs (clock ora 0))) (Some (secs (clock ora 0)))) (nodes db)\<rparr>"
    and "siblings_unique (nodes db')"
    by (rule *; simp add: trash_row_def)+
qed

lemma trash_node_ok:
  assumes step: "trash_node ora i db = Some (res, db')" and ok: "files_ok db"
  shows "files_ok db'"
proof (cases res)
  case (Inl e)
  with step have "db' = db"
    by (auto simp: trash_node_def split: sum.splits if_splits option.splits)
  with ok show ?thesis by simp
next
  case (Inr u)
  from ok have tree: "tree_ok (nodes db)" by auto
  note eff = trash_node_effect [OF step [unfolded Inr] tree]
  from eff show ?thesis
    using trash_rows_ok [OF tree eff(2)] ok by (auto intro!: files_ok_retag simp: trash_row_def)
qed

lemma restore_target_active:
  assumes ok: "tree_ok (nodes db)"
  shows "\<exists>q \<in> set (nodes db). nr_id q = restore_target flt db n \<and> nr_kind q = KindFolder \<and> nr_trashed q = None"
proof -
  from system_row_exists [OF ok root_in_system(1)] obtain r where
    root: "r \<in> set (nodes db)" "nr_id r = root_id" "nr_kind r = KindFolder" "nr_trashed r = None" by blast
  show ?thesis
  proof (cases "restore_target flt db n = root_id")
    case True
    with root show ?thesis by auto
  next
    case False
    then obtain p q where "n_restore n = Some p" "restore_target flt db n = p"
      "get_node flt db p = Inr q" "n_trashed q = None" "n_kind q = KindFolder"
      by (auto simp: restore_target_def split: option.splits if_splits sum.splits)
    then show ?thesis by (auto simp: get_node_Inr dest!: find_nodeD)
  qed
qed

text \<open>The whole effect of \<open>RestoreNode\<close> once its transaction has committed.\<close>

lemma restore_node_effect:
  assumes step: "restore_node ora i db = Some (res, db')" and ok: "tree_ok (nodes db)"
    and ch: "db' \<noteq> db \<or> (\<exists>m. res = Inr m)"
  obtains n r0 where "get_node (db_fails ora 0) db i = Inr n" "find_node db i = Some r0" "n = scan_row db r0"
    "nr_trashed r0 \<noteq> None"
    "db' = db\<lparr>nodes := map (retag (nodes db) i
        (restore_row (restore_target (db_fails ora 1) db n) (secs (clock ora 0))) None) (nodes db)\<rparr>"
    "tree_ok (nodes db')" "res = get_node (db_fails ora 6) db' i"
proof -
  from step ch obtain n db1 where
    n: "get_node (db_fails ora 0) db i = Inr n" "n_trashed n \<noteq> None" and
    upd: "update_nodes (db_fails ora 3) (\<lambda>r. nr_id r = i)
       (restore_row (restore_target (db_fails ora 1) db n) (secs (clock ora 0))) db = Inr db1" and
    casc: "(if n_kind n = KindFolder then cascade_trashed (db_fails ora 4) i None db1
            else Some (Inr db1)) = Some (Inr db')" and
    res: "res = get_node (db_fails ora 6) db' i"
    by (auto simp: restore_node_def split: sum.splits if_splits option.splits)
  from n obtain r0 where r0: "find_node db i = Some r0" "n = scan_row db r0" "nr_trashed r0 \<noteq> None"
    by (auto simp: get_node_Inr)
  from r0 have row: "r0 \<in> set (nodes db)" "nr_id r0 = i" by (auto dest: find_nodeD)
  let ?p = "restore_target (db_fails ora 1) db n"
  from restore_target_active [OF ok] obtain q where
    q: "q \<in> set (nodes db)" "nr_id q = ?p" "nr_kind q = KindFolder" "nr_trashed q = None" by blast
  have kind: "n_kind n = nr_kind r0" using r0(2) by simp
  have no: "(?p, i) \<notin> (par_rel (nodes db))\<^sup>*"
    by (rule active_not_below_trashed [OF ok row r0(3) q])
  note * = cascade_rows [OF ok no _ _ r0(1) upd casc [unfolded kind]]
  have eff: "db' = db\<lparr>nodes := map (retag (nodes db) i (restore_row ?p (secs (clock ora 0))) None) (nodes db)\<rparr>"
    and uniq: "siblings_unique (nodes db')"
    by (rule *; simp add: restore_row_def)+
  have "tree_ok (nodes db')"
    using restore_rows_ok(1) [OF ok row r0(3) q] uniq eff by simp
  with n r0 eff res show ?thesis using that by blast
qed

lemma restore_node_ok:
  assumes step: "restore_node ora i db = Some (res, db')" and ok: "files_ok db"
  shows "files_ok db'"
proof (cases "db' = db")
  case False
  from restore_node_effect [OF step files_okD [OF ok] disjI1 [OF False]] obtain p where
    eff: "db' = db\<lparr>nodes := map (retag (nodes db) i (restore_row p (secs (clock ora 0))) None) (nodes db)\<rparr>"
      "tree_ok (nodes db')" by metis
  have "files_ok (db\<lparr>nodes := map (retag (nodes db) i (restore_row p (secs (clock ora 0))) None) (nodes db)\<rparr>)"
    using eff by (intro files_ok_retag [OF ok]) (simp_all add: restore_row_def)
  with eff(1) show ?thesis by simp
qed (use ok in simp)

section \<open>Deleting\<close>

lemma delete_node_ok:
  assumes del: "delete_node i db = Inr db'" and ok: "files_ok db" and i: "i \<notin> system_ids"
  shows "files_ok db'"
proof -
  let ?rows = "delete_where (\<lambda>r. nr_id r = i) (nodes db)"
  from ok have tree: "tree_ok (nodes db)" by auto
  from del have db': "nodes db' = ?rows" "file_objects db' = delete_where (\<lambda>f. fr_node f = i) (file_objects db)"
    and nochild: "\<And>r. r \<in> set ?rows \<Longrightarrow> nr_parent r \<noteq> Some i"
    by (auto simp: delete_node_def Let_def list_ex_iff split: if_splits)
  have "parents_exist ?rows"
    unfolding parents_exist_iff
  proof (intro ballI allI impI)
    fix r p assume r: "r \<in> set ?rows" "nr_parent r = Some p"
    with nochild have "p \<noteq> i" by auto
    moreover from r tree_ok_parents_exist [OF tree] have "p \<in> nr_id ` set (nodes db)"
      by (auto simp: parents_exist_iff)
    ultimately show "p \<in> nr_id ` set ?rows" by auto
  qed
  then have "tree_ok ?rows"
    using i by (intro tree_ok_delete [OF tree]) auto
  with ok db' show ?thesis
    by (auto simp: files_ok_def distinct_delete_where)
qed

lemma delete_each_ok:
  "delete_each is db = Inr db' \<Longrightarrow> files_ok db \<Longrightarrow> set is \<inter> system_ids = {} \<Longrightarrow> files_ok db'"
  by (induction "is" arbitrary: db) (auto split: sum.splits dest: delete_node_ok)

text \<open>What a successful deletion leaves.\<close>

lemma delete_each_rows:
  "delete_each is db = Inr db' \<Longrightarrow>
   db' = db\<lparr>nodes := delete_where (\<lambda>r. nr_id r \<in> set is) (nodes db),
           file_objects := delete_where (\<lambda>f. fr_node f \<in> set is) (file_objects db),
           shares := delete_where (\<lambda>s. sr_target s \<in> set is) (shares db)\<rparr>"
proof (induction "is" arbitrary: db)
  case Nil
  then show ?case by (simp add: delete_where_def)
next
  case (Cons i "is")
  then obtain db1 where db1: "delete_node i db = Inr db1" "delete_each is db1 = Inr db'"
    by (auto split: sum.splits)
  from db1(1) have "db1 = db\<lparr>nodes := delete_where (\<lambda>r. nr_id r = i) (nodes db),
           file_objects := delete_where (\<lambda>f. fr_node f = i) (file_objects db),
           shares := delete_where (\<lambda>s. sr_target s = i) (shares db)\<rparr>"
    by (auto simp: delete_node_def Let_def split: if_splits)
  with Cons.IH [OF db1(2)] show ?case
    by (simp add: delete_where_delete_where disj_commute)
qed

lemma subtree_not_system:
  assumes "tree_ok rows" and "i \<notin> system_ids" and "subtree rows i = Some ids"
  shows "set ids \<inter> system_ids = {}"
  using subtree_eq [OF assms(3)] system_not_below [OF assms(1)] assms(2)
  by (auto simp: rtrancl_eq_or_trancl)

lemma purge_node_ok:
  assumes step: "purge_node ora i db = Some (res, db')" and ok: "files_ok db"
  shows "files_ok db'"
proof (cases "db' = db")
  case False
  with step obtain n ids where n: "get_node (db_fails ora 0) db i = Inr n" "\<not> n_system n"
    and ids: "subtree (nodes db) i = Some ids" "delete_nodes None ids db = Inr db'"
    by (auto simp: purge_node_def delete_subtree_def split: sum.splits if_splits option.splits)
  from ok have tree: "tree_ok (nodes db)" by auto
  with n have "i \<notin> system_ids" by (auto simp: get_node_Inr dest!: find_nodeD not_system)
  from subtree_not_system [OF tree this ids(1)]
  have "set (map nr_id (filter (\<lambda>r. nr_id r \<in> set ids) (nodes db))) \<inter> system_ids = {}" by auto
  with ids(2) ok show ?thesis
    unfolding delete_nodes_def exec_None by (rule delete_each_ok)
qed (use ok in simp)

lemma toggle_backup_ok:
  assumes step: "toggle_backup ora i sel db = (res, db')" and ok: "files_ok db"
  shows "files_ok db'"
proof -
  from step have "db' = db \<or> db' = db\<lparr>file_objects :=
      update_where (\<lambda>f. fr_node f = i) (backup_row sel (secs (clock ora 0))) (file_objects db)\<rparr>"
    by (auto simp: toggle_backup_def update_files_Inr split: sum.splits if_splits)
  then show ?thesis
    using ok by (auto simp: files_ok_def set_update_where backup_row_def update_where_map_same)
qed

section \<open>The service as a state machine\<close>

inductive files_step :: "database \<Rightarrow> database \<Rightarrow> bool" where
  create: "create_folder env ora parent name db = (res, db') \<Longrightarrow> uuid ora 0 \<noteq> [] \<Longrightarrow> files_step db db'"
| rename: "rename_node env ora i name db = (res, db') \<Longrightarrow> files_step db db'"
| move: "move_node ora i p db = Some (res, db') \<Longrightarrow> files_step db db'"
| trash: "trash_node ora i db = Some (res', db') \<Longrightarrow> files_step db db'"
| restore: "restore_node ora i db = Some (res, db') \<Longrightarrow> files_step db db'"
| purge: "purge_node ora i db = Some (keys, db') \<Longrightarrow> files_step db db'"
| backup: "toggle_backup ora i sel db = (res', db') \<Longrightarrow> files_step db db'"

lemma files_step_ok: "files_step db db' \<Longrightarrow> files_ok db \<Longrightarrow> files_ok db'"
  by (induction rule: files_step.induct)
    (blast intro: create_folder_ok rename_node_ok move_node_ok trash_node_ok restore_node_ok
      purge_node_ok toggle_backup_ok)+

interpretation node_service: invariant_system "\<lambda>db. \<exists>t. db = init_db t" files_step files_ok
  by unfold_locales (auto simp: init_files_ok files_step_ok)

section \<open>The walks of the tree return\<close>

lemma cascade_returns:
  assumes ok: "tree_ok (nodes db)" and no: "(p, i) \<notin> (par_rel (nodes db))\<^sup>*"
    and f: "\<And>r. nr_id (f r) = nr_id r" "\<And>r. nr_parent (f r) = Some p"
    and upd: "update_nodes flt (\<lambda>r. nr_id r = i) f db = Inr db1"
  shows "\<exists>res. cascade_trashed flt' i t db1 = Some res"
proof -
  from upd have "nodes db1 = update_where (\<lambda>r. nr_id r = i) f (nodes db)"
    by (auto simp: update_nodes_Inr)
  with reparent(1) [OF ok no f] have "acyclic (par_rel (nodes db1))" by simp
  then obtain ids where "subnodes (nodes db1) i = Some ids" using subnodes_total by blast
  then show ?thesis by (auto simp: cascade_trashed_def split: option.split)
qed

lemma trash_returns:
  assumes ok: "tree_ok (nodes db)"
  shows "\<exists>r. trash_node ora i db = Some r"
proof (cases "trash_node ora i db")
  case None
  then obtain n db1 where n: "get_node (db_fails ora 0) db i = Inr n" "\<not> n_system n"
    and upd: "update_nodes (db_fails ora 2) (\<lambda>r. nr_id r = i) (trash_row (secs (clock ora 0))) db = Inr db1"
    and casc: "cascade_trashed (db_fails ora 3) i (Some (secs (clock ora 0))) db1 = None"
    by (auto simp: trash_node_def split: sum.splits if_splits option.splits)
  from n ok have "i \<notin> system_ids" by (auto simp: get_node_Inr dest!: find_nodeD not_system)
  then have "(trash_root_id, i) \<notin> (par_rel (nodes db))\<^sup>*"
    using system_not_below [OF ok root_in_system(2)] by (auto simp: rtrancl_eq_or_trancl)
  from cascade_returns [OF ok this _ _ upd] have "\<exists>res. cascade_trashed flt i t db1 = Some res" for flt t
    by (simp add: trash_row_def)
  with casc show ?thesis by (metis option.distinct(1))
qed simp

lemma restore_returns:
  assumes ok: "tree_ok (nodes db)"
  shows "\<exists>r. restore_node ora i db = Some r"
proof (cases "restore_node ora i db")
  case None
  then obtain n db1 where n: "get_node (db_fails ora 0) db i = Inr n" "n_trashed n \<noteq> None"
    and upd: "update_nodes (db_fails ora 3) (\<lambda>r. nr_id r = i)
       (restore_row (restore_target (db_fails ora 1) db n) (secs (clock ora 0))) db = Inr db1"
    and casc: "cascade_trashed (db_fails ora 4) i None db1 = None"
    by (auto simp: restore_node_def split: sum.splits if_splits option.splits)
  from n obtain r0 where r0: "r0 \<in> set (nodes db)" "nr_id r0 = i" "nr_trashed r0 \<noteq> None"
    by (auto simp: get_node_Inr dest!: find_nodeD)
  from restore_target_active [OF ok] obtain q where q: "q \<in> set (nodes db)"
    "nr_id q = restore_target (db_fails ora 1) db n" "nr_kind q = KindFolder" "nr_trashed q = None" by blast
  from cascade_returns [OF ok active_not_below_trashed [OF ok r0 q] _ _ upd]
  have "\<exists>res. cascade_trashed flt i t db1 = Some res" for flt t by (simp add: restore_row_def)
  with casc show ?thesis by (metis option.distinct(1))
qed simp

lemma move_returns:
  assumes ok: "tree_ok (nodes db)"
  shows "\<exists>r. move_node ora i p db = Some r"
proof (cases "move_node ora i p db")
  case None
  then have "move_walk ora db i 2 p = None"
    by (auto simp: move_node_def split: sum.splits if_splits option.splits)
  with move_walk_total [OF ok] show ?thesis by (metis option.distinct(1))
qed simp

lemma purge_returns:
  assumes ok: "tree_ok (nodes db)"
  shows "\<exists>r. purge_node ora i db = Some r"
proof -
  from subtree_total [OF tree_okD(3) [OF ok]] obtain ids where "subtree (nodes db) i = Some ids" by blast
  then show ?thesis
    by (auto simp: purge_node_def subtree_keys_def delete_subtree_def split: sum.split option.split)
qed

section \<open>A restore that succeeds\<close>

text \<open>Rewriting rows without new names or new active rows keeps siblings unique.\<close>

lemma siblings_unique_map:
  assumes "siblings_unique rows"
    and "\<And>r. r \<in> set rows \<Longrightarrow> nr_trashed (g r) = None \<Longrightarrow>
       nr_trashed r = None \<and> nr_parent (g r) = nr_parent r \<and> nr_name_key (g r) = nr_name_key r"
  shows "siblings_unique (map g rows)"
  using assms
proof (induction rows)
  case (Cons r rows)
  have "\<not> clashes (g r) (g s)" if "s \<in> set rows" for s
    using that Cons.prems by (auto simp: clashes_def list_ex_iff)
  with Cons show ?case by (auto simp: list_ex_iff)
qed simp

lemma parents_exist_update:
  assumes "parents_exist rows" and "p \<in> nr_id ` set rows"
    and "\<And>r. nr_id (f r) = nr_id r" and "\<And>r. nr_parent (f r) = Some p \<or> nr_parent (f r) = nr_parent r"
  shows "parents_exist (update_where P f rows)"
proof -
  have ids: "nr_id ` set (update_where P f rows) = nr_id ` set rows"
    using update_where_map_same [of nr_id f P rows] assms(3) by (metis set_map)
  have "q \<in> nr_id ` set rows" if s: "s \<in> set (update_where P f rows)" "nr_parent s = Some q" for s q
  proof -
    from s(1) obtain r where r: "r \<in> set rows" "s = (if P r then f r else r)"
      by (auto simp: set_update_where)
    with s(2) assms(4) [of r] have "nr_parent r = Some q \<or> q = p" by (auto split: if_splits)
    with r(1) assms(1,2) show ?thesis by (auto simp: parents_exist_iff)
  qed
  then show ?thesis by (simp add: parents_exist_iff ids)
qed

lemma restore_node_calm:
  assumes ok: "tree_ok (nodes db)" and r: "find_node db i = Some r" "nr_trashed r \<noteq> None"
    and calm: "quiet ora" and p: "restore_target None db (scan_row db r) = p"
    and uniq1: "siblings_unique (update_where (\<lambda>s. nr_id s = i) (restore_row p (secs (clock ora 0))) (nodes db))"
    and uniq2: "siblings_unique (map (retag (nodes db) i (restore_row p (secs (clock ora 0))) None) (nodes db))"
  shows "\<exists>n. restore_node ora i db =
    Some (Inr n, db\<lparr>nodes := map (retag (nodes db) i (restore_row p (secs (clock ora 0))) None) (nodes db)\<rparr>)"
proof -
  let ?f = "restore_row p (secs (clock ora 0))"
  let ?rows1 = "update_where (\<lambda>s. nr_id s = i) ?f (nodes db)"
  let ?rows2 = "map (retag (nodes db) i ?f None) (nodes db)"
  have f: "nr_id (?f s) = nr_id s" "nr_parent (?f s) = Some p" for s by (simp_all add: restore_row_def)
  from restore_target_active [OF ok] p obtain q where
    q: "q \<in> set (nodes db)" "nr_id q = p" "nr_kind q = KindFolder" "nr_trashed q = None" by blast
  from r have row: "r \<in> set (nodes db)" "nr_id r = i" by (auto dest: find_nodeD)
  from q have pid: "p \<in> nr_id ` set (nodes db)" by auto
  have no: "(p, i) \<notin> (par_rel (nodes db))\<^sup>*"
    by (rule active_not_below_trashed [OF ok row r(2) q])
  have ex1: "parents_exist ?rows1"
    using tree_ok_parents_exist [OF ok] pid f by (intro parents_exist_update) auto
  from uniq1 ex1 have upd: "update_nodes None (\<lambda>s. nr_id s = i) ?f db = Inr (db\<lparr>nodes := ?rows1\<rparr>)"
    by (simp add: update_nodes_Inr)
  have ok2: "tree_ok ?rows2"
    using restore_rows_ok(1) [OF ok row r(2) q uniq2] .
  have casc: "\<exists>db2. (if nr_kind r = KindFolder then cascade_trashed None i None (db\<lparr>nodes := ?rows1\<rparr>)
       else Some (Inr (db\<lparr>nodes := ?rows1\<rparr>))) = Some (Inr db2)"
  proof (cases "nr_kind r = KindFolder")
    case True
    from reparent(1) [OF ok no f] obtain ids where ids: "subnodes ?rows1 i = Some ids"
      using subnodes_total by blast
    have eq: "update_where (\<lambda>s. nr_id s \<in> set ids) (set_trashed None) ?rows1 = ?rows2"
      using subnodes_eq [OF ids] reparent(2) [OF ok no f] tree_okD(3) [OF ok]
      by (auto simp: update_where_def retag_def f acyclic_def)
    with uniq2 tree_ok_parents_exist [OF ok2] ids True show ?thesis
      by (simp add: cascade_trashed_def update_nodes_def check_nodes_def)
  qed simp
  then obtain db2 where db2: "(if nr_kind r = KindFolder then cascade_trashed None i None (db\<lparr>nodes := ?rows1\<rparr>)
       else Some (Inr (db\<lparr>nodes := ?rows1\<rparr>))) = Some (Inr db2)" by blast
  from cascade_rows(1) [OF ok no f r(1) upd db2] have eff: "db2 = db\<lparr>nodes := ?rows2\<rparr>" .
  have "i \<in> nr_id ` set (nodes db2)"
    using row by (simp add: eff retag_id [OF f(1)] image_image) (metis image_eqI)
  then obtain r' where "find_node db2 i = Some r'"
    using lookup_by_ex by (metis find_node_def)
  then show ?thesis
    using r calm p upd db2 eff
    by (auto simp: restore_node_def get_node_def split: option.splits if_splits)
qed

end
