(* ===== verification/Files_Props.thy ===== *)
theory Files_Props
  imports Files_Inv
begin

text \<open>
  The properties of names and of the node service, each with a witness on a small tree.
\<close>

section \<open>A small tree for the witnesses\<close>

text \<open>Folder \<open>a\<close> in the root, folder \<open>b\<close> in \<open>a\<close>, file \<open>f\<close> in \<open>b\<close>, and a calm outside world.\<close>

definition demo_db :: database where
  "demo_db = (init_db 0)\<lparr>
     nodes := nodes (init_db 0) @
       [new_node ''a'' root_id KindFolder ''A'' ''a'' 1,
        new_node ''b'' ''a'' KindFolder ''B'' ''b'' 1,
        new_node ''f'' ''b'' KindFile ''F'' ''f'' 1],
     file_objects :=
       [\<lparr>fr_node = ''f'', fr_key = ''k0k0'', fr_size = 3, fr_mime = ''text/plain'', fr_sha = None,
         fr_backup = None, fr_created = 1, fr_updated = 1\<rparr>]\<rparr>"

definition calm :: outside where
  "calm = \<lparr>db_fails = (\<lambda>_. None), fs_fails = (\<lambda>_. None), clock = (\<lambda>_. 5000000000),
     uuid = (\<lambda>_. ''u''), rand_bytes = (\<lambda>_. [])\<rparr>"

definition plain_text :: text_env where
  "plain_text = \<lparr>nfc = id, uni_lower = id\<rparr>"

lemma calm_simps [simp]:
  "db_fails calm k = None" "fs_fails calm k = None" "clock calm k = 5000000000" "uuid calm k = ''u''"
  "quiet calm" "secs 5000000000 = 5"
  by (simp_all add: calm_def quiet_def secs_def)

lemmas demo_rows = demo_db_def init_db_def system_row_def new_node_def root_id_def trash_root_id_def

lemma demo_tree_ok: "tree_ok (nodes demo_db)"
proof -
  let ?depth = "\<lambda>x :: string. if x = ''f'' then 3 else if x = ''b'' then 2 else if x = ''a'' then 1 else (0 :: nat)"
  have "acyclic (par_rel (nodes demo_db))"
    by (rule acyclic_depth [where depth = ?depth]) (auto simp: demo_rows split: if_splits)
  moreover have "siblings_unique (nodes demo_db)"
    by (simp add: demo_rows clashes_def)
  moreover have "system_ok (nodes demo_db)"
    by (simp add: demo_rows system_ok_def system_ids_def)
  moreover have "\<forall>r \<in> set (nodes demo_db). parent_ok (nodes demo_db) r"
    by (simp add: demo_rows parent_ok_def system_ids_def)
  moreover have "distinct (map nr_id (nodes demo_db))" "[] \<notin> nr_id ` set (nodes demo_db)"
    by (simp_all add: demo_rows)
  ultimately show ?thesis by (simp add: tree_ok_def)
qed

lemma demo_files_ok: "files_ok demo_db"
  using demo_tree_ok by (simp add: files_ok_def) (simp add: demo_rows)

lemmas eval_db =
  get_node_def find_node_def find_file_def scan_row_def scan_node_def scan_file_def
  update_nodes_def check_nodes_def clashes_def parents_exist_def subnodes_def subtree_def children_def
  cascade_trashed_def set_trashed_def

lemma demo_trash:
  "trash_node calm ''a'' demo_db =
     Some (Inr (), demo_db\<lparr>nodes := nodes (init_db 0) @
       [trash_row 5 (new_node ''a'' root_id KindFolder ''A'' ''a'' 1),
        set_trashed (Some 5) (new_node ''b'' ''a'' KindFolder ''B'' ''b'' 1),
        set_trashed (Some 5) (new_node ''f'' ''b'' KindFile ''F'' ''f'' 1)]\<rparr>)"
  by (simp add: trash_node_def eval_db demo_rows trash_row_def)

section \<open>The tree\<close>

text \<open>
  C2: In every state the node service can reach from the migrated database, by any sequence
  of its operations and whatever the database calls answer, the table of nodes is a
  well-formed tree: ids are distinct, the parent relation has no cycle, every node but the
  two system folders lies in an existing folder, active folders lie in active folders, and no
  two active siblings share a name key.
\<close>

theorem reachable_tree_ok:
  assumes "files_step\<^sup>*\<^sup>* (init_db t) db"
  shows "tree_ok (nodes db)"
proof -
  have "files_ok db"
    by (rule node_service.reachable_inv [OF _ assms]) blast
  then show ?thesis by (rule files_okD)
qed

theorem reachable_tree_ok_witness:
  "\<exists>db :: database. length (nodes db) = 3 \<and> tree_ok (nodes db)"
proof -
  obtain res db' where eq: "create_folder plain_text calm None ''Docs'' (init_db 0) = (res, db')"
    by fastforce
  then have step: "files_step (init_db 0) db'"
    by (rule files_step.create) simp
  have "normalize_name plain_text ''Docs'' = Inr (''Docs'', ''docs'')"
    by code_simp
  with eq have "length (nodes db') = 3"
    by (auto simp: create_folder_def target_parent_def eval_db insert_node_def demo_rows check_folder_def)
  moreover have "tree_ok (nodes db')"
    by (rule reachable_tree_ok [OF r_into_rtranclp [where r = files_step, OF step]])
  ultimately show ?thesis by blast
qed

text \<open>
  C17: On a well-formed tree the operations that walk it always return: the cycle check of a
  move ends although its loop has no bound, and the recursive queries of trash, restore and
  purge end although they use UNION ALL.
\<close>

theorem tree_walks_return:
  assumes "tree_ok (nodes db)"
  shows "(\<exists>res. move_node ora i p db = Some res) \<and> (\<exists>res. trash_node ora i db = Some res) \<and>
    (\<exists>res. restore_node ora i db = Some res) \<and> (\<exists>res. purge_node ora i db = Some res)"
  using move_returns [OF assms] trash_returns [OF assms] restore_returns [OF assms] purge_returns [OF assms]
  by blast

theorem tree_walks_return_witness: "\<exists>res. move_node calm ''b'' root_id demo_db = Some res"
  using tree_walks_return [OF demo_tree_ok] by blast

text \<open>
  C19: A move is refused with ErrCycleDetected exactly when the new parent is the node itself or lies below
  it (for an existing node that is not a system node and an existing, active target folder).
\<close>

theorem move_refused_iff_below:
  assumes ok: "tree_ok (nodes db)" and calm: "quiet ora"
    and r: "find_node db i = Some r" "\<not> nr_system r"
    and q: "find_node db p = Some q" "nr_kind q = KindFolder" "nr_trashed q = None"
  shows "move_node ora i p db = Some (Inl ErrCycleDetected, db) \<longleftrightarrow> (p, i) \<in> (par_rel (nodes db))\<^sup>*"
proof -
  note start = get_node_def check_folder_def r q calm
  obtain w where w: "move_walk ora db i 2 p = Some w"
    using move_walk_total [OF ok] by blast
  have below: "w = Inl ErrCycleDetected" if "(p, i) \<in> (par_rel (nodes db))\<^sup>*"
    using walk_finds_below [OF ok calm that] w by simp
  show ?thesis
  proof (cases "(p, i) \<in> (par_rel (nodes db))\<^sup>*")
    case True
    with below w show ?thesis by (simp add: move_node_def start)
  next
    case False
    have "i \<noteq> p" using False by auto
    moreover obtain k where "w = Inr k" using walk_clear [OF ok calm False, of 2] w by auto
    ultimately show ?thesis using w False
      by (auto simp: move_node_def start get_node_Inr split: sum.splits option.splits)
  qed
qed

theorem move_refused_iff_below_witness:
  "move_node calm ''a'' ''b'' demo_db = Some (Inl ErrCycleDetected, demo_db)"
proof -
  have "(''b'', ''a'') \<in> par_rel (nodes demo_db)"
    by (auto simp: par_rel_iff demo_rows)
  moreover have "find_node demo_db ''a'' = Some (new_node ''a'' root_id KindFolder ''A'' ''a'' 1)"
    "find_node demo_db ''b'' = Some (new_node ''b'' ''a'' KindFolder ''B'' ''b'' 1)"
    by (simp_all add: find_node_def demo_rows)
  ultimately show ?thesis
    using move_refused_iff_below [OF demo_tree_ok, of calm "''a''" _ "''b''"]
    by (simp add: new_node_def r_into_rtrancl)
qed

section \<open>Trash and restore\<close>

text \<open>
  C30: A successful TrashNode moves the node to the trash folder with its old parent recorded,
  stamps everything that lay below it, and leaves every other row and table as it was.
\<close>

theorem trash_node_rows:
  assumes "tree_ok (nodes db)" and "trash_node ora i db = Some (Inr u, db')"
  shows "db' = db\<lparr>nodes := map (\<lambda>r.
      if nr_id r = i
      then r\<lparr>nr_trashed := Some (secs (clock ora 0)), nr_restore := nr_parent r,
             nr_parent := Some trash_root_id, nr_updated := Rfc3339 (secs (clock ora 0))\<rparr>
      else if (nr_id r, i) \<in> (par_rel (nodes db))\<^sup>+ then r\<lparr>nr_trashed := Some (secs (clock ora 0))\<rparr>
      else r) (nodes db)\<rparr>"
  using trash_node_effect(1) [OF assms(2,1)]
  by (simp add: retag_def [abs_def] trash_row_def set_trashed_def cong: if_cong)

theorem trash_node_rows_witness:
  "\<exists>db'. trash_node calm ''a'' demo_db = Some (Inr (), db') \<and> uploads db' = uploads demo_db"
  using trash_node_rows [OF demo_tree_ok demo_trash] demo_trash by simp

lemma list_nodes_rows:
  assumes "list_nodes env cdc ora parent cur limit search db = Inr (items, next)"
  obtains rows where "items = map (scan_row db) (take (nat (page_limit limit)) rows)"
    "set rows \<subseteq> {r \<in> set (nodes db). nr_trashed r = None \<and> \<not> nr_system r \<and>
        (search = [] \<longrightarrow> nr_parent r = Some (target_parent parent))}"
proof -
  let ?lim = "nat (page_limit limit)"
  let ?cur = "if cur \<noteq> [] then decode_cursor cdc cur else \<lparr>c_key = [], c_id = []\<rparr>"
  let ?rows = "if search \<noteq> []
       then search_query (''%'' @ (case normalize_name env search of Inl _ \<Rightarrow> search | Inr (_, key) \<Rightarrow> key) @ ''%'')
         ?cur (?lim + 1) (nodes db)
       else folder_query (target_parent parent) ?cur (?lim + 1) (nodes db)"
  from assms have "make_page cdc ?lim (map (scan_row db) ?rows) = (items, next)"
    unfolding list_nodes_def Let_def by (cases "db_fails ora 0") simp_all
  then have "items = map (scan_row db) (take ?lim ?rows)"
    by (auto simp: make_page_def take_map split: if_splits)
  moreover have "set ?rows \<subseteq> {r \<in> set (nodes db). nr_trashed r = None \<and> \<not> nr_system r \<and>
        (search = [] \<longrightarrow> nr_parent r = Some (target_parent parent))}"
    by (auto simp: search_query_def folder_query_def dest!: in_set_takeD)
  ultimately show ?thesis by (rule that)
qed

text \<open>
  A listing shows only active nodes that are not system nodes, without a search term only
  children of the requested folder, and never more than the page limit (at most 200).
\<close>

theorem list_nodes_sound:
  assumes "list_nodes env cdc ora parent cur limit search db = Inr (items, next)"
  shows "length items \<le> 200 \<and>
    (\<forall>n \<in> set items. n_trashed n = None \<and> \<not> n_system n \<and>
       (search = [] \<longrightarrow> n_parent n = Some (target_parent parent)))"
proof -
  obtain rows where rows: "items = map (scan_row db) (take (nat (page_limit limit)) rows)"
    "set rows \<subseteq> {r \<in> set (nodes db). nr_trashed r = None \<and> \<not> nr_system r \<and>
        (search = [] \<longrightarrow> nr_parent r = Some (target_parent parent))}"
    by (rule list_nodes_rows [OF assms])
  have "nat (page_limit limit) \<le> 200" by (auto simp: page_limit_def nat_le_iff)
  with rows show ?thesis by (auto dest!: in_set_takeD)
qed

definition plain_codec :: codec where
  "plain_codec = \<lparr>encode_cursor = (\<lambda>c. c_key c @ CHR 0x00 # c_id c),
     decode_cursor = (\<lambda>s. \<lparr>c_key = takeWhile (\<lambda>x. x \<noteq> CHR 0x00) s, c_id = tl (dropWhile (\<lambda>x. x \<noteq> CHR 0x00) s)\<rparr>)\<rparr>"

theorem list_nodes_sound_witness:
  "\<exists>items next. list_nodes plain_text plain_codec calm None [] 10 [] demo_db = Inr (items, next) \<and>
     map n_id items = [''a''] \<and> (\<forall>n \<in> set items. n_trashed n = None)"
proof -
  have eq: "list_nodes plain_text plain_codec calm None [] 10 [] demo_db =
      Inr ([scan_row demo_db (new_node ''a'' root_id KindFolder ''A'' ''a'' 1)], None)"
    by (simp add: list_nodes_def page_limit_def folder_query_def target_parent_def after_cursor_def
        make_page_def demo_rows)
  from list_nodes_sound [OF eq] have "\<forall>n \<in> set [scan_row demo_db (new_node ''a'' root_id KindFolder ''A'' ''a'' 1)]. n_trashed n = None"
    by blast
  with eq show ?thesis by (simp add: new_node_def)
qed

text \<open>
  After a successful TrashNode no listing and no search shows the node or anything that
  lay below it.
\<close>

theorem trashed_subtree_not_listed:
  assumes "tree_ok (nodes db)" and "trash_node ora i db = Some (Inr u, db')"
    and "list_nodes env cdc ora' parent cur limit search db' = Inr (items, next)" and "n \<in> set items"
  shows "n_id n \<noteq> i \<and> (n_id n, i) \<notin> (par_rel (nodes db))\<^sup>+"
proof -
  obtain rows where rows: "items = map (scan_row db') (take (nat (page_limit limit)) rows)"
    "set rows \<subseteq> {r \<in> set (nodes db'). nr_trashed r = None \<and> \<not> nr_system r \<and>
        (search = [] \<longrightarrow> nr_parent r = Some (target_parent parent))}"
    by (rule list_nodes_rows [OF assms(3)])
  with assms(4) obtain r where "r \<in> set (nodes db')" "nr_trashed r = None" "n_id n = nr_id r"
    by (auto dest!: in_set_takeD)
  with trash_node_effect(1) [OF assms(2,1)] show ?thesis
    by (auto simp: retag_def trash_row_def set_trashed_def split: if_splits)
qed

theorem trashed_subtree_not_listed_witness:
  "\<exists>db' items next. trash_node calm ''b'' demo_db = Some (Inr (), db') \<and>
     list_nodes plain_text plain_codec calm None [] 10 [] db' = Inr (items, next) \<and> items \<noteq> [] \<and>
     (\<forall>n \<in> set items. n_id n \<noteq> ''b'')"
proof -
  let ?a = "new_node ''a'' root_id KindFolder ''A'' ''a'' 1"
  let ?db' = "demo_db\<lparr>nodes := nodes (init_db 0) @
       [?a, trash_row 5 (new_node ''b'' ''a'' KindFolder ''B'' ''b'' 1),
        set_trashed (Some 5) (new_node ''f'' ''b'' KindFile ''F'' ''f'' 1)]\<rparr>"
  have t: "trash_node calm ''b'' demo_db = Some (Inr (), ?db')"
    by (simp add: trash_node_def eval_db demo_rows trash_row_def)
  have l: "list_nodes plain_text plain_codec calm None [] 10 [] ?db' = Inr ([scan_row ?db' ?a], None)"
    by (simp add: list_nodes_def page_limit_def folder_query_def target_parent_def after_cursor_def
        make_page_def demo_rows trash_row_def set_trashed_def)
  from trashed_subtree_not_listed [OF demo_tree_ok t l] have "\<forall>n \<in> set [scan_row ?db' ?a]. n_id n \<noteq> ''b''"
    by blast
  with t l show ?thesis by blast
qed

lemma retag_below:
  assumes "acyclic (par_rel rows)" and "acyclic (par_rel (map (retag rows i f t) rows))"
    and "\<And>r. nr_id (f r) = nr_id r"
  shows "(d, i) \<in> (par_rel (map (retag rows i f t) rows))\<^sup>+ \<longleftrightarrow> (d, i) \<in> (par_rel rows)\<^sup>+"
proof -
  have "nr_parent (retag rows i f t r) = nr_parent r" if "nr_id r \<noteq> i" for r
    using that by (simp add: retag_def set_trashed_def)
  then have "(y, z) \<in> par_rel (map (retag rows i f t) rows) \<longleftrightarrow> (y, z) \<in> par_rel rows" if "y \<noteq> i" for y z
    using that by (auto simp: par_rel_iff retag_id [OF assms(3)])
  with path_into_kept [OF _ assms(1)] path_into_kept [OF _ assms(2)] show ?thesis by blast
qed



text \<open>The row of the node itself after a trash or a restore.\<close>

lemma retag_self:
  assumes "s \<in> set (map (retag rows i f t) rows)" and "nr_id s = i" and "\<And>r. nr_id (f r) = nr_id r"
  shows "\<exists>r \<in> set rows. nr_id r = i \<and> s = f r"
proof -
  from assms(1) obtain r where r: "r \<in> set rows" "s = retag rows i f t r" by auto
  with assms(2) have "nr_id r = i" by (simp add: retag_id assms(3))
  with r show ?thesis by (intro bexI [of _ r]) (simp_all add: retag_def)
qed

lemma trash_node_self:
  assumes "trash_node ora i db = Some (Inr u, db')" and "tree_ok (nodes db)"
    and "s \<in> set (nodes db')" and "nr_id s = i"
  shows "\<exists>r \<in> set (nodes db). nr_id r = i \<and> s = trash_row (secs (clock ora 0)) r"
proof (rule retag_self)
  show "s \<in> set (map (retag (nodes db) i (trash_row (secs (clock ora 0))) (Some (secs (clock ora 0)))) (nodes db))"
    using trash_node_effect(1) [OF assms(1,2)] assms(3) by simp
qed (use assms(4) in \<open>simp_all add: trash_row_def\<close>)

text \<open>
  TrashNode does not ask whether the node is already in the trash. Trashing it twice
  records the trash folder itself as the place to restore to, so a later restore reports
  success but leaves the node in the trash folder, no longer marked as trashed: the trash
  listing does not show it any more.
\<close>

theorem double_trash_then_restore:
  assumes ok: "files_ok db" and t1: "trash_node ora1 i db = Some (Inr u, db1)"
    and t2: "trash_node ora2 i db1 = Some (Inr u', db2)"
    and rest: "restore_node ora3 i db2 = Some (Inr n, db3)" and calm: "quiet ora3"
    and listed: "list_trash ora4 db3 = Inr items"
  shows "n_id n = i \<and> n_parent n = Some trash_root_id \<and> n_trashed n = None \<and> i \<notin> n_id ` set items"
proof -
  have ok1: "files_ok db1" by (rule trash_node_ok [OF t1 ok])
  have ok2: "files_ok db2" by (rule trash_node_ok [OF t2 ok1])
  have ok3: "files_ok db3" by (rule restore_node_ok [OF rest ok2])
  obtain r where r: "find_node db2 i = Some r" "nr_trashed r \<noteq> None" and
    db3: "db3 = db2\<lparr>nodes := map (retag (nodes db2) i
        (restore_row (restore_target None db2 (scan_row db2 r)) (secs (clock ora3 0))) None) (nodes db2)\<rparr>" and
    n: "get_node None db3 i = Inr n"
  proof (rule restore_node_effect [OF rest files_okD [OF ok2]])
    show "db3 \<noteq> db2 \<or> (\<exists>m. Inr n = (Inr m :: err + node))" by simp
  next
    fix n' r0
    assume "find_node db2 i = Some r0" "n' = scan_row db2 r0" "nr_trashed r0 \<noteq> None"
      "db3 = db2\<lparr>nodes := map (retag (nodes db2) i
        (restore_row (restore_target (db_fails ora3 1) db2 n') (secs (clock ora3 0))) None) (nodes db2)\<rparr>"
      "Inr n = get_node (db_fails ora3 6) db3 i"
    then show thesis using calm that [of r0] by simp
  qed
  from r have row: "r \<in> set (nodes db2)" "nr_id r = i" by (auto dest: find_nodeD)
  from trash_node_self [OF t2 files_okD [OF ok1] row] obtain s where
    s: "s \<in> set (nodes db1)" "nr_id s = i" "r = trash_row (secs (clock ora2 0)) s" by blast
  from trash_node_self [OF t1 files_okD [OF ok] s(1,2)] have "nr_parent s = Some trash_root_id"
    by (auto simp: trash_row_def)
  with s have "nr_restore r = Some trash_root_id" by (simp add: trash_row_def)
  moreover obtain q where "find_node db2 trash_root_id = Some q" "nr_trashed q = None" "nr_kind q = KindFolder"
    using system_row_exists [OF files_okD [OF ok2] root_in_system(2)] by (metis find_node_iff files_okD ok2)
  ultimately have target: "restore_target None db2 (scan_row db2 r) = trash_root_id"
    by (simp add: restore_target_def get_node_def)
  from n obtain r3 where r3: "find_node db3 i = Some r3" "n = scan_row db3 r3" by (auto simp: get_node_Inr)
  then have "r3 \<in> set (nodes db3)" "nr_id r3 = i" by (auto dest: find_nodeD)
  moreover have "nodes db3 = map (retag (nodes db2) i (restore_row trash_root_id (secs (clock ora3 0))) None) (nodes db2)"
    using db3 target by simp
  ultimately obtain r2 where "r3 = restore_row trash_root_id (secs (clock ora3 0)) r2"
    using retag_self [of r3 "nodes db2" i "restore_row trash_root_id (secs (clock ora3 0))" None]
    by (auto simp: restore_row_def)
  then have r3': "nr_parent r3 = Some trash_root_id" "nr_trashed r3 = None"
    by (simp_all add: restore_row_def)
  have "i \<notin> n_id ` set items"
  proof
    assume "i \<in> n_id ` set items"
    with listed obtain r' where "r' \<in> set (nodes db3)" "nr_id r' = i" "nr_trashed r' \<noteq> None"
      by (auto simp: list_trash_def split: option.splits)
    with r3 r3' key_inj [OF tree_okD(1) [OF files_okD [OF ok3]]] show False by (metis find_nodeD)
  qed
  with r3 r3' \<open>nr_id r3 = i\<close> show ?thesis by simp
qed

theorem double_trash_then_restore_witness:
  "\<exists>db1 db2 n db3 items. trash_node calm ''f'' demo_db = Some (Inr (), db1) \<and>
     trash_node calm ''f'' db1 = Some (Inr (), db2) \<and> restore_node calm ''f'' db2 = Some (Inr n, db3) \<and>
     list_trash calm db3 = Inr items \<and> n_id n = ''f'' \<and> n_trashed n = None \<and> ''f'' \<notin> n_id ` set items"
proof -
  let ?f = "new_node ''f'' ''b'' KindFile ''F'' ''f'' 1"
  let ?rows = "nodes (init_db 0) @ [new_node ''a'' root_id KindFolder ''A'' ''a'' 1, new_node ''b'' ''a'' KindFolder ''B'' ''b'' 1]"
  let ?db1 = "demo_db\<lparr>nodes := ?rows @ [trash_row 5 ?f]\<rparr>"
  let ?db2 = "demo_db\<lparr>nodes := ?rows @ [trash_row 5 (trash_row 5 ?f)]\<rparr>"
  let ?r = "restore_row trash_root_id 5 (trash_row 5 (trash_row 5 ?f))"
  let ?db3 = "demo_db\<lparr>nodes := ?rows @ [?r]\<rparr>"
  have t1: "trash_node calm ''f'' demo_db = Some (Inr (), ?db1)"
    by (simp add: trash_node_def eval_db demo_rows trash_row_def)
  have t2: "trash_node calm ''f'' ?db1 = Some (Inr (), ?db2)"
    by (simp add: trash_node_def eval_db demo_rows trash_row_def)
  have rest: "restore_node calm ''f'' ?db2 = Some (Inr (scan_row ?db3 ?r), ?db3)"
    by (simp add: restore_node_def restore_target_def eval_db demo_rows trash_row_def restore_row_def)
  have listed: "list_trash calm ?db3 = Inr []"
    by (simp add: list_trash_def demo_rows trash_row_def restore_row_def)
  from double_trash_then_restore [OF demo_files_ok t1 t2 rest calm_simps(5) listed] t1 t2 rest listed
  show ?thesis by blast
qed

end
