(* ===== verification/Files_Paging.thy ===== *)
theory Files_Paging
  imports Files_Props
begin

text \<open>
  Paging through a search and through a folder with the cursors of \<open>ListNodes\<close>: a client that
  follows the cursors of a search gets every match once; in a folder it can lose items.
\<close>

section \<open>Cutting a sorted list at an element\<close>

lemma sorted_keys_strict:
  assumes "distinct (map f xs)"
  shows "sorted_wrt (<) (map f (sort_key f xs))"
  using assms by (simp add: strict_sorted_iff distinct_map sort_key_inj_key_eq)

lemma filter_greater_drop:
  fixes f :: "'a \<Rightarrow> 'b :: linorder"
  assumes "sorted_wrt (<) (map f xs)" and "n < length xs"
  shows "filter (\<lambda>x. f (xs ! n) < f x) xs = drop (Suc n) xs"
  using assms
proof (induction xs arbitrary: n)
  case (Cons x xs)
  show ?case
  proof (cases n)
    case 0
    with Cons.prems show ?thesis by (simp add: filter_id_conv)
  next
    case (Suc m)
    with Cons.prems have "f x < f (xs ! m)" by simp
    then have "\<not> f (xs ! m) < f x" by (meson order.asym)
    with Suc Cons show ?thesis by simp
  qed
qed simp

section \<open>Searching\<close>

definition node_key :: "node_row \<Rightarrow> string \<times> string" where
  "node_key r = (nr_name_key r, nr_id r)"

text \<open>Everything a search matches, in the order of the listing.\<close>

definition search_matches :: "text_env \<Rightarrow> string \<Rightarrow> database \<Rightarrow> node_row list" where
  "search_matches env search db =
     sort_key node_key (filter (\<lambda>r. nr_trashed r = None \<and> \<not> nr_system r \<and>
       sql_like (''%'' @ (case normalize_name env search of Inl _ \<Rightarrow> search | Inr (_, key) \<Rightarrow> key) @ ''%'')
         (nr_name_key r)) (nodes db))"

lemma after_cursor_key: "after_cursor cur r \<longleftrightarrow> (c_key cur, c_id cur) < node_key r"
  by (auto simp: after_cursor_def node_key_def less_prod_def)

lemma search_query_matches:
  "search_query pat cur lim rows = take lim (filter (after_cursor cur) (sort_key node_key
     (filter (\<lambda>r. nr_trashed r = None \<and> \<not> nr_system r \<and> sql_like pat (nr_name_key r)) rows)))"
  unfolding search_query_def node_key_def [abs_def] filter_sort filter_filter by (simp add: conj_ac)

lemma list_nodes_search:
  assumes "quiet ora" and "search \<noteq> []"
  shows "list_nodes env cdc ora parent cur limit search db =
    Inr (make_page cdc (nat (page_limit limit)) (map (scan_row db) (take (Suc (nat (page_limit limit)))
      (filter (after_cursor (if cur \<noteq> [] then decode_cursor cdc cur else \<lparr>c_key = [], c_id = []\<rparr>))
        (search_matches env search db)))))"
  using assms unfolding list_nodes_def search_query_matches search_matches_def Let_def by simp

text \<open>A client that follows the cursors, at most \<open>k\<close> pages.\<close>

fun search_pages ::
  "text_env \<Rightarrow> codec \<Rightarrow> outside \<Rightarrow> int \<Rightarrow> string \<Rightarrow> database \<Rightarrow> nat \<Rightarrow> string \<Rightarrow> node list" where
  "search_pages env cdc ora limit search db 0 cur = []"
| "search_pages env cdc ora limit search db (Suc k) cur =
     (case list_nodes env cdc ora None cur limit search db of
        Inl _ \<Rightarrow> []
      | Inr (items, None) \<Rightarrow> items
      | Inr (items, Some c) \<Rightarrow> items @ search_pages env cdc ora limit search db k c)"

lemma page_limit_pos: "0 < nat (page_limit limit)"
  by (auto simp: page_limit_def)

lemma search_pages_from:
  assumes calm: "quiet ora" and s: "search \<noteq> []"
    and codec: "\<And>c. encode_cursor cdc c \<noteq> [] \<and> decode_cursor cdc (encode_cursor cdc c) = c"
    and strict: "sorted_wrt (<) (map node_key (search_matches env search db))"
    and start: "filter (after_cursor (if cur \<noteq> [] then decode_cursor cdc cur else \<lparr>c_key = [], c_id = []\<rparr>))
        (search_matches env search db) = drop m (search_matches env search db)"
    and enough: "length (search_matches env search db) - m < k"
  shows "search_pages env cdc ora limit search db k cur = map (scan_row db) (drop m (search_matches env search db))"
  using start enough
proof (induction k arbitrary: cur m)
  case (Suc k)
  let ?L = "search_matches env search db" and ?n = "nat (page_limit limit)"
  have page: "list_nodes env cdc ora None cur limit search db =
      Inr (make_page cdc ?n (map (scan_row db) (take (Suc ?n) (drop m ?L))))"
    unfolding list_nodes_search [OF calm s] Suc.prems(1) ..
  show ?case
  proof (cases "?n < length (drop m ?L)")
    case False
    with page show ?thesis by (simp add: make_page_def)
  next
    case True
    then have len: "m + ?n < length ?L" by simp
    let ?c = "\<lparr>c_key = nr_name_key (?L ! (m + ?n - 1)), c_id = nr_id (?L ! (m + ?n - 1))\<rparr>"
    have last: "take (Suc ?n) (drop m ?L) ! (?n - 1) = ?L ! (m + ?n - 1)"
      using page_limit_pos [of limit] len by simp
    have "make_page cdc ?n (map (scan_row db) (take (Suc ?n) (drop m ?L))) =
        (map (scan_row db) (take ?n (drop m ?L)), Some (encode_cursor cdc ?c))"
      using len page_limit_pos [of limit] last by (auto simp: make_page_def take_map min_def)
    moreover have "search_pages env cdc ora limit search db k (encode_cursor cdc ?c) =
        map (scan_row db) (drop (m + ?n) ?L)"
    proof (rule Suc.IH)
      have "after_cursor ?c = (\<lambda>r. node_key (?L ! (m + ?n - 1)) < node_key r)"
        by (simp add: fun_eq_iff after_cursor_key) (simp add: node_key_def)
      moreover have "filter (\<lambda>r. node_key (?L ! (m + ?n - 1)) < node_key r) ?L = drop (m + ?n) ?L"
        using filter_greater_drop [OF strict, of "m + ?n - 1"] len page_limit_pos [of limit] by simp
      ultimately show "filter (after_cursor (if encode_cursor cdc ?c \<noteq> [] then decode_cursor cdc (encode_cursor cdc ?c)
          else \<lparr>c_key = [], c_id = []\<rparr>)) ?L = drop (m + ?n) ?L"
        using codec by simp
      show "length ?L - (m + ?n) < k"
        using Suc.prems(2) len page_limit_pos [of limit] by simp
    qed
    moreover have "take ?n (drop m ?L) @ drop (m + ?n) ?L = drop m ?L"
      by (metis append_take_drop_id add.commute drop_drop)
    ultimately show ?thesis using page by (simp flip: map_append)
  qed
qed simp


section \<open>Folders\<close>

text \<open>
  A folder lists its folders first, but its cursor holds only the name key and the id of
  the last item: no page after it shows an item that is not above them. So when a page ends
  with a folder, the files with smaller names are never shown.
\<close>

theorem folder_page_skips_smaller:
  assumes "list_nodes env cdc ora parent cur limit [] db = Inr (items, Some c)"
    and "list_nodes env cdc ora' parent c limit' [] db' = Inr (items', next)"
    and "\<And>c. encode_cursor cdc c \<noteq> [] \<and> decode_cursor cdc (encode_cursor cdc c) = c"
    and "n \<in> set items'"
  shows "(n_name_key (last items), n_id (last items)) < (n_name_key n, n_id n)"
proof -
  let ?lim = "nat (page_limit limit)"
  obtain ns where page: "make_page cdc ?lim ns = (items, Some c)"
    using assms(1) by (auto simp: list_nodes_def Let_def split: option.splits)
  then have items: "items = take ?lim ns" "?lim < length ns"
    and c: "c = encode_cursor cdc \<lparr>c_key = n_name_key (ns ! (?lim - 1)), c_id = n_id (ns ! (?lim - 1))\<rparr>"
    by (auto simp: make_page_def split: if_splits)
  from items page_limit_pos [of limit] have last: "last items = ns ! (?lim - 1)"
    by (subst last_conv_nth) (auto simp: min_def)
  have cur: "(if c \<noteq> [] then decode_cursor cdc c else \<lparr>c_key = [], c_id = []\<rparr>) =
      \<lparr>c_key = n_name_key (last items), c_id = n_id (last items)\<rparr>"
    using assms(3) by (simp add: c last)
  obtain rows where rows: "make_page cdc (nat (page_limit limit')) (map (scan_row db') rows) = (items', next)"
    "set rows \<subseteq> {r. after_cursor \<lparr>c_key = n_name_key (last items), c_id = n_id (last items)\<rparr> r}"
  proof -
    let ?rows = "folder_query (target_parent parent)
        (if c \<noteq> [] then decode_cursor cdc c else \<lparr>c_key = [], c_id = []\<rparr>) (Suc (nat (page_limit limit'))) (nodes db')"
    have "make_page cdc (nat (page_limit limit')) (map (scan_row db') ?rows) = (items', next)"
      using assms(2) by (cases "db_fails ora' 0") (simp_all add: list_nodes_def Let_def)
    moreover have "set ?rows \<subseteq> {r. after_cursor \<lparr>c_key = n_name_key (last items), c_id = n_id (last items)\<rparr> r}"
      unfolding cur by (auto simp: folder_query_def dest!: in_set_takeD)
    ultimately show ?thesis by (rule that)
  qed
  from rows(1) assms(4) have "n \<in> scan_row db' ` set rows"
    by (auto simp: make_page_def split: if_splits dest!: in_set_takeD)
  with rows(2) show ?thesis by (auto simp: after_cursor_key node_key_def)
qed

text \<open>A codec that satisfies the law: each byte of the key is marked.\<close>

section \<open>Witnesses\<close>

text \<open>A codec that satisfies the law: the length of the key in front.\<close>

definition length_codec :: codec where
  "length_codec = \<lparr>encode_cursor = (\<lambda>c. replicate (length (c_key c)) CHR ''k'' @ CHR ''.'' # c_key c @ c_id c),
     decode_cursor = (\<lambda>s. let n = length (takeWhile (\<lambda>x. x = CHR ''k'') s); r = drop (Suc n) s
       in \<lparr>c_key = take n r, c_id = drop n r\<rparr>)\<rparr>"

lemma length_codec_law:
  "encode_cursor length_codec c \<noteq> [] \<and> decode_cursor length_codec (encode_cursor length_codec c) = c"
  by (simp add: length_codec_def Let_def takeWhile_append)

lemma demo_search: "search_matches plain_text ''_'' demo_db =
   [new_node ''a'' root_id KindFolder ''A'' ''a'' 1, new_node ''b'' ''a'' KindFolder ''B'' ''b'' 1,
    new_node ''f'' ''b'' KindFile ''F'' ''f'' 1]"
  by code_simp


definition folder_first_db :: database where
  "folder_first_db = (init_db 0)\<lparr>nodes := nodes (init_db 0) @
     [new_node ''1'' root_id KindFolder ''m'' ''m'' 1, new_node ''2'' root_id KindFile ''a'' ''a'' 1,
      new_node ''3'' root_id KindFile ''z'' ''z'' 1]\<rparr>"

theorem folder_page_skips_smaller_witness:
  "\<exists>c n1 n3. list_nodes plain_text length_codec calm None [] 1 [] folder_first_db = Inr ([n1], Some c) \<and>
     list_nodes plain_text length_codec calm None c 1 [] folder_first_db = Inr ([n3], None) \<and>
     n_id n1 = ''1'' \<and> n_id n3 = ''3'' \<and> (n_name_key n1, n_id n1) < (n_name_key n3, n_id n3)"
proof -
  let ?m = "scan_row folder_first_db (new_node ''1'' root_id KindFolder ''m'' ''m'' 1)"
  let ?z = "scan_row folder_first_db (new_node ''3'' root_id KindFile ''z'' ''z'' 1)"
  have eval: "page_limit 1 = 1" by (simp add: page_limit_def)
  have p1: "list_nodes plain_text length_codec calm None [] 1 [] folder_first_db = Inr ([?m], Some ''k.m1'')"
    by (simp add: list_nodes_def eval folder_query_def target_parent_def after_cursor_def make_page_def
        folder_first_db_def demo_rows folder_rank_def length_codec_def less_prod_def insort_key.simps)
  have p2: "list_nodes plain_text length_codec calm None ''k.m1'' 1 [] folder_first_db = Inr ([?z], None)"
    by (simp add: list_nodes_def eval folder_query_def target_parent_def after_cursor_def make_page_def
        folder_first_db_def demo_rows folder_rank_def length_codec_def less_prod_def Let_def)
  from folder_page_skips_smaller [OF p1 p2 length_codec_law, of ?z] p1 p2 show ?thesis
    by (intro exI [of _ "''k.m1''"] exI [of _ ?m] exI [of _ ?z]) (simp add: new_node_def)
qed

end
