(* ===== verification/Go_Path.thy ===== *)
theory Go_Path
  imports Go_Text
begin

text \<open>
  \<open>path/filepath\<close> on Unix: \<open>Clean\<close>, \<open>Join\<close>, \<open>Base\<close> and \<open>Dir\<close>, computed on the parts between
  slashes, and the facts that let paths built from plain names be compared part by part.
\<close>

definition rooted :: "string \<Rightarrow> bool" where
  "rooted p \<longleftrightarrow> p \<noteq> [] \<and> hd p = CHR ''/''"

text \<open>The loop of \<open>Clean\<close>, with the parts written so far in reverse.\<close>

fun clean_parts :: "bool \<Rightarrow> string list \<Rightarrow> string list \<Rightarrow> string list" where
  "clean_parts r acc [] = rev acc"
| "clean_parts r acc (p # ps) =
     (if p = [] \<or> p = ''.'' then clean_parts r acc ps
      else if p = ''..'' then
        (case acc of
           [] \<Rightarrow> if r then clean_parts r [] ps else clean_parts r [p] ps
         | a # as \<Rightarrow> if a = ''..'' then clean_parts r (p # acc) ps else clean_parts r as ps)
      else clean_parts r (p # acc) ps)"

definition path_parts :: "string \<Rightarrow> string list" where
  "path_parts p = clean_parts (rooted p) [] (go_split CHR ''/'' p)"

definition render_path :: "bool \<Rightarrow> string list \<Rightarrow> string" where
  "render_path r ps =
     (if r then CHR ''/'' # go_join CHR ''/'' ps
      else if ps = [] then ''.'' else go_join CHR ''/'' ps)"

definition go_clean :: "string \<Rightarrow> string" where
  "go_clean p = render_path (rooted p) (path_parts p)"

text \<open>\<open>Join\<close> drops leading empty elements and cleans the rest.\<close>

definition path_join :: "string list \<Rightarrow> string" where
  "path_join es =
     (case dropWhile (\<lambda>e. e = []) es of [] \<Rightarrow> [] | e # rest \<Rightarrow> go_clean (go_join CHR ''/'' (e # rest)))"

text \<open>\<open>Base\<close>: the part after the last slash once trailing slashes are gone.\<close>

definition path_base :: "string \<Rightarrow> string" where
  "path_base p =
     (if p = [] then ''.''
      else let q = rev (dropWhile (\<lambda>c. c = CHR ''/'') (rev p));
               b = rev (takeWhile (\<lambda>c. c \<noteq> CHR ''/'') (rev q))
           in if b = [] then ''/'' else b)"

text \<open>\<open>Dir\<close>: everything up to the last slash, cleaned.\<close>

definition path_dir :: "string \<Rightarrow> string" where
  "path_dir p = go_clean (rev (dropWhile (\<lambda>c. c \<noteq> CHR ''/'') (rev p)))"

section \<open>Plain names\<close>

definition plain_part :: "string \<Rightarrow> bool" where
  "plain_part p \<longleftrightarrow> p \<noteq> [] \<and> p \<noteq> ''.'' \<and> p \<noteq> ''..'' \<and> CHR ''/'' \<notin> set p"

definition normal_parts :: "bool \<Rightarrow> string list \<Rightarrow> bool" where
  "normal_parts r ps \<longleftrightarrow>
     (\<exists>n qs. ps = replicate n ''..'' @ qs \<and> (r \<longrightarrow> n = 0) \<and> list_all plain_part qs)"

lemma clean_parts_append:
  "clean_parts r acc (ps @ qs) = clean_parts r (rev (clean_parts r acc ps)) qs"
  by (induction r acc ps rule: clean_parts.induct) (auto split: list.split)

lemma clean_parts_plain:
  "list_all plain_part ps \<Longrightarrow> clean_parts r acc ps = rev acc @ ps"
  by (induction ps arbitrary: acc) (auto simp: plain_part_def)

lemma clean_parts_dots:
  "set acc \<subseteq> {''..''} \<Longrightarrow> clean_parts False acc (replicate n ''..'') = rev acc @ replicate n ''..''"
proof (induction n arbitrary: acc)
  case (Suc n)
  have "clean_parts False acc (replicate (Suc n) ''..'') = clean_parts False (''..'' # acc) (replicate n ''..'')"
    using Suc.prems by (cases acc) auto
  with Suc show ?case by simp
qed simp

lemma clean_parts_normal:
  assumes "normal_parts r ps"
  shows "clean_parts r [] ps = ps"
proof -
  from assms obtain n qs where ps: "ps = replicate n ''..'' @ qs" "r \<longrightarrow> n = 0" "list_all plain_part qs"
    by (auto simp: normal_parts_def)
  then have "clean_parts r [] (replicate n ''..'') = replicate n ''..''"
    by (cases r) (simp_all add: clean_parts_dots)
  with ps show ?thesis by (simp add: clean_parts_append clean_parts_plain)
qed

lemma normal_snoc_plain: "normal_parts r ps \<Longrightarrow> plain_part p \<Longrightarrow> normal_parts r (ps @ [p])"
  unfolding normal_parts_def
proof (elim exE conjE)
  fix n qs assume "ps = replicate n ''..'' @ qs" "r \<longrightarrow> n = 0" "list_all plain_part qs" "plain_part p"
  then show "\<exists>n qs. ps @ [p] = replicate n ''..'' @ qs \<and> (r \<longrightarrow> n = 0) \<and> list_all plain_part qs"
    by (intro exI [of _ n] exI [of _ "qs @ [p]"]) simp
qed

lemma normal_butlast: "normal_parts r (ps @ [p]) \<Longrightarrow> p \<noteq> ''..'' \<Longrightarrow> normal_parts r ps"
  unfolding normal_parts_def
proof (elim exE conjE)
  fix n qs assume *: "ps @ [p] = replicate n ''..'' @ qs" "r \<longrightarrow> n = 0" "list_all plain_part qs" "p \<noteq> ''..''"
  show "\<exists>n qs. ps = replicate n ''..'' @ qs \<and> (r \<longrightarrow> n = 0) \<and> list_all plain_part qs"
  proof (cases qs rule: rev_cases)
    case Nil
    with * have "p \<in> set (replicate n ''..'')" by (metis append_Nil2 in_set_conv_decomp)
    with * show ?thesis by simp
  next
    case (snoc qs' q)
    with * show ?thesis by (intro exI [of _ n] exI [of _ qs']) simp
  qed
qed

lemma normal_dots: "normal_parts False ps \<Longrightarrow> ps = [] \<or> last ps = ''..'' \<Longrightarrow> normal_parts False (ps @ [''..''])"
  unfolding normal_parts_def
proof (elim exE conjE)
  fix n qs assume *: "ps = [] \<or> last ps = ''..''" "ps = replicate n ''..'' @ qs" "list_all plain_part qs"
  have "qs = []"
    using * by (cases qs rule: rev_cases) (auto simp: plain_part_def)
  with * show "\<exists>n qs. ps @ [''..''] = replicate n ''..'' @ qs \<and> (False \<longrightarrow> n = 0) \<and> list_all plain_part qs"
    by (intro exI [of _ "Suc n"] exI [of _ "[]"]) (simp add: replicate_append_same)
qed

lemma normal_rooted: "normal_parts True ps \<longleftrightarrow> list_all plain_part ps"
  by (auto simp: normal_parts_def)

text \<open>Cleaning gives normal parts.\<close>

lemma clean_parts_normal_result:
  "normal_parts r (rev acc) \<Longrightarrow> (\<And>p. p \<in> set ps \<Longrightarrow> CHR ''/'' \<notin> set p) \<Longrightarrow> normal_parts r (clean_parts r acc ps)"
proof (induction r acc ps rule: clean_parts.induct)
  case (2 r acc p ps)
  show ?case
  proof (cases "p = [] \<or> p = ''.''")
    case False
    show ?thesis
    proof (cases "p = ''..''")
      case dots: True
      show ?thesis
      proof (cases acc)
        case Nil
        have "normal_parts False [''..'']" using normal_dots [of "[]"] by (simp add: normal_parts_def)
        with Nil dots 2 False show ?thesis by (cases r) auto
      next
        case (Cons a as)
        show ?thesis
        proof (cases "a = ''..''")
          case True
          have "\<not> r"
            using "2.prems"(1) Cons True normal_rooted [of "rev acc"] by (cases r) (simp_all add: plain_part_def)
          with True Cons dots 2 normal_dots [of "rev acc"] show ?thesis by (simp add: last_rev)
        next
          case False
          with Cons dots 2 normal_butlast [of r "rev as" a] show ?thesis by simp
        qed
      qed
    next
      case False
      with 2 \<open>\<not> (p = [] \<or> p = ''.'')\<close> normal_snoc_plain [of r "rev acc" p] show ?thesis
        by (simp add: plain_part_def)
    qed
  qed (use 2 in auto)
qed simp

lemma normal_path_parts: "normal_parts (rooted p) (path_parts p)"
  unfolding path_parts_def
  by (rule clean_parts_normal_result) (auto simp: normal_parts_def dest: go_split_parts)

section \<open>Printing parts and reading them back\<close>

lemma normal_no_sep: "normal_parts r ps \<Longrightarrow> p \<in> set ps \<Longrightarrow> CHR ''/'' \<notin> set p \<and> p \<noteq> []"
proof -
  assume "normal_parts r ps" "p \<in> set ps"
  then have "p = ''..'' \<or> plain_part p" unfolding normal_parts_def list_all_iff
    by (elim exE conjE) (simp, blast)
  then show ?thesis by (elim disjE) (simp_all add: plain_part_def)
qed

lemma go_join_Cons: "ps \<noteq> [] \<Longrightarrow> go_join d (p # ps) = p @ d # go_join d ps"
  by (cases ps) auto

lemma go_join_append: "ps \<noteq> [] \<Longrightarrow> qs \<noteq> [] \<Longrightarrow> go_join d (ps @ qs) = go_join d ps @ d # go_join d qs"
proof (induction ps)
  case (Cons p ps)
  then show ?case by (cases "ps = []") (simp_all add: go_join_Cons)
qed simp

lemma hd_go_join: "ps \<noteq> [] \<Longrightarrow> hd ps \<noteq> [] \<Longrightarrow> go_join d ps \<noteq> [] \<and> hd (go_join d ps) = hd (hd ps)"
  by (cases ps; cases "tl ps") auto

lemma split_join_normal: "normal_parts r ps \<Longrightarrow> ps \<noteq> [] \<Longrightarrow> go_split CHR ''/'' (go_join CHR ''/'' ps) = ps"
  by (rule go_split_join) (auto dest: normal_no_sep)

lemma rooted_join: "normal_parts r ps \<Longrightarrow> \<not> rooted (go_join CHR ''/'' ps)"
proof (cases "ps = []")
  case False
  assume "normal_parts r ps"
  from normal_no_sep [OF this hd_in_set [OF False]] have "hd ps \<noteq> []" "hd (hd ps) \<noteq> CHR ''/''"
    by (metis hd_in_set)+
  with hd_go_join [OF False] show ?thesis by (simp add: rooted_def)
qed (simp add: rooted_def)

lemma rooted_render: "normal_parts r ps \<Longrightarrow> rooted (render_path r ps) = r"
  using rooted_join by (auto simp: render_path_def rooted_def)

lemma path_parts_render:
  assumes "normal_parts r ps"
  shows "path_parts (render_path r ps) = ps"
proof (cases r)
  case True
  with assms show ?thesis
    by (cases "ps = []") (simp_all add: path_parts_def rooted_render render_path_def split_join_normal
        clean_parts_normal rooted_def)
next
  case False
  with assms rooted_join [OF assms] show ?thesis
    by (cases "ps = []") (simp_all add: path_parts_def render_path_def split_join_normal clean_parts_normal)
qed

lemma render_path_inj:
  "normal_parts r ps \<Longrightarrow> normal_parts r' ps' \<Longrightarrow> render_path r ps = render_path r' ps' \<longleftrightarrow> r = r' \<and> ps = ps'"
  using path_parts_render [of r ps] path_parts_render [of r' ps'] rooted_render [of r ps] rooted_render [of r' ps']
  by (cases "render_path r ps = render_path r' ps'") auto

lemma clean_idem: "go_clean (go_clean p) = go_clean p"
  by (simp add: go_clean_def path_parts_render rooted_render normal_path_parts)

lemma clean_not_Nil: "go_clean p \<noteq> []"
proof -
  have "go_join CHR ''/'' ps \<noteq> []" if "normal_parts r ps" "ps \<noteq> []" for r ps
    using hd_go_join [OF that(2)] normal_no_sep [OF that(1) hd_in_set [OF that(2)]] by simp
  from this [OF normal_path_parts [of p]] show ?thesis by (simp add: go_clean_def render_path_def)
qed

text \<open>Joining names to a directory goes on cleaning after the directory's own parts.\<close>

lemma go_split_mid: "go_split d (x @ d # y) = go_split d x @ go_split d y"
proof (induction x)
  case (Cons c x)
  then show ?case by (cases "go_split d x") auto
qed simp

lemma path_join_names:
  assumes "e \<noteq> []" and "\<And>p. p \<in> set names \<Longrightarrow> CHR ''/'' \<notin> set p"
  shows "path_join (e # names) = render_path (rooted e) (clean_parts (rooted e) (rev (path_parts e)) names)"
proof -
  let ?p = "go_join CHR ''/'' (e # names)"
  have split: "go_split CHR ''/'' ?p = go_split CHR ''/'' e @ names"
    using go_split_join [of names "CHR ''/''"] assms(2)
    by (cases "names = []") (simp_all add: go_join_Cons go_split_mid)
  have root: "rooted ?p = rooted e"
    using assms(1) by (cases names) (auto simp: rooted_def)
  have "path_parts ?p = clean_parts (rooted e) (rev (path_parts e)) names"
    unfolding path_parts_def split root by (rule clean_parts_append)
  with root assms(1) show ?thesis by (simp add: path_join_def go_clean_def)
qed

lemma path_join_plain:
  assumes "e \<noteq> []" and "list_all plain_part names"
  shows "path_join (e # names) = render_path (rooted e) (path_parts e @ names)"
  using assms by (subst path_join_names) (auto simp: clean_parts_plain list_all_iff plain_part_def)

lemma normal_append_plain: "normal_parts r ps \<Longrightarrow> list_all plain_part qs \<Longrightarrow> normal_parts r (ps @ qs)"
proof (induction qs rule: rev_induct)
  case (snoc q qs)
  then show ?case using normal_snoc_plain [of r "ps @ qs" q] by simp
qed simp

lemma parts_join_plain:
  assumes "e \<noteq> []" and "list_all plain_part names"
  shows "path_parts (path_join (e # names)) = path_parts e @ names" and "rooted (path_join (e # names)) = rooted e"
  using normal_append_plain [OF normal_path_parts assms(2), of e]
  by (simp_all add: path_join_plain [OF assms] path_parts_render rooted_render)

text \<open>\<open>Base\<close> leaves a name alone exactly when it holds no slash.\<close>

lemma path_base_fixed: "path_base p = p \<longleftrightarrow> p = ''.'' \<or> p = ''/'' \<or> (p \<noteq> [] \<and> CHR ''/'' \<notin> set p)"
proof -
  let ?q = "rev (dropWhile (\<lambda>c. c = CHR ''/'') (rev p))"
  let ?b = "rev (takeWhile (\<lambda>c. c \<noteq> CHR ''/'') (rev ?q))"
  have "CHR ''/'' \<notin> set ?b" by (auto dest: set_takeWhileD)
  then have "?b = p \<Longrightarrow> CHR ''/'' \<notin> set p" by metis
  moreover have "?b = p" if "CHR ''/'' \<notin> set p"
  proof -
    have "dropWhile (\<lambda>c. c = CHR ''/'') (rev p) = rev p"
      using that by (cases "rev p") (auto simp flip: set_rev [of p])
    moreover have "takeWhile (\<lambda>c. c \<noteq> CHR ''/'') (rev p) = rev p"
      using that by (subst takeWhile_eq_all_conv) auto
    ultimately show ?thesis by (simp only: rev_rev_ident)
  qed
  ultimately show ?thesis by (auto simp: path_base_def Let_def)
qed

text \<open>\<open>Dir\<close> of a joined path is the directory.\<close>

lemma path_dir_render:
  assumes "normal_parts r ps" and "ps \<noteq> []" and "plain_part k"
  shows "path_dir (render_path r (ps @ [k])) = render_path r ps"
proof -
  let ?pre = "(if r then [CHR ''/''] else []) @ go_join CHR ''/'' ps @ [CHR ''/'']"
  have "render_path r (ps @ [k]) = ?pre @ k"
    using assms(2) by (auto simp: render_path_def go_join_append)
  moreover have "rev (dropWhile (\<lambda>c. c \<noteq> CHR ''/'') (rev (?pre @ k))) = ?pre"
    using assms(3) by (subst rev_append, subst dropWhile_append2) (auto simp: plain_part_def)
  moreover have "go_split CHR ''/'' (go_join CHR ''/'' ps @ [CHR ''/'']) = ps @ [[]]"
  proof -
    have "CHR ''/'' \<notin> set q" if "q \<in> set (ps @ [[]])" for q
      using that normal_no_sep [OF assms(1)] by auto
    with go_split_join [of "ps @ [[]]" "CHR ''/''"] have
      "go_split CHR ''/'' (go_join CHR ''/'' (ps @ [[]])) = ps @ [[]]" by blast
    with assms(2) show ?thesis by (simp add: go_join_append)
  qed
  then have "path_parts ?pre = ps"
    using clean_parts_normal [OF assms(1)] rooted_join [OF assms(1)]
    by (auto simp: path_parts_def clean_parts_append rooted_def hd_append)
  moreover have "rooted ?pre = r"
    using rooted_join [OF assms(1)] hd_go_join [OF assms(2)] normal_no_sep [OF assms(1) hd_in_set [OF assms(2)]]
    by (auto simp: rooted_def hd_append)
  ultimately show ?thesis by (simp add: path_dir_def go_clean_def)
qed

end
