(* ===== verification/Storage.thy ===== *)
theory Storage
  imports Go_Path Schema
begin

text \<open>
  The package \<open>internal/storage\<close>: a file tree as a map from cleaned paths to contents and a
  set of directories, the \<open>os\<close> calls the package makes on it, the paths of staging files and
  objects, and the operations of \<open>Storage\<close>. A file-system call takes the failure the caller
  chooses for it (a full disk, a permission) first. The program never makes a directory where
  a staging file or an object is expected; on such a path the calls report \<open>IsDirectory\<close>.
\<close>

section \<open>The file system\<close>

record fs =
  fs_files :: "string \<Rightarrow> string option"
  fs_dirs :: "string set"

definition ancestors :: "string \<Rightarrow> string list" where
  "ancestors p = map (\<lambda>n. render_path (rooted p) (take n (path_parts p))) [1..<Suc (length (path_parts p))]"

definition os_mkdir_all :: "string option \<Rightarrow> string \<Rightarrow> fs \<Rightarrow> err + fs" where
  "os_mkdir_all flt d fs =
     (case flt of
        Some m \<Rightarrow> Inl (FsErr (IoFault m))
      | None \<Rightarrow>
          if list_ex (\<lambda>a. fs_files fs a \<noteq> None) (ancestors d) then Inl (FsErr NoDirectory)
          else Inr (fs\<lparr>fs_dirs := fs_dirs fs \<union> set (ancestors d)\<rparr>))"

text \<open>\<open>O_CREATE|O_EXCL\<close>.\<close>

definition os_create_excl :: "string option \<Rightarrow> string \<Rightarrow> fs \<Rightarrow> err + fs" where
  "os_create_excl flt p fs =
     (case flt of
        Some m \<Rightarrow> Inl (FsErr (IoFault m))
      | None \<Rightarrow>
          if fs_files fs p \<noteq> None \<or> p \<in> fs_dirs fs then Inl (FsErr AlreadyThere)
          else if path_dir p \<notin> fs_dirs fs then Inl (FsErr NotExist)
          else Inr (fs\<lparr>fs_files := (fs_files fs)(p \<mapsto> [])\<rparr>))"

text \<open>Opening an existing file; the result is its content.\<close>

definition os_open :: "string option \<Rightarrow> string \<Rightarrow> fs \<Rightarrow> err + string" where
  "os_open flt p fs =
     (case flt of
        Some m \<Rightarrow> Inl (FsErr (IoFault m))
      | None \<Rightarrow>
          (case fs_files fs p of
             Some c \<Rightarrow> Inr c
           | None \<Rightarrow> Inl (FsErr (if p \<in> fs_dirs fs then IsDirectory else NotExist))))"

definition os_remove :: "string option \<Rightarrow> string \<Rightarrow> fs \<Rightarrow> err + fs" where
  "os_remove flt p fs =
     (case os_open flt p fs of
        Inl e \<Rightarrow> Inl e
      | Inr _ \<Rightarrow> Inr (fs\<lparr>fs_files := (fs_files fs)(p := None)\<rparr>))"

definition os_rename :: "string option \<Rightarrow> string \<Rightarrow> string \<Rightarrow> fs \<Rightarrow> err + fs" where
  "os_rename flt src dst fs =
     (case os_open flt src fs of
        Inl e \<Rightarrow> Inl e
      | Inr c \<Rightarrow>
          if dst \<in> fs_dirs fs then Inl (FsErr IsDirectory)
          else if path_dir dst \<notin> fs_dirs fs then Inl (FsErr NotExist)
          else Inr (fs\<lparr>fs_files := ((fs_files fs)(src := None))(dst \<mapsto> c)\<rparr>))"

definition os_append :: "string \<Rightarrow> string \<Rightarrow> fs \<Rightarrow> fs" where
  "os_append p bs fs = fs\<lparr>fs_files := (fs_files fs)(p := map_option (\<lambda>c. c @ bs) (fs_files fs p))\<rparr>"

definition is_not_exist :: "err \<Rightarrow> bool" where
  "is_not_exist e \<longleftrightarrow> e = FsErr NotExist"

section \<open>Paths\<close>

record storage =
  st_base :: string
  st_objects :: string
  st_staging :: string

definition storage_at :: "string \<Rightarrow> storage" where
  "storage_at baseDir =
     \<lparr>st_base = go_clean baseDir, st_objects = path_join [go_clean baseDir, ''objects''],
      st_staging = path_join [go_clean baseDir, ''staging'', ''uploads'']\<rparr>"

fun make_dirs :: "(nat \<Rightarrow> string option) \<Rightarrow> nat \<Rightarrow> string list \<Rightarrow> fs \<Rightarrow> (err + unit) \<times> fs" where
  "make_dirs flt k [] fs = (Inr (), fs)"
| "make_dirs flt k (d # ds) fs =
     (case os_mkdir_all (flt k) d fs of
        Inl e \<Rightarrow> (Inl (Wrap (''failed to create directory '' @ d) e), fs)
      | Inr fs' \<Rightarrow> make_dirs flt (Suc k) ds fs')"

definition new_storage :: "(nat \<Rightarrow> string option) \<Rightarrow> string \<Rightarrow> fs \<Rightarrow> (err + storage) \<times> fs" where
  "new_storage flt baseDir fs =
     (let st = storage_at baseDir
      in case make_dirs flt 0 [st_base st, st_objects st, st_staging st, path_join [st_base st, ''db'']] fs of
           (Inl e, fs') \<Rightarrow> (Inl e, fs')
         | (Inr _, fs') \<Rightarrow> (Inr st, fs'))"

text \<open>16 random bytes in hexadecimal.\<close>

definition generate_opaque_key :: "string \<Rightarrow> string" where
  "generate_opaque_key bs = hex_encode bs"

definition object_path :: "storage \<Rightarrow> string \<Rightarrow> err + string" where
  "object_path st key =
     (if length key < 4 \<or> path_base key \<noteq> key then Inl ErrInvalidPath
      else Inr (path_join [st_objects st, take 2 key, key]))"

definition staging_path :: "storage \<Rightarrow> string \<Rightarrow> err + string" where
  "staging_path st key =
     (if length key < 4 \<or> path_base key \<noteq> key then Inl ErrInvalidPath
      else Inr (path_join [st_staging st, key]))"

section \<open>Operations\<close>

definition create_staging_file :: "storage \<Rightarrow> string option \<Rightarrow> string \<Rightarrow> fs \<Rightarrow> (err + unit) \<times> fs" where
  "create_staging_file st flt key fs =
     (case staging_path st key of
        Inl e \<Rightarrow> (Inl e, fs)
      | Inr p \<Rightarrow> (case os_create_excl flt p fs of Inl e \<Rightarrow> (Inl e, fs) | Inr fs' \<Rightarrow> (Inr (), fs')))"

text \<open>The open file is its path.\<close>

definition open_staging_for_append :: "storage \<Rightarrow> string option \<Rightarrow> string \<Rightarrow> fs \<Rightarrow> err + string" where
  "open_staging_for_append st flt key fs =
     (case staging_path st key of
        Inl e \<Rightarrow> Inl e
      | Inr p \<Rightarrow> (case os_open flt p fs of Inl e \<Rightarrow> Inl e | Inr _ \<Rightarrow> Inr p))"

definition remove_quietly :: "string option \<Rightarrow> string \<Rightarrow> fs \<Rightarrow> (err + unit) \<times> fs" where
  "remove_quietly flt p fs =
     (case os_remove flt p fs of
        Inl e \<Rightarrow> (if is_not_exist e then Inr () else Inl e, fs)
      | Inr fs' \<Rightarrow> (Inr (), fs'))"

definition remove_staging_file :: "storage \<Rightarrow> string option \<Rightarrow> string \<Rightarrow> fs \<Rightarrow> (err + unit) \<times> fs" where
  "remove_staging_file st flt key fs =
     (case staging_path st key of Inl e \<Rightarrow> (Inl e, fs) | Inr p \<Rightarrow> remove_quietly flt p fs)"

definition move_staging_to_object ::
  "storage \<Rightarrow> string option \<Rightarrow> string option \<Rightarrow> string \<Rightarrow> string \<Rightarrow> fs \<Rightarrow> (err + unit) \<times> fs" where
  "move_staging_to_object st flt1 flt2 stagingKey objectKey fs =
     (case staging_path st stagingKey of
        Inl e \<Rightarrow> (Inl e, fs)
      | Inr sp \<Rightarrow>
          (case object_path st objectKey of
             Inl e \<Rightarrow> (Inl e, fs)
           | Inr op \<Rightarrow>
               (case os_mkdir_all flt1 (path_dir op) fs of
                  Inl e \<Rightarrow> (Inl (Wrap ''failed to create object shard directory'' e), fs)
                | Inr fs1 \<Rightarrow>
                    (case os_rename flt2 sp op fs1 of
                       Inl e \<Rightarrow> (Inl (Wrap ''atomic rename failed'' e), fs1)
                     | Inr fs2 \<Rightarrow> (Inr (), fs2)))))"

definition open_object :: "storage \<Rightarrow> string option \<Rightarrow> string \<Rightarrow> fs \<Rightarrow> err + string" where
  "open_object st flt key fs =
     (case object_path st key of
        Inl e \<Rightarrow> Inl e
      | Inr p \<Rightarrow>
          (case os_open flt p fs of
             Inl e \<Rightarrow> Inl (if is_not_exist e then ErrObjectNotFound else e)
           | Inr c \<Rightarrow> Inr c))"

definition remove_object :: "storage \<Rightarrow> string option \<Rightarrow> string \<Rightarrow> fs \<Rightarrow> (err + unit) \<times> fs" where
  "remove_object st flt key fs =
     (case object_path st key of Inl e \<Rightarrow> (Inl e, fs) | Inr p \<Rightarrow> remove_quietly flt p fs)"

definition octet_stream :: string where
  "octet_stream = ''application/octet-stream''"

text \<open>
  The type of the first 512 bytes. \<open>detect\<close> is \<open>http.DetectContentType\<close>; the caller drops the error.
\<close>

definition sniff_mime_type ::
  "(string \<Rightarrow> string) \<Rightarrow> string option \<Rightarrow> string option \<Rightarrow> string \<Rightarrow> fs \<Rightarrow> string \<times> err option" where
  "sniff_mime_type detect flt1 flt2 p fs =
     (case os_open flt1 p fs of
        Inl e \<Rightarrow> (octet_stream, Some e)
      | Inr c \<Rightarrow>
          (case flt2 of
             Some m \<Rightarrow> (octet_stream, Some (FsErr (IoFault m)))
           | None \<Rightarrow> if take 512 c = [] then (octet_stream, None) else (detect (take 512 c), None)))"

definition staging_exists :: "storage \<Rightarrow> string option \<Rightarrow> string \<Rightarrow> fs \<Rightarrow> bool" where
  "staging_exists st flt key fs =
     (case staging_path st key of Inl _ \<Rightarrow> False | Inr p \<Rightarrow> flt = None \<and> fs_files fs p \<noteq> None)"

definition object_exists :: "storage \<Rightarrow> string option \<Rightarrow> string \<Rightarrow> fs \<Rightarrow> bool" where
  "object_exists st flt key fs =
     (case object_path st key of Inl _ \<Rightarrow> False | Inr p \<Rightarrow> flt = None \<and> fs_files fs p \<noteq> None)"

section \<open>Disk space\<close>

record disk_space =
  ds_total :: "64 word"
  ds_free :: "64 word"
  ds_used :: "64 word"

record statfs =
  sf_blocks :: "64 word"
  sf_bavail :: "64 word"
  sf_bfree :: "64 word"
  sf_bsize :: "64 word"

text \<open>On Linux, from \<open>statfs\<close>, whose failure is an error.\<close>

definition get_disk_space :: "string + statfs \<Rightarrow> err + disk_space" where
  "get_disk_space sf =
     (case sf of
        Inl m \<Rightarrow> Inl (FsErr (IoFault m))
      | Inr s \<Rightarrow> Inr \<lparr>ds_total = sf_blocks s * sf_bsize s, ds_free = sf_bavail s * sf_bsize s,
                   ds_used = (sf_blocks s - sf_bfree s) * sf_bsize s\<rparr>)"

definition gib :: "64 word" where "gib = 1024 * 1024 * 1024"

text \<open>Elsewhere than on Linux and Windows: constants.\<close>

definition disk_space_other :: disk_space where
  "disk_space_other = \<lparr>ds_total = 200 * gib, ds_free = 150 * gib, ds_used = 0\<rparr>"

text \<open>
  On Windows: the three numbers \<open>GetDiskFreeSpaceExW\<close> wrote (free for the caller, total, free),
  or the constants when the path or the call is bad.
\<close>

definition disk_space_windows :: "bool \<Rightarrow> (64 word \<times> 64 word \<times> 64 word) option \<Rightarrow> disk_space" where
  "disk_space_windows pathOk call =
     (if \<not> pathOk then disk_space_other
      else (case call of
         None \<Rightarrow> disk_space_other
       | Some (avail, all, free) \<Rightarrow> \<lparr>ds_total = all, ds_free = avail, ds_used = all - free\<rparr>))"

section \<open>Where keys lead\<close>

definition valid_key :: "string \<Rightarrow> bool" where
  "valid_key k \<longleftrightarrow> 4 \<le> length k \<and> CHR ''/'' \<notin> set k"

text \<open>The parts of an object's path below the base directory.\<close>

definition object_parts :: "string \<Rightarrow> string list" where
  "object_parts k = (if take 2 k = ''..'' then [k] else [''objects'', take 2 k, k])"

lemma key_test: "length k < 4 \<or> path_base k \<noteq> k \<longleftrightarrow> \<not> valid_key k"
  by (auto simp: valid_key_def path_base_fixed)

lemma valid_key_plain: "valid_key k \<Longrightarrow> plain_part k"
  by (auto simp: valid_key_def plain_part_def)

lemma valid_key_shard:
  assumes "valid_key k"
  shows "take 2 k \<noteq> []" "take 2 k \<noteq> ''.''" "CHR ''/'' \<notin> set (take 2 k)"
proof -
  have "length (take 2 k) = 2" using assms by (simp add: valid_key_def)
  then show "take 2 k \<noteq> []" "take 2 k \<noteq> ''.''" by (auto simp del: length_take)
  show "CHR ''/'' \<notin> set (take 2 k)" using assms by (auto simp: valid_key_def dest: in_set_takeD)
qed

lemma storage_parts:
  shows "path_parts (st_objects (storage_at base)) = path_parts base @ [''objects'']"
    and "path_parts (st_staging (storage_at base)) = path_parts base @ [''staging'', ''uploads'']"
    and "rooted (st_objects (storage_at base)) = rooted base"
    and "rooted (st_staging (storage_at base)) = rooted base"
    and "st_objects (storage_at base) \<noteq> []" "st_staging (storage_at base) \<noteq> []"
proof -
  have base: "path_parts (go_clean base) = path_parts base" "rooted (go_clean base) = rooted base" "go_clean base \<noteq> []"
    by (simp_all add: go_clean_def path_parts_render rooted_render normal_path_parts clean_not_Nil [unfolded go_clean_def])
  note join = parts_join_plain [OF base(3)]
  show "path_parts (st_objects (storage_at base)) = path_parts base @ [''objects'']"
    "path_parts (st_staging (storage_at base)) = path_parts base @ [''staging'', ''uploads'']"
    "rooted (st_objects (storage_at base)) = rooted base" "rooted (st_staging (storage_at base)) = rooted base"
    by (simp_all add: storage_at_def join plain_part_def base)
  show "st_objects (storage_at base) \<noteq> []" "st_staging (storage_at base) \<noteq> []"
    using clean_not_Nil by (simp_all add: storage_at_def path_join_def base(3))
qed

lemma staging_path_parts:
  "staging_path (storage_at base) k =
     (if valid_key k then Inr (render_path (rooted base) (path_parts base @ [''staging'', ''uploads'', k])) else Inl ErrInvalidPath)"
  by (auto simp: staging_path_def key_test path_join_plain storage_parts valid_key_plain)

lemma object_path_parts:
  "object_path (storage_at base) k =
     (if valid_key k then Inr (render_path (rooted base) (path_parts base @ object_parts k)) else Inl ErrInvalidPath)"
proof (cases "valid_key k")
  case True
  have "path_join [st_objects (storage_at base), take 2 k, k] =
      render_path (rooted base) (clean_parts (rooted base) (rev (path_parts base @ [''objects''])) [take 2 k, k])"
    using valid_key_shard [OF True] True
    by (subst path_join_names) (auto simp: storage_parts valid_key_def)
  also have "clean_parts (rooted base) (rev (path_parts base @ [''objects''])) [take 2 k, k] = path_parts base @ object_parts k"
    using valid_key_shard [OF True] valid_key_plain [OF True] by (simp add: object_parts_def plain_part_def)
  finally show ?thesis using True by (simp add: object_path_def key_test)
qed (simp add: object_path_def key_test)

lemma normal_key_parts:
  assumes "valid_key k"
  shows "normal_parts (rooted base) (path_parts base @ object_parts k)"
    and "normal_parts (rooted base) (path_parts base @ [''staging'', ''uploads'', k])"
  using valid_key_plain [OF assms] valid_key_shard [OF assms]
  by (auto intro!: normal_append_plain normal_path_parts simp: object_parts_def plain_part_def)

lemma object_parts_differ:
  "object_parts k = object_parts k' \<longleftrightarrow> k = k'" "object_parts k \<noteq> [''staging'', ''uploads'', k']"
  "[''staging'', ''uploads'', k'] \<noteq> object_parts k"
  by (auto simp: object_parts_def)

lemmas path_injs = staging_path_parts object_path_parts render_path_inj normal_key_parts object_parts_differ

lemma staging_path_inj:
  "staging_path (storage_at base) k = Inr p \<Longrightarrow> staging_path (storage_at base) k' = Inr p' \<Longrightarrow> p = p' \<longleftrightarrow> k = k'"
  by (auto simp: path_injs split: if_splits)

lemma object_path_inj:
  "object_path (storage_at base) k = Inr p \<Longrightarrow> object_path (storage_at base) k' = Inr p' \<Longrightarrow> p = p' \<longleftrightarrow> k = k'"
  by (auto simp: path_injs split: if_splits)

lemma staging_object_differ:
  "staging_path (storage_at base) k = Inr p \<Longrightarrow> object_path (storage_at base) k' = Inr p' \<Longrightarrow> p \<noteq> p'"
  by (auto simp: path_injs split: if_splits)

end
