(* ===== verification/Object_Store.thy ===== *)
theory Object_Store
  imports Storage
begin

text \<open>
  What the rest of the program relies on when it stores content: the interface of an object
  store (staging contents by staging key, objects by object key), the facts its clients use,
  and the proof that \<open>Storage\<close> provides it on the file tree.
\<close>

section \<open>The interface\<close>

primrec run_all :: "('a \<Rightarrow> 'f \<Rightarrow> 'f option) \<Rightarrow> 'a list \<Rightarrow> 'f \<Rightarrow> 'f option" where
  "run_all op [] f = Some f"
| "run_all op (x # xs) f = (case op x f of None \<Rightarrow> None | Some g \<Rightarrow> run_all op xs g)"

locale object_store =
  fixes staged :: "'f \<Rightarrow> string \<Rightarrow> string option"
    and stored :: "'f \<Rightarrow> string \<Rightarrow> string option"
    and create :: "string \<Rightarrow> 'f \<Rightarrow> 'f option"
    and append :: "string \<Rightarrow> string \<Rightarrow> 'f \<Rightarrow> 'f option"
    and move :: "string \<Rightarrow> string \<Rightarrow> 'f \<Rightarrow> 'f option"
    and discard :: "string \<Rightarrow> 'f \<Rightarrow> 'f option"
    and remove :: "string \<Rightarrow> 'f \<Rightarrow> 'f option"
  assumes create_law: "create k f = Some g \<Longrightarrow>
      staged f k = None \<and> staged g = (staged f)(k \<mapsto> []) \<and> stored g = stored f"
    and append_law: "append k bs f = Some g \<Longrightarrow>
      \<exists>c. staged f k = Some c \<and> staged g = (staged f)(k \<mapsto> c @ bs) \<and> stored g = stored f"
    and move_law: "move k obj f = Some g \<Longrightarrow>
      \<exists>c. staged f k = Some c \<and> staged g = (staged f)(k := None) \<and> stored g = (stored f)(obj \<mapsto> c)"
    and discard_law: "discard k f = Some g \<Longrightarrow> staged g = (staged f)(k := None) \<and> stored g = stored f"
    and remove_law: "remove obj f = Some g \<Longrightarrow> staged g = staged f \<and> stored g = (stored f)(obj := None)"
begin

lemma append_all:
  "run_all (append k) bss f = Some g \<Longrightarrow> staged f k = Some c \<Longrightarrow>
   staged g = (staged f)(k \<mapsto> c @ concat bss) \<and> stored g = stored f"
proof (induction bss arbitrary: f c)
  case (Cons bs bss)
  then obtain h where h: "append k bs f = Some h" "run_all (append k) bss h = Some g"
    by (auto split: option.splits)
  from append_law [OF h(1)] Cons.prems(2) have
    "staged h = (staged f)(k \<mapsto> c @ bs)" "stored h = stored f" by auto
  with Cons.IH [OF h(2), of "c @ bs"] show ?case by (simp add: fun_eq_iff)
qed auto

text \<open>A content written in pieces and moved becomes the object, and nothing else changes.\<close>

lemma write_and_commit:
  assumes "create k f = Some f1" and "run_all (append k) bss f1 = Some f2" and "move k obj f2 = Some g"
  shows "stored g = (stored f)(obj \<mapsto> concat bss) \<and> staged g = staged f"
proof -
  from create_law [OF assms(1)] have f1: "staged f k = None" "staged f1 = (staged f)(k \<mapsto> [])" "stored f1 = stored f"
    by auto
  from append_all [OF assms(2), of "[]"] f1 have f2: "staged f2 = (staged f)(k \<mapsto> concat bss)" "stored f2 = stored f"
    by simp_all
  from move_law [OF assms(3)] f2 f1(1) show ?thesis by auto
qed

text \<open>An upload that is given up leaves no trace.\<close>

lemma write_and_discard:
  assumes "create k f = Some f1" and "run_all (append k) bss f1 = Some f2" and "discard k f2 = Some g"
  shows "stored g = stored f \<and> staged g = staged f"
proof -
  from create_law [OF assms(1)] have f1: "staged f k = None" "staged f1 = (staged f)(k \<mapsto> [])" "stored f1 = stored f"
    by auto
  from append_all [OF assms(2), of "[]"] f1 have f2: "staged f2 = (staged f)(k \<mapsto> concat bss)" "stored f2 = stored f"
    by simp_all
  from discard_law [OF assms(3)] f2 f1(1) show ?thesis by auto
qed

end

section \<open>Contents by key\<close>

definition staged :: "storage \<Rightarrow> fs \<Rightarrow> string \<Rightarrow> string option" where
  "staged st fs k = (case staging_path st k of Inl _ \<Rightarrow> None | Inr p \<Rightarrow> fs_files fs p)"

definition stored :: "storage \<Rightarrow> fs \<Rightarrow> string \<Rightarrow> string option" where
  "stored st fs k = (case object_path st k of Inl _ \<Rightarrow> None | Inr p \<Rightarrow> fs_files fs p)"

lemma staged_write:
  "staging_path (storage_at base) k = Inr p \<Longrightarrow>
   staged (storage_at base) (fs\<lparr>fs_files := (fs_files fs)(p := c)\<rparr>) = (staged (storage_at base) fs)(k := c)"
  by (rule ext) (auto simp: staged_def staging_path_inj split: sum.split)

lemma staged_other:
  "object_path (storage_at base) k = Inr p \<Longrightarrow>
   staged (storage_at base) (fs\<lparr>fs_files := (fs_files fs)(p := c)\<rparr>) = staged (storage_at base) fs"
  by (rule ext) (auto simp: staged_def dest: staging_object_differ split: sum.split)

lemma stored_write:
  "object_path (storage_at base) k = Inr p \<Longrightarrow>
   stored (storage_at base) (fs\<lparr>fs_files := (fs_files fs)(p := c)\<rparr>) = (stored (storage_at base) fs)(k := c)"
  by (rule ext) (auto simp: stored_def object_path_inj split: sum.split)

lemma stored_other:
  "staging_path (storage_at base) k = Inr p \<Longrightarrow>
   stored (storage_at base) (fs\<lparr>fs_files := (fs_files fs)(p := c)\<rparr>) = stored (storage_at base) fs"
  by (rule ext) (auto simp: stored_def dest: staging_object_differ split: sum.split)

lemma contents_dirs [simp]:
  "staged st (fs\<lparr>fs_dirs := ds\<rparr>) = staged st fs" "stored st (fs\<lparr>fs_dirs := ds\<rparr>) = stored st fs"
  by (simp_all add: staged_def stored_def fun_eq_iff split: sum.split)

lemmas contents = staged_write staged_other stored_write stored_other

section \<open>The operations\<close>

lemma os_open_Inr: "os_open flt p fs = Inr c \<longleftrightarrow> flt = None \<and> fs_files fs p = Some c"
  by (auto simp: os_open_def split: option.splits)

lemma os_remove_Inr:
  "os_remove flt p fs = Inr fs' \<longleftrightarrow>
     flt = None \<and> fs_files fs p \<noteq> None \<and> fs' = fs\<lparr>fs_files := (fs_files fs)(p := None)\<rparr>"
  by (auto simp: os_remove_def os_open_Inr split: sum.splits) (auto simp: os_open_def split: option.splits)

lemma is_not_exist_open: "os_open flt p fs = Inl e \<Longrightarrow> is_not_exist e \<Longrightarrow> fs_files fs p = None"
  by (auto simp: os_open_def is_not_exist_def split: option.splits)

lemma remove_quietly_Inr:
  "remove_quietly flt p fs = (Inr u, fs') \<Longrightarrow> fs' = fs\<lparr>fs_files := (fs_files fs)(p := None)\<rparr>"
proof -
  assume eq: "remove_quietly flt p fs = (Inr u, fs')"
  show ?thesis
  proof (cases "os_remove flt p fs")
    case (Inl e)
    with eq have "fs' = fs" "is_not_exist e" by (auto simp: remove_quietly_def split: if_splits)
    moreover from Inl have "os_open flt p fs = Inl e" by (auto simp: os_remove_def split: sum.splits)
    ultimately show ?thesis using is_not_exist_open [of flt p fs e] by (simp add: fun_upd_idem)
  next
    case (Inr f)
    with eq show ?thesis by (auto simp: remove_quietly_def os_remove_Inr)
  qed
qed

lemma remove_quietly_Inl: "remove_quietly flt p fs = (Inl e, fs') \<Longrightarrow> fs' = fs"
  by (auto simp: remove_quietly_def split: sum.splits)

lemma create_staging_contents:
  assumes "create_staging_file (storage_at base) flt k fs = (Inr u, fs')"
  shows "staged (storage_at base) fs k = None" "staged (storage_at base) fs' = (staged (storage_at base) fs)(k \<mapsto> [])"
    "stored (storage_at base) fs' = stored (storage_at base) fs"
  using assms
  by (auto simp: create_staging_file_def os_create_excl_def contents split: sum.splits option.splits if_splits)
    (auto simp: staged_def)

text \<open>The writing part of a chunk: open for appending, write, close.\<close>

definition append_staging :: "storage \<Rightarrow> string option \<Rightarrow> string \<Rightarrow> string \<Rightarrow> fs \<Rightarrow> fs option" where
  "append_staging st flt k bs fs =
     (case open_staging_for_append st flt k fs of Inl _ \<Rightarrow> None | Inr p \<Rightarrow> Some (os_append p bs fs))"

lemma open_staging_Inr:
  "open_staging_for_append st flt k fs = Inr p \<longleftrightarrow>
     flt = None \<and> staging_path st k = Inr p \<and> (\<exists>c. fs_files fs p = Some c)"
  by (auto simp: open_staging_for_append_def os_open_Inr split: sum.splits)
    (auto simp: os_open_def split: option.splits)

lemma os_append_Some:
  "fs_files fs p = Some c \<Longrightarrow> os_append p bs fs = fs\<lparr>fs_files := (fs_files fs)(p \<mapsto> c @ bs)\<rparr>"
  by (simp add: os_append_def)

lemma move_staging_Inr:
  "move_staging_to_object st flt1 flt2 k obj fs = (Inr u, fs') \<Longrightarrow>
   \<exists>sp p c ds. staging_path st k = Inr sp \<and> object_path st obj = Inr p \<and> fs_files fs sp = Some c \<and>
     fs' = fs\<lparr>fs_dirs := ds, fs_files := ((fs_files fs)(sp := None))(p \<mapsto> c)\<rparr>"
  by (auto simp: move_staging_to_object_def os_mkdir_all_def os_rename_def os_open_Inr
      split: sum.splits option.splits if_splits)

lemma move_staging_contents:
  assumes "move_staging_to_object (storage_at base) flt1 flt2 k obj fs = (Inr u, fs')"
  shows "\<exists>c. staged (storage_at base) fs k = Some c \<and>
    staged (storage_at base) fs' = (staged (storage_at base) fs)(k := None) \<and>
    stored (storage_at base) fs' = (stored (storage_at base) fs)(obj \<mapsto> c)"
proof -
  from move_staging_Inr [OF assms] obtain sp p c ds where
    paths: "staging_path (storage_at base) k = Inr sp" "object_path (storage_at base) obj = Inr p"
    and c: "fs_files fs sp = Some c"
    and fs': "fs' = fs\<lparr>fs_dirs := ds, fs_files := ((fs_files fs)(sp := None))(p \<mapsto> c)\<rparr>" by blast
  let ?fs1 = "fs\<lparr>fs_files := (fs_files fs)(sp := None)\<rparr>"
  have "fs' = (?fs1\<lparr>fs_files := (fs_files ?fs1)(p \<mapsto> c)\<rparr>)\<lparr>fs_dirs := ds\<rparr>"
    by (simp add: fs')
  with paths c show ?thesis
    by (simp only: contents_dirs staged_write [OF paths(1)] stored_other [OF paths(1)]
        staged_other [OF paths(2)] stored_write [OF paths(2)]) (simp add: staged_def)
qed

lemma move_staging_failed:
  "move_staging_to_object st flt1 flt2 k obj fs = (Inl e, fs') \<Longrightarrow> fs_files fs' = fs_files fs"
  by (auto simp: move_staging_to_object_def os_mkdir_all_def split: sum.splits option.splits if_splits)

section \<open>\<open>Storage\<close> is an object store\<close>

definition completed :: "(err + unit) \<times> 'f \<Rightarrow> 'f option" where
  "completed r = (case r of (Inl _, _) \<Rightarrow> None | (Inr _, f) \<Rightarrow> Some f)"

lemma completed_Some: "completed r = Some g \<longleftrightarrow> (\<exists>u. r = (Inr u, g))"
  by (auto simp: completed_def split: prod.splits sum.splits)

lemma append_staging_contents:
  assumes "append_staging (storage_at base) flt k bs fs = Some fs'"
  shows "\<exists>c. staged (storage_at base) fs k = Some c \<and>
    staged (storage_at base) fs' = (staged (storage_at base) fs)(k \<mapsto> c @ bs) \<and>
    stored (storage_at base) fs' = stored (storage_at base) fs"
proof -
  from assms obtain p where p: "open_staging_for_append (storage_at base) flt k fs = Inr p" "fs' = os_append p bs fs"
    by (auto simp: append_staging_def split: sum.splits)
  then obtain c where "staging_path (storage_at base) k = Inr p" "fs_files fs p = Some c"
    by (auto simp: open_staging_Inr)
  with p(2) show ?thesis by (simp add: os_append_Some contents) (simp add: staged_def)
qed

lemma remove_staging_contents:
  assumes "remove_staging_file (storage_at base) flt k fs = (Inr u, fs')"
  shows "staged (storage_at base) fs' = (staged (storage_at base) fs)(k := None) \<and>
    stored (storage_at base) fs' = stored (storage_at base) fs"
  using assms by (auto simp: remove_staging_file_def contents dest!: remove_quietly_Inr split: sum.splits)

lemma remove_object_contents:
  assumes "remove_object (storage_at base) flt k fs = (Inr u, fs')"
  shows "staged (storage_at base) fs' = staged (storage_at base) fs \<and>
    stored (storage_at base) fs' = (stored (storage_at base) fs)(k := None)"
  using assms by (auto simp: remove_object_def contents dest!: remove_quietly_Inr split: sum.splits)

interpretation disk: object_store
  "staged (storage_at base)" "stored (storage_at base)"
  "\<lambda>k fs. completed (create_staging_file (storage_at base) flt k fs)"
  "append_staging (storage_at base) flt"
  "\<lambda>k obj fs. completed (move_staging_to_object (storage_at base) flt flt2 k obj fs)"
  "\<lambda>k fs. completed (remove_staging_file (storage_at base) flt k fs)"
  "\<lambda>obj fs. completed (remove_object (storage_at base) flt obj fs)"
  for base flt flt2
  by unfold_locales
    (auto simp: completed_Some create_staging_contents dest: append_staging_contents move_staging_contents
      remove_staging_contents remove_object_contents)

end
