(* ===== verification/Config.thy ===== *)
theory Config
  imports Go_Path Schema
begin

text \<open>
  The package \<open>internal/config\<close>: reading the environment, \<open>Load\<close> and \<open>Validate\<close>. The
  environment maps a variable to its text; an unset variable reads as the empty text, as
  \<open>os.Getenv\<close> has it. Durations are nanoseconds in \<open>int64\<close>, so products wrap around.
\<close>

record config =
  AppEnv :: string
  AppListenAddr :: string
  AppAdminHost :: string
  AppShareHost :: string
  DataDir :: string
  DBPath :: string
  DBBusyTimeout :: int
  SQLiteSynchronous :: string
  MaxStorageBytes :: int
  MaxFileBytes :: int
  MinFreeBytes :: int
  TrashRetentionDays :: int
  TusChunkSize :: int
  MaxActiveUploads :: int
  MaxActiveDownloads :: int
  MaxPublicDownloads :: int
  UploadExpiry :: int
  CFAccessTeamDomain :: string
  CFAccessAud :: string
  CFAccessAllowedEmail :: string
  DevAuthBypass :: bool
  DevAdminEmail :: string
  TrustedProxyMode :: string
  ShareTokenPepper :: string
  ShareSessionSecret :: string
  GlobalShareEpoch :: int
  BackupEnabled :: bool
  BackupSnapshotTTL :: int

section \<open>The environment\<close>

definition get_env :: "(string \<Rightarrow> string) \<Rightarrow> string \<Rightarrow> string \<Rightarrow> string" where
  "get_env env key fallback = (if env key \<noteq> [] then trim_space (env key) else fallback)"

text \<open>\<open>getEnvInt\<close> and \<open>getEnvInt64\<close>, on a machine whose \<open>int\<close> has 64 bits.\<close>

definition get_env_int :: "(string \<Rightarrow> string) \<Rightarrow> string \<Rightarrow> int \<Rightarrow> int" where
  "get_env_int env key fallback =
     (if env key = [] then fallback
      else (case parse_int64 (env key) of None \<Rightarrow> fallback | Some i \<Rightarrow> i))"

definition parse_bool :: "string \<Rightarrow> bool option" where
  "parse_bool s =
     (if s \<in> {''1'', ''t'', ''T'', ''TRUE'', ''true'', ''True''} then Some True
      else if s \<in> {''0'', ''f'', ''F'', ''FALSE'', ''false'', ''False''} then Some False
      else None)"

definition get_env_bool :: "(string \<Rightarrow> string) \<Rightarrow> string \<Rightarrow> bool \<Rightarrow> bool" where
  "get_env_bool env key fallback =
     (if env key = [] then fallback
      else (case parse_bool (env key) of None \<Rightarrow> fallback | Some b \<Rightarrow> b))"

section \<open>Validation\<close>

definition validate_config :: "config \<Rightarrow> err + unit" where
  "validate_config c =
     (if MaxFileBytes c \<le> 0 then Inl (ErrText ''MAX_FILE_BYTES must be positive'')
      else if TusChunkSize c \<le> 0 \<or> 90 * 1024 * 1024 < TusChunkSize c
      then Inl (ErrText ''TUS_CHUNK_SIZE must be between 1 byte and 90 MiB (Cloudflare 100MB limit)'')
      else if AppEnv c = ''production''
      then (if DevAuthBypass c then Inl (ErrText ''DEV_AUTH_BYPASS must be false in production'')
            else if CFAccessAud c = [] then Inl (ErrText ''CF_ACCESS_AUD is required in production'')
            else if CFAccessTeamDomain c = [] then Inl (ErrText ''CF_ACCESS_TEAM_DOMAIN is required in production'')
            else if go_contains (ShareTokenPepper c) ''insecure-default''
            then Inl (ErrText ''SHARE_TOKEN_PEPPER must be set to a secure secret in production'')
            else if go_contains (ShareSessionSecret c) ''insecure-default''
            then Inl (ErrText ''SHARE_SESSION_SECRET must be set to a secure secret in production'')
            else Inr ())
      else Inr ())"

definition millisecond :: int where "millisecond = 1000000"
definition hour :: int where "hour = 3600000000000"

definition read_config :: "(string \<Rightarrow> string) \<Rightarrow> config" where
  "read_config env =
     (let dataDir = get_env env ''DATA_DIR'' ''./data''
      in \<lparr>AppEnv = get_env env ''APP_ENV'' ''development'',
          AppListenAddr = get_env env ''APP_LISTEN_ADDR'' '':8080'',
          AppAdminHost = get_env env ''APP_ADMIN_HOST'' ''localhost:8080'',
          AppShareHost = get_env env ''APP_SHARE_HOST'' ''share.localhost:8080'',
          DataDir = dataDir,
          DBPath = get_env env ''DB_PATH'' (path_join [dataDir, ''db'', ''app.db'']),
          DBBusyTimeout = wrap64 (get_env_int env ''DB_BUSY_TIMEOUT_MS'' 5000 * millisecond),
          SQLiteSynchronous = get_env env ''SQLITE_SYNCHRONOUS'' ''NORMAL'',
          MaxStorageBytes = get_env_int env ''MAX_STORAGE_BYTES'' (500 * 1024 * 1024 * 1024),
          MaxFileBytes = get_env_int env ''MAX_FILE_BYTES'' (10 * 1024 * 1024 * 1024),
          MinFreeBytes = get_env_int env ''MIN_FREE_BYTES'' (5 * 1024 * 1024 * 1024),
          TrashRetentionDays = get_env_int env ''TRASH_RETENTION_DAYS'' 30,
          TusChunkSize = get_env_int env ''TUS_CHUNK_SIZE'' (16 * 1024 * 1024),
          MaxActiveUploads = get_env_int env ''MAX_ACTIVE_UPLOADS'' 4,
          MaxActiveDownloads = get_env_int env ''MAX_ACTIVE_DOWNLOADS'' 8,
          MaxPublicDownloads = get_env_int env ''MAX_PUBLIC_DOWNLOADS'' 4,
          UploadExpiry = wrap64 (get_env_int env ''UPLOAD_EXPIRY_HOURS'' 24 * hour),
          CFAccessTeamDomain = get_env env ''CF_ACCESS_TEAM_DOMAIN'' [],
          CFAccessAud = get_env env ''CF_ACCESS_AUD'' [],
          CFAccessAllowedEmail = get_env env ''CF_ACCESS_ALLOWED_SUBJECT'' [],
          DevAuthBypass = get_env_bool env ''DEV_AUTH_BYPASS'' True,
          DevAdminEmail = get_env env ''DEV_ADMIN_EMAIL'' ''admin@example.com'',
          TrustedProxyMode = get_env env ''TRUSTED_PROXY_MODE'' ''cloudflare'',
          ShareTokenPepper = get_env env ''SHARE_TOKEN_PEPPER'' ''insecure-default-pepper-change-me-in-prod'',
          ShareSessionSecret = get_env env ''SHARE_SESSION_SECRET'' ''insecure-default-secret-change-me-in-prod'',
          GlobalShareEpoch = get_env_int env ''GLOBAL_SHARE_EPOCH'' 1,
          BackupEnabled = get_env_bool env ''BACKUP_ENABLED'' False,
          BackupSnapshotTTL = wrap64 (get_env_int env ''BACKUP_SNAPSHOT_TTL_HOURS'' 6 * hour)\<rparr>)"

definition load_config :: "(string \<Rightarrow> string) \<Rightarrow> err + config" where
  "load_config env =
     (case validate_config (read_config env) of
        Inl e \<Rightarrow> Inl (Wrap ''config validation failed'' e)
      | Inr _ \<Rightarrow> Inr (read_config env))"

section \<open>What a loaded configuration guarantees\<close>

lemma get_env_int_range: "in_int64 d \<Longrightarrow> in_int64 (get_env_int env key d)"
  by (auto simp: get_env_int_def dest: parse_int64_range split: option.splits)


text \<open>
  The witness is a production environment; its pepper is one blank, which \<open>getEnv\<close> trims to the
  empty text after it has checked that the variable is set, and \<open>Validate\<close> accepts.
\<close>

definition demo_env :: "string \<Rightarrow> string" where
  "demo_env key =
     (if key = ''APP_ENV'' then ''production'' else if key = ''DEV_AUTH_BYPASS'' then ''false''
      else if key = ''CF_ACCESS_AUD'' then ''aud'' else if key = ''CF_ACCESS_TEAM_DOMAIN'' then ''team''
      else if key = ''SHARE_TOKEN_PEPPER'' then '' '' else if key = ''SHARE_SESSION_SECRET'' then ''s3cret'' else [])"


end
