(* ===== verification/Uploads.thy ===== *)
theory Uploads
  imports Files Object_Store Config
begin

text \<open>
  The package \<open>internal/uploads\<close>: resumable uploads. The world of a call is the database and the
  file tree; the service's mutex makes the calls that change them run one after the other, so
  each is one function of the world. \<open>sha\<close> is SHA-256 and \<open>detect\<close> is \<open>http.DetectContentType\<close>.
\<close>

record world =
  w_db :: database
  w_fs :: fs

text \<open>What the body of a request brings into the staging file: the bytes \<open>io.Copy\<close> wrote before
  it stopped, and its error, from the reader or from the disk.\<close>

record stream =
  st_bytes :: string
  st_error :: "string option"

section \<open>Creating an upload\<close>

definition active_states :: "upload_state set" where
  "active_states = {StateCreated, StateReceiving, StateVerifying, StateFinalizing}"

text \<open>\<open>SELECT COALESCE(SUM(...), 0)\<close>: the code keeps 0 when the query fails, also by overflow.\<close>

definition sum_query :: "string option \<Rightarrow> int \<Rightarrow> int" where
  "sum_query flt n = (if flt = None \<and> in_int64 n then n else 0)"

definition stored_bytes :: "database \<Rightarrow> int" where
  "stored_bytes db = sum_where (\<lambda>_. True) fr_size (file_objects db)"

definition reserved_bytes :: "database \<Rightarrow> int" where
  "reserved_bytes db = sum_where (\<lambda>u. up_state u \<in> active_states) up_reserved (uploads db)"

definition get_upload :: "string option \<Rightarrow> database \<Rightarrow> string \<Rightarrow> err + upload_row" where
  "get_upload flt db i =
     (case flt of
        Some m \<Rightarrow> Inl (DbErr (ExternalFault m))
      | None \<Rightarrow> (case find_upload db i of None \<Rightarrow> Inl ErrUploadNotFound | Some u \<Rightarrow> Inr u))"

definition upload_parent :: "string \<Rightarrow> string" where
  "upload_parent parentID = (if parentID \<noteq> [] then parentID else root_id)"

text \<open>The quota and the free space of the disk.\<close>

definition check_space :: "config \<Rightarrow> outside \<Rightarrow> string + statfs \<Rightarrow> int \<Rightarrow> database \<Rightarrow> err + unit" where
  "check_space cfg ora sf expected db =
     (if MaxStorageBytes cfg < wrap64 (wrap64 (sum_query (db_fails ora 2) (stored_bytes db) +
           sum_query (db_fails ora 3) (reserved_bytes db)) + expected)
      then Inl ErrQuotaExceeded
      else (case get_disk_space sf of
         Inl _ \<Rightarrow> Inr ()
       | Inr d \<Rightarrow>
           if 0 < ds_free d \<and> wrap64 (sint (ds_free d) - expected) < MinFreeBytes cfg
           then Inl ErrPhysicalSpaceBlocked else Inr ()))"

definition sibling_conflict :: "database \<Rightarrow> string \<Rightarrow> string \<Rightarrow> bool" where
  "sibling_conflict db p key =
     list_ex (\<lambda>r. nr_parent r = Some p \<and> nr_name_key r = key \<and> nr_trashed r = None) (nodes db)"

definition new_upload ::
  "config \<Rightarrow> outside \<Rightarrow> string \<Rightarrow> string \<Rightarrow> string \<Rightarrow> string \<Rightarrow> int \<Rightarrow> upload_row" where
  "new_upload cfg ora owner parent name key expected =
     \<lparr>up_id = uuid ora 0, up_owner = owner, up_parent = parent, up_name = name, up_name_key = key,
      up_expected = expected, up_received = 0, up_reserved = expected,
      up_staging = generate_opaque_key (rand_bytes ora 0), up_final = generate_opaque_key (rand_bytes ora 1),
      up_state = StateCreated, up_sha = None, up_error = None,
      up_created = secs (clock ora 0), up_updated = secs (clock ora 0),
      up_expires = secs (clock ora 0 + UploadExpiry cfg)\<rparr>"

definition create_upload ::
  "text_env \<Rightarrow> config \<Rightarrow> storage \<Rightarrow> string + statfs \<Rightarrow> outside \<Rightarrow> string \<Rightarrow> string \<Rightarrow> string \<Rightarrow> int \<Rightarrow> world \<Rightarrow>
   (err + upload_row) \<times> world" where
  "create_upload env cfg st sf ora owner parentID filename expected w =
     (if expected < 0 then (Inl (ErrText ''expected_size must be non-negative''), w)
      else if MaxFileBytes cfg < expected then (Inl ErrFileTooLarge, w)
      else (case normalize_name env filename of
         Inl e \<Rightarrow> (Inl e, w)
       | Inr (disp, key) \<Rightarrow>
           (case get_node (db_fails ora 0) (w_db w) (upload_parent parentID) of
              Inl e \<Rightarrow> (Inl e, w)
            | Inr p \<Rightarrow>
                (case check_folder p of
                   Inl e \<Rightarrow> (Inl e, w)
                 | Inr _ \<Rightarrow>
                     (case db_fails ora 1 of
                        Some m \<Rightarrow> (Inl (Wrap ''failed to check sibling conflict'' (DbErr (ExternalFault m))), w)
                      | None \<Rightarrow>
                          if sibling_conflict (w_db w) (upload_parent parentID) key then (Inl ErrAlreadyExists, w)
                          else (case check_space cfg ora sf expected (w_db w) of
                             Inl e \<Rightarrow> (Inl e, w)
                           | Inr _ \<Rightarrow>
                               (let u = new_upload cfg ora owner (upload_parent parentID) disp key expected
                                in case create_staging_file st (fs_fails ora 0) (up_staging u) (w_fs w) of
                                     (Inl e, fs1) \<Rightarrow> (Inl (Wrap ''failed to create staging file'' e), w\<lparr>w_fs := fs1\<rparr>)
                                   | (Inr _, fs1) \<Rightarrow>
                                       (case insert_upload (db_fails ora 4) u (w_db w) of
                                          Inl f \<Rightarrow>
                                            (Inl (Wrap ''failed to insert upload'' (DbErr f)),
                                             w\<lparr>w_fs := snd (remove_staging_file st (fs_fails ora 1) (up_staging u) fs1)\<rparr>)
                                        | Inr db1 \<Rightarrow>
                                            (get_upload (db_fails ora 5) db1 (up_id u), \<lparr>w_db = db1, w_fs = fs1\<rparr>)))))))))"

section \<open>Finishing an upload\<close>

definition mark_finalizing :: "string \<Rightarrow> int \<Rightarrow> upload_row \<Rightarrow> upload_row" where
  "mark_finalizing hash now u = u\<lparr>up_state := StateFinalizing, up_sha := Some hash, up_updated := now\<rparr>"

text \<open>The end of an upload: a new state and no reservation.\<close>

definition mark_closed :: "upload_state \<Rightarrow> int \<Rightarrow> upload_row \<Rightarrow> upload_row" where
  "mark_closed s now u = u\<lparr>up_state := s, up_reserved := 0, up_updated := now\<rparr>"

definition upload_node :: "string \<Rightarrow> upload_row \<Rightarrow> int \<Rightarrow> node_row" where
  "upload_node i u now = new_node i (up_parent u) KindFile (up_name u) (up_name_key u) now"

definition upload_file :: "string \<Rightarrow> upload_row \<Rightarrow> string \<Rightarrow> string \<Rightarrow> int \<Rightarrow> file_row" where
  "upload_file i u mime hash now =
     \<lparr>fr_node = i, fr_key = up_final u, fr_size = up_expected u, fr_mime = mime, fr_sha = Some hash,
      fr_backup = None, fr_created = now, fr_updated = now\<rparr>"

text \<open>Phase C: one transaction; any failure rolls it back.\<close>

definition phase_c :: "outside \<Rightarrow> upload_row \<Rightarrow> string \<Rightarrow> string \<Rightarrow> int \<Rightarrow> database \<Rightarrow> err + database" where
  "phase_c ora u mime hash now db =
     (case tx_call (db_fails ora 3) of
        Inl f \<Rightarrow> Inl (Wrap ''failed starting phase C tx'' (DbErr f))
      | Inr _ \<Rightarrow>
          (case insert_node (db_fails ora 4) (upload_node (uuid ora 0) u now) db of
             Inl f \<Rightarrow> Inl (Wrap ''phase C node insertion failed'' (DbErr f))
           | Inr db1 \<Rightarrow>
               (case insert_file (db_fails ora 5) (upload_file (uuid ora 0) u mime hash now) db1 of
                  Inl f \<Rightarrow> Inl (Wrap ''phase C file_object insertion failed'' (DbErr f))
                | Inr db2 \<Rightarrow>
                    (case update_upload (db_fails ora 6) (up_id u) (mark_closed StateComplete now) db2 of
                       Inl f \<Rightarrow> Inl (Wrap ''phase C upload completion failed'' (DbErr f))
                     | Inr db3 \<Rightarrow>
                         (case tx_call (db_fails ora 7) of Inl f \<Rightarrow> Inl (DbErr f) | Inr _ \<Rightarrow> Inr db3)))))"

definition finalize_upload ::
  "(string \<Rightarrow> string) \<Rightarrow> (string \<Rightarrow> string) \<Rightarrow> storage \<Rightarrow> outside \<Rightarrow> upload_row \<Rightarrow> world \<Rightarrow> (err + unit) \<times> world" where
  "finalize_upload sha detect st ora u w =
     (case staging_path st (up_staging u) of
        Inl e \<Rightarrow> (Inl e, w)
      | Inr p \<Rightarrow>
          (case os_open (fs_fails ora 1) p (w_fs w) of
             Inl e \<Rightarrow> (Inl (Wrap ''failed opening staging file for checksum'' e), w)
           | Inr content \<Rightarrow>
               (case fs_fails ora 2 of
                  Some m \<Rightarrow> (Inl (Wrap ''failed computing sha256'' (FsErr (IoFault m))), w)
                | None \<Rightarrow>
                    (let hash = hex_encode (sha content);
                         mime = fst (sniff_mime_type detect (fs_fails ora 3) (fs_fails ora 4) p (w_fs w));
                         now = secs (clock ora 2)
                     in case update_upload (db_fails ora 2) (up_id u) (mark_finalizing hash now) (w_db w) of
                          Inl f \<Rightarrow> (Inl (Wrap ''phase A durable intent failed'' (DbErr f)), w)
                        | Inr db1 \<Rightarrow>
                            (case move_staging_to_object st (fs_fails ora 5) (fs_fails ora 6) (up_staging u)
                                (up_final u) (w_fs w) of
                               (Inl e, fs1) \<Rightarrow>
                                 (Inl (Wrap ''phase B filesystem commit failed'' e), \<lparr>w_db = db1, w_fs = fs1\<rparr>)
                             | (Inr _, fs1) \<Rightarrow>
                                 (case phase_c ora u mime hash now db1 of
                                    Inl e \<Rightarrow> (Inl e, \<lparr>w_db = db1, w_fs = fs1\<rparr>)
                                  | Inr db2 \<Rightarrow> (Inr (), \<lparr>w_db = db2, w_fs = fs1\<rparr>)))))))"

section \<open>Writing a chunk\<close>

definition mark_received :: "int \<Rightarrow> upload_state \<Rightarrow> int \<Rightarrow> upload_row \<Rightarrow> upload_row" where
  "mark_received n s now u = u\<lparr>up_received := n, up_state := s, up_updated := now\<rparr>"

text \<open>The \<open>Upload\<close> value returned and passed on keeps the update time that was read.\<close>

definition write_chunk ::
  "(string \<Rightarrow> string) \<Rightarrow> (string \<Rightarrow> string) \<Rightarrow> storage \<Rightarrow> outside \<Rightarrow> string \<Rightarrow> int \<Rightarrow> stream \<Rightarrow> world \<Rightarrow>
   (err + upload_row) \<times> world" where
  "write_chunk sha detect st ora i offset body w =
     (case get_upload (db_fails ora 0) (w_db w) i of
        Inl e \<Rightarrow> (Inl e, w)
      | Inr u \<Rightarrow>
          if up_state u \<noteq> StateCreated \<and> up_state u \<noteq> StateReceiving then (Inl ErrInvalidState, w)
          else if up_expires u * 1000000000 < clock ora 0 then (Inl ErrUploadExpired, w)
          else if offset \<noteq> up_received u then (Inl ErrOffsetMismatch, w)
          else (case open_staging_for_append st (fs_fails ora 0) (up_staging u) (w_fs w) of
             Inl e \<Rightarrow> (Inl (Wrap ''failed to open staging file'' e), w)
           | Inr p \<Rightarrow>
               (let w1 = w\<lparr>w_fs := os_append p (st_bytes body) (w_fs w)\<rparr>;
                    received = wrap64 (up_received u + int (length (st_bytes body)));
                    s = (if received = up_expected u then StateVerifying else StateReceiving)
                in case st_error body of
                     Some m \<Rightarrow> (Inl (Wrap ''failed writing to staging'' (ErrText m)), w1)
                   | None \<Rightarrow>
                       if up_expected u < received then (Inl ErrLengthMismatch, w1)
                       else (case update_upload (db_fails ora 1) i (mark_received received s (secs (clock ora 1))) (w_db w) of
                          Inl f \<Rightarrow> (Inl (Wrap ''failed to update upload progress'' (DbErr f)), w1)
                        | Inr db1 \<Rightarrow>
                            (let u1 = u\<lparr>up_received := received, up_state := s\<rparr>; w2 = w1\<lparr>w_db := db1\<rparr>
                             in if s = StateVerifying
                                then (case finalize_upload sha detect st ora u1 w2 of
                                        (Inl e, w3) \<Rightarrow> (Inl (Wrap ''finalization failed'' e), w3)
                                      | (Inr _, w3) \<Rightarrow> (get_upload (db_fails ora 8) (w_db w3) i, w3))
                                else (Inr u1, w2))))))"

section \<open>Terminating\<close>

definition terminate_upload :: "storage \<Rightarrow> outside \<Rightarrow> string \<Rightarrow> world \<Rightarrow> (err + unit) \<times> world" where
  "terminate_upload st ora i w =
     (case get_upload (db_fails ora 0) (w_db w) i of
        Inl e \<Rightarrow> (Inl e, w)
      | Inr u \<Rightarrow>
          if up_state u = StateComplete then (Inl ErrInvalidState, w)
          else (case update_upload (db_fails ora 1) i (mark_closed StateTerminated (secs (clock ora 0))) (w_db w) of
             Inl f \<Rightarrow> (Inl (DbErr f), w)
           | Inr db1 \<Rightarrow>
               (Inr (), \<lparr>w_db = db1, w_fs = snd (remove_staging_file st (fs_fails ora 0) (up_staging u) (w_fs w))\<rparr>)))"

section \<open>Reconciling after a crash\<close>

text \<open>
  \<open>Reconcile\<close> drops the error of almost every statement: \<open>attempt\<close> keeps the database when one
  fails. Each upload it visits has an outside world of its own. A result set is read whole.
\<close>

definition attempt :: "db_fault + database \<Rightarrow> database \<Rightarrow> database" where
  "attempt r db = (case r of Inl _ \<Rightarrow> db | Inr db' \<Rightarrow> db')"

definition expire_one :: "storage \<Rightarrow> outside \<Rightarrow> int \<Rightarrow> upload_row \<Rightarrow> world \<Rightarrow> world" where
  "expire_one st ora now u w =
     \<lparr>w_db = attempt (update_upload (db_fails ora 0) (up_id u) (mark_closed StateExpired now) (w_db w)) (w_db w),
      w_fs = snd (remove_staging_file st (fs_fails ora 0) (up_staging u) (w_fs w))\<rparr>"

text \<open>Phase C again, with the errors of its statements dropped.\<close>

definition phase_c_blind :: "outside \<Rightarrow> upload_row \<Rightarrow> int \<Rightarrow> database \<Rightarrow> database" where
  "phase_c_blind ora u now db =
     (case tx_call (db_fails ora 1) of
        Inl _ \<Rightarrow> db
      | Inr _ \<Rightarrow>
          (let hash = (case up_sha u of None \<Rightarrow> [] | Some h \<Rightarrow> h);
               db1 = attempt (insert_node (db_fails ora 2) (upload_node (uuid ora 0) u now) db) db;
               db2 = attempt (insert_file (db_fails ora 3) (upload_file (uuid ora 0) u octet_stream hash now) db1) db1;
               db3 = attempt (update_upload (db_fails ora 4) (up_id u) (mark_closed StateComplete now) db2) db2
           in case tx_call (db_fails ora 5) of Inl _ \<Rightarrow> db | Inr _ \<Rightarrow> db3))"

definition resolve_one :: "storage \<Rightarrow> outside \<Rightarrow> int \<Rightarrow> upload_row \<Rightarrow> world \<Rightarrow> world" where
  "resolve_one st ora now u w =
     (let finalExists = object_exists st (fs_fails ora 0) (up_final u) (w_fs w);
          stagingExists = staging_exists st (fs_fails ora 1) (up_staging u) (w_fs w);
          committed = (db_fails ora 0 = None \<and> up_final u \<in> fr_key ` set (file_objects (w_db w)))
      in if finalExists
         then \<lparr>w_db = (if \<not> committed then phase_c_blind ora u now (w_db w)
                 else attempt (update_upload (db_fails ora 6) (up_id u) (mark_closed StateComplete now) (w_db w)) (w_db w)),
               w_fs = (if stagingExists then snd (remove_staging_file st (fs_fails ora 2) (up_staging u) (w_fs w))
                 else w_fs w)\<rparr>
         else if stagingExists
         then (case move_staging_to_object st (fs_fails ora 3) (fs_fails ora 4) (up_staging u) (up_final u) (w_fs w) of
                 (Inl _, fs1) \<Rightarrow> w\<lparr>w_fs := fs1\<rparr>
               | (Inr _, fs1) \<Rightarrow> \<lparr>w_db = phase_c_blind ora u now (w_db w), w_fs = fs1\<rparr>)
         else w\<lparr>w_db := attempt (update_upload (db_fails ora 6) (up_id u) (mark_closed StateFailed now) (w_db w)) (w_db w)\<rparr>)"

text \<open>The loops visit a list that was read before them; \<open>k\<close> counts the uploads visited.\<close>

fun visit_all :: "(nat \<Rightarrow> upload_row \<Rightarrow> world \<Rightarrow> world) \<Rightarrow> nat \<Rightarrow> upload_row list \<Rightarrow> world \<Rightarrow> world" where
  "visit_all f k [] w = w"
| "visit_all f k (u # us) w = visit_all f (Suc k) us (f k u w)"

text \<open>Both queries read the index on \<open>(state, expires_at)\<close>.\<close>

definition stale_uploads :: "int \<Rightarrow> database \<Rightarrow> upload_row list" where
  "stale_uploads now db =
     sort_key up_expires (filter (\<lambda>u. up_state u = StateCreated \<and> up_expires u < now) (uploads db)) @
     sort_key up_expires (filter (\<lambda>u. up_state u = StateReceiving \<and> up_expires u < now) (uploads db))"

definition finalizing_uploads :: "database \<Rightarrow> upload_row list" where
  "finalizing_uploads db = sort_key up_expires (filter (\<lambda>u. up_state u = StateFinalizing) (uploads db))"

definition reconcile ::
  "storage \<Rightarrow> outside \<Rightarrow> (nat \<Rightarrow> outside) \<Rightarrow> (nat \<Rightarrow> outside) \<Rightarrow> world \<Rightarrow> (err + unit) \<times> world" where
  "reconcile st ora stale final w =
     (let now = secs (clock ora 0);
          w1 = (if db_fails ora 0 = None
                then visit_all (\<lambda>k. expire_one st (stale k) now) 0 (stale_uploads now (w_db w)) w else w)
      in case db_fails ora 1 of
           Some m \<Rightarrow> (Inl (DbErr (ExternalFault m)), w1)
         | None \<Rightarrow> (Inr (), visit_all (\<lambda>k. resolve_one st (final k) now) 0 (finalizing_uploads (w_db w1)) w1))"

end
