(* ===== verification/Upload_Life.thy ===== *)
theory Upload_Life
  imports Uploads Files_Inv
begin

text \<open>
  The life of one upload as an abstract step relation on its row, and the proof that every
  operation of the upload service only takes such steps on the table of uploads.
\<close>

section \<open>The life of one upload\<close>

inductive row_step :: "upload_row \<Rightarrow> upload_row \<Rightarrow> bool" where
  receive: "up_state u \<in> {StateCreated, StateReceiving} \<Longrightarrow> up_received u \<le> n \<Longrightarrow> n < up_expected u \<Longrightarrow>
     row_step u (mark_received n StateReceiving now u)"
| verify: "up_state u \<in> {StateCreated, StateReceiving} \<Longrightarrow> up_received u \<le> up_expected u \<Longrightarrow>
     row_step u (mark_received (up_expected u) StateVerifying now u)"
| intent: "up_state u = StateVerifying \<Longrightarrow> row_step u (mark_finalizing hash now u)"
| commit: "up_state u = StateFinalizing \<Longrightarrow> row_step u (mark_closed StateComplete now u)"
| lost: "up_state u = StateFinalizing \<Longrightarrow> row_step u (mark_closed StateFailed now u)"
| expire: "up_state u \<in> {StateCreated, StateReceiving} \<Longrightarrow> row_step u (mark_closed StateExpired now u)"
| terminate: "up_state u \<noteq> StateComplete \<Longrightarrow> row_step u (mark_closed StateTerminated now u)"

lemmas mark_defs = mark_received_def mark_finalizing_def mark_closed_def

inductive_cases row_stepE: "row_step u v"

text \<open>A row is well formed when it holds what its state says.\<close>

definition row_ok :: "upload_row \<Rightarrow> bool" where
  "row_ok u \<longleftrightarrow> 0 \<le> up_received u \<and> up_received u \<le> up_expected u \<and> up_expected u < 2 ^ 63 \<and>
     up_reserved u = (if up_state u \<in> active_states then up_expected u else 0) \<and>
     (up_state u \<in> {StateVerifying, StateFinalizing, StateComplete} \<longrightarrow> up_received u = up_expected u)"

definition same_upload :: "upload_row \<Rightarrow> upload_row \<Rightarrow> bool" where
  "same_upload u v \<longleftrightarrow> up_id v = up_id u \<and> up_owner v = up_owner u \<and> up_parent v = up_parent u \<and>
     up_name v = up_name u \<and> up_name_key v = up_name_key u \<and> up_expected v = up_expected u \<and>
     up_staging v = up_staging u \<and> up_final v = up_final u \<and> up_created v = up_created u \<and> up_expires v = up_expires u"

lemma row_step_same: "row_step u v \<Longrightarrow> same_upload u v \<and> up_received u \<le> up_received v"
  by (erule row_stepE) (auto simp: same_upload_def mark_defs)

lemma row_step_ok: "row_step u v \<Longrightarrow> row_ok u \<Longrightarrow> row_ok v"
  by (erule row_stepE) (auto simp: row_ok_def active_states_def mark_defs split: if_splits)

lemma row_steps_same: "row_step\<^sup>*\<^sup>* u v \<Longrightarrow> same_upload u v \<and> up_received u \<le> up_received v"
proof (induction rule: rtranclp_induct)
  case (step v w)
  with row_step_same [OF step(2)] show ?case by (auto simp: same_upload_def)
qed (simp add: same_upload_def)

lemma row_steps_id: "row_step\<^sup>*\<^sup>* u v \<Longrightarrow> up_id v = up_id u"
  by (drule row_steps_same) (simp add: same_upload_def)

lemma row_steps_ok: "row_step\<^sup>*\<^sup>* u v \<Longrightarrow> row_ok u \<Longrightarrow> row_ok v"
  by (induction rule: rtranclp_induct) (auto intro: row_step_ok)

lemma complete_final: "row_step\<^sup>*\<^sup>* u v \<Longrightarrow> up_state u = StateComplete \<Longrightarrow> v = u"
  by (induction rule: rtranclp_induct) (auto elim!: row_stepE)

text \<open>An upload that has ended can only be marked as terminated.\<close>

lemma closed_stays:
  "row_step\<^sup>*\<^sup>* u v \<Longrightarrow> up_state u \<in> {StateFailed, StateExpired, StateTerminated} \<Longrightarrow>
   up_state v \<in> {up_state u, StateTerminated}"
  by (induction rule: rtranclp_induct) (auto elim!: row_stepE simp: mark_defs)

section \<open>Tables of uploads\<close>

definition advances :: "upload_row list \<Rightarrow> upload_row list \<Rightarrow> bool" where
  "advances = list_all2 row_step\<^sup>*\<^sup>*"

lemma advances_refl [simp, intro]: "advances rows rows"
  by (simp add: advances_def list_all2_refl)

lemma advances_trans: "advances xs ys \<Longrightarrow> advances ys zs \<Longrightarrow> advances xs zs"
  unfolding advances_def by (rule list_all2_trans [OF rtranclp_trans]) auto

lemma advances_ids: "advances xs ys \<Longrightarrow> map up_id ys = map up_id xs"
  unfolding advances_def by (induction rule: list_all2_induct) (auto dest: row_steps_id)

lemma advances_row: "advances xs ys \<Longrightarrow> u \<in> set xs \<Longrightarrow> \<exists>v \<in> set ys. row_step\<^sup>*\<^sup>* u v"
  unfolding advances_def by (induction rule: list_all2_induct) auto

lemma advances_row_back: "advances xs ys \<Longrightarrow> v \<in> set ys \<Longrightarrow> \<exists>u \<in> set xs. row_step\<^sup>*\<^sup>* u v"
  unfolding advances_def by (induction rule: list_all2_induct) auto

lemma advances_update:
  assumes "\<And>u. u \<in> set rows \<Longrightarrow> P u \<Longrightarrow> row_step\<^sup>*\<^sup>* u (f u)"
  shows "advances rows (update_where P f rows)"
  using assms unfolding advances_def by (induction rows) auto

definition uploads_ok :: "database \<Rightarrow> bool" where
  "uploads_ok db \<longleftrightarrow> distinct (map up_id (uploads db)) \<and> (\<forall>u \<in> set (uploads db). row_ok u)"

lemma uploads_ok_advances: "uploads_ok db \<Longrightarrow> advances (uploads db) (uploads db') \<Longrightarrow> uploads_ok db'"
  using advances_ids advances_row_back row_steps_ok unfolding uploads_ok_def by metis

lemma find_upload_iff: "uploads_ok db \<Longrightarrow> find_upload db i = Some u \<longleftrightarrow> u \<in> set (uploads db) \<and> up_id u = i"
  by (simp add: find_upload_def uploads_ok_def lookup_by_eq_Some)

text \<open>An update of one upload is a step of its row.\<close>

lemma update_upload_advances:
  assumes upd: "update_upload flt i f db = Inr db'" and ok: "uploads_ok db"
    and u: "find_upload db i = Some u" and step: "row_step\<^sup>*\<^sup>* u (f u)"
  shows "advances (uploads db) (uploads db')"
proof -
  from u ok have row: "u \<in> set (uploads db)" "up_id u = i" by (auto simp: find_upload_iff)
  have "row_step\<^sup>*\<^sup>* v (f v)" if v: "v \<in> set (uploads db)" "up_id v = i" for v
  proof -
    have "v = u" using ok row v by (auto simp: uploads_ok_def intro: key_inj)
    with step show ?thesis by simp
  qed
  then have "advances (uploads db) (update_where (\<lambda>u. up_id u = i) f (uploads db))"
    by (rule advances_update)
  with upd show ?thesis by (simp add: update_upload_Inr)
qed

interpretation receive_key: key_keeping up_id "mark_received n s now" for n s now
  by unfold_locales (simp add: mark_received_def)

interpretation finalize_key: key_keeping up_id "mark_finalizing hash now" for hash now
  by unfold_locales (simp add: mark_finalizing_def)

interpretation close_key: key_keeping up_id "mark_closed s now" for s now
  by unfold_locales (simp add: mark_closed_def)

lemma find_after_update:
  assumes "update_upload flt i f db = Inr db'" and "\<And>u. up_id (f u) = up_id u"
  shows "find_upload db' j = (if j = i then map_option f (find_upload db j) else find_upload db j)"
  using assms(1) key_keeping.lookup_update_key [OF key_keeping.intro [of up_id f, OF assms(2)]]
  by (simp add: find_upload_def update_upload_Inr)

section \<open>The operations\<close>

lemma wrap64_mod: "wrap64 i = (i + 2 ^ 63) mod 2 ^ 64 - 2 ^ 63"
  by (simp add: wrap64_def sint_sbintrunc' signed_take_bit_eq_take_bit_shift take_bit_eq_mod)

lemma wrap64_nonneg_add:
  assumes "0 \<le> a" "a < 2 ^ 63" "0 \<le> b" "b < 2 ^ 63" "0 \<le> wrap64 (a + b)"
  shows "wrap64 (a + b) = a + b"
proof (cases "a + b < 2 ^ 63")
  case True
  with assms show ?thesis by (intro wrap64_id) (simp add: in_int64_def)
next
  case False
  with assms have "(a + b + 2 ^ 63 - 2 ^ 64) mod 2 ^ 64 = a + b + 2 ^ 63 - 2 ^ 64"
    by (intro mod_pos_pos_trivial) simp_all
  then have "(a + b + 2 ^ 63) mod 2 ^ 64 = a + b + 2 ^ 63 - 2 ^ 64"
    by (simp only: minus_mod_self2)
  with assms(2,4,5) show ?thesis by (simp add: wrap64_mod)
qed

text \<open>Statements on the other tables leave the uploads alone.\<close>

lemma other_statements_uploads:
  "insert_node flt r db = Inr db' \<Longrightarrow> uploads db' = uploads db"
  "insert_file flt f db = Inr db' \<Longrightarrow> uploads db' = uploads db"
  by (auto simp: insert_node_Inr insert_file_Inr)

lemma phase_c_Inr:
  assumes "phase_c ora u mime hash now db = Inr db'"
  obtains db2 where "db2 = db\<lparr>nodes := nodes db @ [upload_node (uuid ora 0) u now],
      file_objects := file_objects db @ [upload_file (uuid ora 0) u mime hash now]\<rparr>"
    "insert_node None (upload_node (uuid ora 0) u now) db = Inr (db\<lparr>nodes := nodes db @ [upload_node (uuid ora 0) u now]\<rparr>)"
    "insert_file None (upload_file (uuid ora 0) u mime hash now) (db\<lparr>nodes := nodes db @ [upload_node (uuid ora 0) u now]\<rparr>) = Inr db2"
    "update_upload (db_fails ora 6) (up_id u) (mark_closed StateComplete now) db2 = Inr db'"
proof -
  from assms obtain db1 db2 where 1: "insert_node (db_fails ora 4) (upload_node (uuid ora 0) u now) db = Inr db1"
    and 2: "insert_file (db_fails ora 5) (upload_file (uuid ora 0) u mime hash now) db1 = Inr db2"
    and 3: "update_upload (db_fails ora 6) (up_id u) (mark_closed StateComplete now) db2 = Inr db'"
    by (auto simp: phase_c_def split: sum.splits)
  from 1 have db1: "db_fails ora 4 = None" "db1 = db\<lparr>nodes := nodes db @ [upload_node (uuid ora 0) u now]\<rparr>"
    by (auto simp: insert_node_Inr)
  from 2 have db2: "db_fails ora 5 = None" "db2 = db1\<lparr>file_objects := file_objects db1 @ [upload_file (uuid ora 0) u mime hash now]\<rparr>"
    by (auto simp: insert_file_Inr)
  show ?thesis
    using that [of db2] 1 2 3 db1 db2 by simp
qed

lemma phase_c_uploads:
  assumes "phase_c ora u mime hash now db = Inr db'"
  shows "\<exists>db2. uploads db2 = uploads db \<and> update_upload (db_fails ora 6) (up_id u) (mark_closed StateComplete now) db2 = Inr db'"
  by (rule phase_c_Inr [OF assms]) (auto intro: exI [of _ "db\<lparr>nodes := _, file_objects := _\<rparr>"])

text \<open>How a finalization can end: before phase A, after it, or complete.\<close>

lemma finalize_cases:
  assumes "finalize_upload sha detect st ora u w = (res, w')"
  obtains (early) e where "res = Inl e" "w' = w"
  | (late) e p content db1 fs1 where "res = Inl e" "staging_path st (up_staging u) = Inr p"
      "os_open None p (w_fs w) = Inr content"
      "update_upload (db_fails ora 2) (up_id u) (mark_finalizing (hex_encode (sha content)) (secs (clock ora 2))) (w_db w) = Inr db1"
      "w' = \<lparr>w_db = db1, w_fs = fs1\<rparr>"
      "fs1 = snd (move_staging_to_object st (fs_fails ora 5) (fs_fails ora 6) (up_staging u) (up_final u) (w_fs w))"
  | (complete) p content db1 fs1 db2 where "res = Inr ()" "staging_path st (up_staging u) = Inr p"
      "os_open None p (w_fs w) = Inr content"
      "update_upload (db_fails ora 2) (up_id u) (mark_finalizing (hex_encode (sha content)) (secs (clock ora 2))) (w_db w) = Inr db1"
      "move_staging_to_object st (fs_fails ora 5) (fs_fails ora 6) (up_staging u) (up_final u) (w_fs w) = (Inr (), fs1)"
      "phase_c ora u (fst (sniff_mime_type detect (fs_fails ora 3) (fs_fails ora 4) p (w_fs w)))
         (hex_encode (sha content)) (secs (clock ora 2)) db1 = Inr db2"
      "w' = \<lparr>w_db = db2, w_fs = fs1\<rparr>"
proof (cases "staging_path st (up_staging u)")
  case (Inl e)
  with assms show ?thesis by (intro early) (auto simp: finalize_upload_def)
next
  case p: (Inr p)
  show ?thesis
  proof (cases "os_open (fs_fails ora 1) p (w_fs w)")
    case (Inl e)
    with assms p show ?thesis by (intro early) (auto simp: finalize_upload_def)
  next
    case c: (Inr content)
    then have c': "os_open None p (w_fs w) = Inr content" by (simp add: os_open_def split: option.splits)
    show ?thesis
    proof (cases "fs_fails ora 2")
      case (Some m)
      with assms p c show ?thesis by (intro early) (auto simp: finalize_upload_def)
    next
      case n: None
      show ?thesis
      proof (cases "update_upload (db_fails ora 2) (up_id u) (mark_finalizing (hex_encode (sha content)) (secs (clock ora 2))) (w_db w)")
        case (Inl f)
        with assms p c n show ?thesis by (intro early) (auto simp: finalize_upload_def)
      next
        case a: (Inr db1)
        obtain r fs1 where m: "move_staging_to_object st (fs_fails ora 5) (fs_fails ora 6) (up_staging u) (up_final u) (w_fs w) = (r, fs1)"
          by fastforce
        show ?thesis
        proof (cases r)
          case (Inl e)
          with assms p c n a m show ?thesis
            by (intro late [OF _ p c' a]) (auto simp: finalize_upload_def Let_def)
        next
          case (Inr x)
          let ?c = "phase_c ora u (fst (sniff_mime_type detect (fs_fails ora 3) (fs_fails ora 4) p (w_fs w)))
            (hex_encode (sha content)) (secs (clock ora 2)) db1"
          from Inr have m': "move_staging_to_object st (fs_fails ora 5) (fs_fails ora 6) (up_staging u) (up_final u) (w_fs w) = (Inr (), fs1)"
            using m by simp
          have eq: "(res, w') = (case ?c of Inl e \<Rightarrow> (Inl e, \<lparr>w_db = db1, w_fs = fs1\<rparr>) | Inr db2 \<Rightarrow> (Inr (), \<lparr>w_db = db2, w_fs = fs1\<rparr>))"
            using assms p c n a m' by (simp add: finalize_upload_def Let_def)
          show ?thesis
          proof (cases ?c)
            case (Inl e)
            with eq m' show ?thesis by (intro late [OF _ p c' a]) auto
          next
            case (Inr db2)
            with eq show ?thesis by (intro complete [OF _ p c' a m' Inr]) auto
          qed
        qed
      qed
    qed
  qed
qed

lemma finalize_advances:
  assumes step: "finalize_upload sha detect st ora u w = (res, w')" and ok: "uploads_ok (w_db w)"
    and row: "find_upload (w_db w) (up_id u) = Some v" and verifying: "up_state v = StateVerifying"
  shows "advances (uploads (w_db w)) (uploads (w_db w'))"
proof -
  have adv1: "advances (uploads (w_db w)) (uploads db1)"
    if "update_upload (db_fails ora 2) (up_id u) (mark_finalizing hash now) (w_db w) = Inr db1" for hash now db1
    using update_upload_advances [OF that ok row] row_step.intent [OF verifying] by blast
  from step show ?thesis
  proof (cases rule: finalize_cases)
    case (late e p content db1 fs1)
    then show ?thesis by (simp add: adv1)
  next
    case (complete p content db1 fs1 db2)
    let ?now = "secs (clock ora 2)"
    let ?v = "mark_finalizing (hex_encode (sha content)) ?now v"
    from phase_c_uploads [OF complete(6)] obtain db3 where "uploads db3 = uploads db1"
      "update_upload (db_fails ora 6) (up_id u) (mark_closed StateComplete ?now) db3 = Inr db2" by blast
    moreover from this(1) have "find_upload db3 (up_id u) = Some ?v"
      using find_after_update [OF complete(4)] row by (simp add: find_upload_def mark_finalizing_def)
    moreover have "row_step ?v (mark_closed StateComplete ?now ?v)"
      by (rule row_step.commit) (simp add: mark_finalizing_def)
    moreover have "uploads_ok db3"
      using uploads_ok_advances [OF ok adv1 [OF complete(4)]] \<open>uploads db3 = uploads db1\<close> by (simp add: uploads_ok_def)
    ultimately have "advances (uploads db3) (uploads db2)"
      by (intro update_upload_advances) auto
    with adv1 [OF complete(4)] \<open>uploads db3 = uploads db1\<close> complete(7) show ?thesis
      by (simp add: advances_trans [of _ "uploads db1"])
  qed simp
qed

text \<open>How a chunk can end: refused, written to the staging file but not counted, or counted.\<close>

lemma write_cases:
  assumes step: "write_chunk sha detect st ora i offset body w = (res, w')"
  obtains (refused) "\<exists>e. res = Inl e" "w' = w"
  | (wasted) u p where "\<exists>e. res = Inl e" "get_upload (db_fails ora 0) (w_db w) i = Inr u"
      "up_state u = StateCreated \<or> up_state u = StateReceiving" "offset = up_received u"
      "open_staging_for_append st (fs_fails ora 0) (up_staging u) (w_fs w) = Inr p"
      "w' = w\<lparr>w_fs := os_append p (st_bytes body) (w_fs w)\<rparr>"
  | (counted) u p n s db1 where "get_upload (db_fails ora 0) (w_db w) i = Inr u"
      "up_state u = StateCreated \<or> up_state u = StateReceiving" "offset = up_received u"
      "open_staging_for_append st (fs_fails ora 0) (up_staging u) (w_fs w) = Inr p"
      "st_error body = None" "n = wrap64 (up_received u + int (length (st_bytes body)))" "n \<le> up_expected u"
      "s = (if n = up_expected u then StateVerifying else StateReceiving)"
      "update_upload (db_fails ora 1) i (mark_received n s (secs (clock ora 1))) (w_db w) = Inr db1"
      "(res, w') = (if s = StateVerifying
         then (case finalize_upload sha detect st ora (u\<lparr>up_received := n, up_state := s\<rparr>)
                 \<lparr>w_db = db1, w_fs = os_append p (st_bytes body) (w_fs w)\<rparr> of
                 (Inl e, w3) \<Rightarrow> (Inl (Wrap ''finalization failed'' e), w3)
               | (Inr _, w3) \<Rightarrow> (get_upload (db_fails ora 8) (w_db w3) i, w3))
         else (Inr (u\<lparr>up_received := n, up_state := s\<rparr>), \<lparr>w_db = db1, w_fs = os_append p (st_bytes body) (w_fs w)\<rparr>))"
proof (cases "get_upload (db_fails ora 0) (w_db w) i")
  case (Inl e)
  with step have "(res, w') = (Inl e, w)" by (simp add: write_chunk_def)
  then show ?thesis by (intro refused) simp_all
next
  case u: (Inr u)
  show ?thesis
  proof (cases "(up_state u = StateCreated \<or> up_state u = StateReceiving) \<and>
      \<not> up_expires u * 1000000000 < clock ora 0 \<and> offset = up_received u")
    case False
    with step u show ?thesis by (intro refused) (auto simp: write_chunk_def split: if_splits)
  next
    case guard: True
    show ?thesis
    proof (cases "open_staging_for_append st (fs_fails ora 0) (up_staging u) (w_fs w)")
      case (Inl e)
      with step u guard show ?thesis by (intro refused) (auto simp: write_chunk_def)
    next
      case p: (Inr p)
      define n where "n = wrap64 (up_received u + int (length (st_bytes body)))"
      define s where "s = (if n = up_expected u then StateVerifying else StateReceiving)"
      note eval = step [unfolded write_chunk_def Let_def] u guard p n_def [symmetric] s_def [symmetric]
      show ?thesis
      proof (cases "st_error body = None \<and> n \<le> up_expected u")
        case False
        with eval show ?thesis by (intro wasted [OF _ u _ _ p]) (auto split: option.splits)
      next
        case fits: True
        show ?thesis
        proof (cases "update_upload (db_fails ora 1) i (mark_received n s (secs (clock ora 1))) (w_db w)")
          case (Inl f)
          with eval fits show ?thesis by (intro wasted [OF _ u _ _ p]) auto
        next
          case (Inr db1)
          have pair: "w\<lparr>w_fs := f, w_db := d\<rparr> = \<lparr>w_db = d, w_fs = f\<rparr>" for f d by simp
          have "(res, w') = (if s = StateVerifying
             then (case finalize_upload sha detect st ora (u\<lparr>up_received := n, up_state := s\<rparr>)
                     \<lparr>w_db = db1, w_fs = os_append p (st_bytes body) (w_fs w)\<rparr> of
                     (Inl e, w3) \<Rightarrow> (Inl (Wrap ''finalization failed'' e), w3)
                   | (Inr _, w3) \<Rightarrow> (get_upload (db_fails ora 8) (w_db w3) i, w3))
             else (Inr (u\<lparr>up_received := n, up_state := s\<rparr>), \<lparr>w_db = db1, w_fs = os_append p (st_bytes body) (w_fs w)\<rparr>))"
          proof (cases "n = up_expected u")
            case True
            with Inr have "s = StateVerifying" "update_upload (db_fails ora 1) i
                (mark_received n StateVerifying (secs (clock ora 1))) (w_db w) = Inr db1"
              by (simp_all add: s_def)
            with True show ?thesis unfolding step [symmetric] write_chunk_def Let_def
              using guard fits by (auto simp: u p n_def [symmetric] pair not_less simp del: One_nat_def)
          next
            case False
            with Inr have "s = StateReceiving" "update_upload (db_fails ora 1) i
                (mark_received n StateReceiving (secs (clock ora 1))) (w_db w) = Inr db1"
              by (simp_all add: s_def)
            with False show ?thesis unfolding step [symmetric] write_chunk_def Let_def
              using guard fits by (auto simp: u p n_def [symmetric] pair not_less simp del: One_nat_def)
          qed
          with guard fits show ?thesis
            by (intro counted [OF u _ _ p _ n_def _ s_def Inr]) auto
        qed
      qed
    qed
  qed
qed

lemma write_chunk_advances:
  assumes step: "write_chunk sha detect st ora i offset body w = (res, w')" and ok: "uploads_ok (w_db w)"
    and len: "int (length (st_bytes body)) < 2 ^ 63"
  shows "advances (uploads (w_db w)) (uploads (w_db w'))"
  using step
proof (cases rule: write_cases)
  case (counted u p n s db1)
  then have find: "find_upload (w_db w) i = Some u" by (auto simp: get_upload_def split: option.splits)
  with ok have row: "u \<in> set (uploads (w_db w))" "up_id u = i" "row_ok u"
    by (auto simp: find_upload_iff uploads_ok_def)
  have "0 \<le> n"
  proof -
    let ?f = "mark_received n s (secs (clock ora 1))"
    have "?f u \<in> set (update_where (\<lambda>u. up_id u = i) ?f (uploads (w_db w)))"
      using row(1,2) by (force simp: set_update_where)
    with counted(9) have "0 \<le> up_received (?f u)" by (auto simp: update_upload_Inr)
    then show ?thesis by (simp add: mark_received_def)
  qed
  with row(3) len have exact: "n = up_received u + int (length (st_bytes body))"
    unfolding counted(6) row_ok_def by (intro wrap64_nonneg_add) auto
  have step1: "row_step u (mark_received n s (secs (clock ora 1)) u)"
  proof (cases "n = up_expected u")
    case True
    with row_step.verify [of u] counted(2,8) row(3) show ?thesis by (simp add: row_ok_def)
  next
    case False
    with row_step.receive [of u n] counted(2,7,8) exact show ?thesis by simp
  qed
  from update_upload_advances [OF counted(9) ok find r_into_rtranclp [of row_step, OF step1]]
  have adv1: "advances (uploads (w_db w)) (uploads db1)" .
  show ?thesis
  proof (cases "s = StateVerifying")
    case True
    let ?u1 = "u\<lparr>up_received := n, up_state := s\<rparr>"
    let ?w2 = "\<lparr>w_db = db1, w_fs = os_append p (st_bytes body) (w_fs w)\<rparr>"
    obtain r w3 where fin: "finalize_upload sha detect st ora ?u1 ?w2 = (r, w3)" by fastforce
    have "find_upload db1 i = Some (mark_received n s (secs (clock ora 1)) u)"
      using find_after_update [OF counted(9)] find by (simp add: mark_received_def)
    then have "advances (uploads db1) (uploads (w_db w3))"
      using finalize_advances [OF fin] uploads_ok_advances [OF ok adv1] row(2) True
      by (simp add: mark_received_def)
    moreover have "w' = w3" using counted(10) True fin by (auto split: sum.splits)
    ultimately show ?thesis using adv1 by (simp add: advances_trans [of _ "uploads db1"])
  qed (use counted(10) adv1 in simp)
qed auto

lemma terminate_advances:
  assumes step: "terminate_upload st ora i w = (res, w')" and ok: "uploads_ok (w_db w)"
  shows "advances (uploads (w_db w)) (uploads (w_db w'))"
proof (cases "w_db w' = w_db w")
  case False
  with step obtain u where u: "get_upload (db_fails ora 0) (w_db w) i = Inr u" "up_state u \<noteq> StateComplete"
    and upd: "update_upload (db_fails ora 1) i (mark_closed StateTerminated (secs (clock ora 0))) (w_db w) = Inr (w_db w')"
    by (auto simp: terminate_upload_def split: sum.splits if_splits)
  from u(1) have "find_upload (w_db w) i = Some u" by (auto simp: get_upload_def split: option.splits)
  with update_upload_advances [OF upd ok] row_step.terminate [OF u(2)] show ?thesis by blast
qed simp

section \<open>Reconciling\<close>

text \<open>A change of one upload only: its row advances, every other row stays.\<close>

definition touches :: "string \<Rightarrow> database \<Rightarrow> database \<Rightarrow> bool" where
  "touches i db db' \<longleftrightarrow> advances (uploads db) (uploads db') \<and>
     (\<forall>j. j \<noteq> i \<longrightarrow> find_upload db' j = find_upload db j)"

lemma touches_same: "uploads db' = uploads db \<Longrightarrow> touches i db db'"
  by (simp add: touches_def find_upload_def)

lemma touches_attempt:
  assumes "uploads_ok db" and "find_upload db i = Some u" and "row_step u (f u)" and "\<And>v. up_id (f v) = up_id v"
  shows "touches i db (attempt (update_upload flt i f db) db)"
proof (cases "update_upload flt i f db")
  case (Inr db')
  with assms update_upload_advances [OF Inr assms(1,2) r_into_rtranclp [of row_step, OF assms(3)]]
    find_after_update [OF Inr assms(4)] show ?thesis by (simp add: touches_def attempt_def)
qed (simp add: touches_same attempt_def)

lemma attempt_uploads:
  "uploads (attempt (insert_node flt r db) db) = uploads db" "uploads (attempt (insert_file flt f db) db) = uploads db"
  by (auto simp: attempt_def other_statements_uploads split: sum.split)

lemma touches_attempt_later:
  assumes same: "uploads db2 = uploads db" and "uploads_ok db" and "find_upload db i = Some u"
    and "row_step u (f u)" and "\<And>v. up_id (f v) = up_id v"
  shows "touches i db (attempt (update_upload flt i f db2) db2)"
proof -
  have "uploads_ok db2" "find_upload db2 i = Some u"
    using assms by (simp_all add: uploads_ok_def find_upload_def)
  from touches_attempt [OF this assms(4,5)] have "touches i db2 (attempt (update_upload flt i f db2) db2)" .
  then show ?thesis by (simp add: touches_def find_upload_def same)
qed

lemma touches_phase_c_blind:
  assumes ok: "uploads_ok db" and u: "find_upload db (up_id u) = Some u" and st: "up_state u = StateFinalizing"
  shows "touches (up_id u) db (phase_c_blind ora u now db)"
proof -
  have "touches (up_id u) db (attempt (update_upload flt (up_id u) (mark_closed StateComplete now) db2) db2)"
    if "uploads db2 = uploads db" for flt db2
    using row_step.commit [OF st] by (intro touches_attempt_later [OF that ok u]) (simp_all add: mark_closed_def)
  then show ?thesis
    by (simp add: phase_c_blind_def Let_def touches_same attempt_uploads split: sum.split)
qed

lemma touches_resolve:
  assumes "uploads_ok (w_db w)" and "find_upload (w_db w) (up_id u) = Some u" and "up_state u = StateFinalizing"
  shows "touches (up_id u) (w_db w) (w_db (resolve_one st ora now u w))"
proof -
  note one = touches_attempt [OF assms(1,2)] touches_phase_c_blind [OF assms] touches_same [of "w_db w" "w_db w"]
  show ?thesis
    using one(1) [of "mark_closed StateComplete now"] one(1) [of "mark_closed StateFailed now"] one(2,3) assms(3)
    by (auto simp: resolve_one_def Let_def mark_closed_def [of _ _ "_ :: upload_row"] row_step.commit [unfolded mark_closed_def]
        row_step.lost [unfolded mark_closed_def] split: sum.split prod.split)
qed

lemma touches_expire:
  assumes "uploads_ok (w_db w)" and "find_upload (w_db w) (up_id u) = Some u"
    and "up_state u \<in> {StateCreated, StateReceiving}"
  shows "touches (up_id u) (w_db w) (w_db (expire_one st ora now u w))"
  using touches_attempt [OF assms(1,2), of "mark_closed StateExpired now"] row_step.expire [OF assms(3)]
  by (simp add: expire_one_def mark_closed_def)

lemma visit_all_touches:
  assumes "\<And>k u w. u \<in> set us \<Longrightarrow> uploads_ok (w_db w) \<Longrightarrow> find_upload (w_db w) (up_id u) = Some u \<Longrightarrow>
      touches (up_id u) (w_db w) (w_db (f k u w))"
    and "distinct (map up_id us)" and "\<And>u. u \<in> set us \<Longrightarrow> find_upload (w_db w) (up_id u) = Some u"
    and "uploads_ok (w_db w)"
  shows "advances (uploads (w_db w)) (uploads (w_db (visit_all f k us w))) \<and>
    (\<forall>j. j \<notin> up_id ` set us \<longrightarrow> find_upload (w_db (visit_all f k us w)) j = find_upload (w_db w) j)"
  using assms
proof (induction us arbitrary: k w)
  case (Cons u us)
  have first: "touches (up_id u) (w_db w) (w_db (f k u w))" by (rule Cons.prems) (use Cons.prems in auto)
  have rest: "advances (uploads (w_db (f k u w))) (uploads (w_db (visit_all f (Suc k) us (f k u w)))) \<and>
    (\<forall>j. j \<notin> up_id ` set us \<longrightarrow> find_upload (w_db (visit_all f (Suc k) us (f k u w))) j = find_upload (w_db (f k u w)) j)"
  proof (rule Cons.IH)
    show "uploads_ok (w_db (f k u w))"
      using uploads_ok_advances [OF Cons.prems(4)] first by (simp add: touches_def)
    show "find_upload (w_db (f k u w)) (up_id v) = Some v" if "v \<in> set us" for v
    proof -
      have "up_id v \<noteq> up_id u" using Cons.prems(2) that by (auto simp: image_iff)
      with first Cons.prems(3) [of v] that show ?thesis by (simp add: touches_def)
    qed
  qed (use Cons.prems in auto)
  with first show ?case by (auto simp: touches_def intro: advances_trans)
qed simp

lemma distinct_map_sort_key: "distinct (map f (sort_key g xs)) = distinct (map f xs)"
  by (simp add: distinct_map)

lemma stale_uploads_rows:
  assumes "uploads_ok db"
  shows "distinct (map up_id (stale_uploads now db))"
    and "u \<in> set (stale_uploads now db) \<longleftrightarrow>
      u \<in> set (uploads db) \<and> up_state u \<in> {StateCreated, StateReceiving} \<and> up_expires u < now"
proof -
  have dist: "distinct (map up_id (uploads db))" using assms by (simp add: uploads_ok_def)
  have "up_id ` {u \<in> set (uploads db). up_state u = StateCreated \<and> up_expires u < now} \<inter>
      up_id ` {u \<in> set (uploads db). up_state u = StateReceiving \<and> up_expires u < now} = {}"
    by (auto dest: key_inj [OF dist])
  then show "distinct (map up_id (stale_uploads now db))"
    using dist by (simp add: stale_uploads_def distinct_map_filter distinct_map_sort_key)
qed (auto simp: stale_uploads_def)

lemma finalizing_uploads_rows:
  assumes "uploads_ok db"
  shows "distinct (map up_id (finalizing_uploads db))"
    and "u \<in> set (finalizing_uploads db) \<longleftrightarrow> u \<in> set (uploads db) \<and> up_state u = StateFinalizing"
  using assms by (auto simp: finalizing_uploads_def uploads_ok_def distinct_map intro: inj_on_subset)

text \<open>The first loop and the whole of \<open>Reconcile\<close>.\<close>

lemma expire_all_touches:
  fixes stale now st w
  defines "w1 \<equiv> visit_all (\<lambda>k. expire_one st (stale k) now) 0 (stale_uploads now (w_db w)) w"
  assumes ok: "uploads_ok (w_db w)"
  shows "advances (uploads (w_db w)) (uploads (w_db w1))"
    and "j \<notin> up_id ` set (stale_uploads now (w_db w)) \<Longrightarrow> find_upload (w_db w1) j = find_upload (w_db w) j"
proof -
  have "advances (uploads (w_db w)) (uploads (w_db w1)) \<and>
    (\<forall>j. j \<notin> up_id ` set (stale_uploads now (w_db w)) \<longrightarrow> find_upload (w_db w1) j = find_upload (w_db w) j)"
    unfolding w1_def
  proof (rule visit_all_touches [OF _ stale_uploads_rows(1) [OF ok] _ ok])
    fix k u and w' :: world assume u: "u \<in> set (stale_uploads now (w_db w))" "uploads_ok (w_db w')" "find_upload (w_db w') (up_id u) = Some u"
    then show "touches (up_id u) (w_db w') (w_db (expire_one st (stale k) now u w'))"
      by (intro touches_expire) (simp_all add: stale_uploads_rows(2) [OF ok])
  qed (use ok in \<open>auto simp: stale_uploads_rows find_upload_iff\<close>)
  then show "advances (uploads (w_db w)) (uploads (w_db w1))"
    and "j \<notin> up_id ` set (stale_uploads now (w_db w)) \<Longrightarrow> find_upload (w_db w1) j = find_upload (w_db w) j"
    by blast+
qed

lemma resolve_all_touches:
  fixes final now st w
  defines "w1 \<equiv> visit_all (\<lambda>k. resolve_one st (final k) now) 0 (finalizing_uploads (w_db w)) w"
  assumes ok: "uploads_ok (w_db w)"
  shows "advances (uploads (w_db w)) (uploads (w_db w1))"
    and "j \<notin> up_id ` set (finalizing_uploads (w_db w)) \<Longrightarrow> find_upload (w_db w1) j = find_upload (w_db w) j"
proof -
  have "advances (uploads (w_db w)) (uploads (w_db w1)) \<and>
    (\<forall>j. j \<notin> up_id ` set (finalizing_uploads (w_db w)) \<longrightarrow> find_upload (w_db w1) j = find_upload (w_db w) j)"
    unfolding w1_def
  proof (rule visit_all_touches [OF _ finalizing_uploads_rows(1) [OF ok] _ ok])
    fix k u and w' :: world assume u: "u \<in> set (finalizing_uploads (w_db w))" "uploads_ok (w_db w')" "find_upload (w_db w') (up_id u) = Some u"
    then show "touches (up_id u) (w_db w') (w_db (resolve_one st (final k) now u w'))"
      by (intro touches_resolve) (simp_all add: finalizing_uploads_rows(2) [OF ok])
  qed (use ok in \<open>auto simp: finalizing_uploads_rows find_upload_iff\<close>)
  then show "advances (uploads (w_db w)) (uploads (w_db w1))"
    and "j \<notin> up_id ` set (finalizing_uploads (w_db w)) \<Longrightarrow> find_upload (w_db w1) j = find_upload (w_db w) j"
    by blast+
qed

lemma reconcile_advances:
  assumes "reconcile st ora stale final w = (res, w')" and ok: "uploads_ok (w_db w)"
  shows "advances (uploads (w_db w)) (uploads (w_db w'))"
proof -
  define now where "now = secs (clock ora 0)"
  define w1 where "w1 = (if db_fails ora 0 = None
     then visit_all (\<lambda>k. expire_one st (stale k) now) 0 (stale_uploads now (w_db w)) w else w)"
  have adv1: "advances (uploads (w_db w)) (uploads (w_db w1))"
    using expire_all_touches(1) [OF ok] by (simp add: w1_def)
  with ok have ok1: "uploads_ok (w_db w1)" by (rule uploads_ok_advances)
  have "w' = w1 \<or> w' = visit_all (\<lambda>k. resolve_one st (final k) now) 0 (finalizing_uploads (w_db w1)) w1"
    using assms(1) unfolding reconcile_def Let_def now_def [symmetric] w1_def [symmetric] by (auto split: option.splits)
  with adv1 resolve_all_touches(1) [OF ok1] show ?thesis by (metis advances_trans)
qed

end
