(* ===== verification/Upload_Inv.thy ===== *)
theory Upload_Inv
  imports Upload_Life
begin

text \<open>
  The state machine of the whole write side of the program: node operations, uploads and
  reconciliation on one database and one file tree. Its invariant (tree, file objects, uploads
  and the folders they go to) under any failures, and the storage quota when the database
  and the file system answer.
\<close>

section \<open>What node operations do to the other tables\<close>

text \<open>The effect of one step of the node service, seen from the uploads.\<close>

definition keeps_folders :: "database \<Rightarrow> database \<Rightarrow> bool" where
  "keeps_folders db db' \<longleftrightarrow> uploads db' = uploads db \<and> stored_bytes db' \<le> stored_bytes db \<and>
     (\<forall>q \<in> set (nodes db). (\<exists>u \<in> set (uploads db). up_parent u = nr_id q) \<longrightarrow>
        (\<exists>q' \<in> set (nodes db'). nr_id q' = nr_id q \<and> nr_kind q' = nr_kind q))"

lemma keeps_folders_refl [simp]: "keeps_folders db db"
  by (auto simp: keeps_folders_def)

lemma keeps_folders_map:
  assumes "nodes db' = map g (nodes db)" and "\<And>r. nr_id (g r) = nr_id r" "\<And>r. nr_kind (g r) = nr_kind r"
    and "uploads db' = uploads db" "file_objects db' = file_objects db"
  shows "keeps_folders db db'"
  using assms by (force simp: keeps_folders_def stored_bytes_def)

lemma stored_bytes_delete:
  "(\<And>f. f \<in> set (file_objects db) \<Longrightarrow> 0 \<le> fr_size f) \<Longrightarrow>
   file_objects db' = delete_where P (file_objects db) \<Longrightarrow> stored_bytes db' \<le> stored_bytes db"
  by (simp add: stored_bytes_def sum_where_delete_le)

lemma keeps_folders_delete:
  "delete_each is db = Inr db' \<Longrightarrow> files_ok db \<Longrightarrow> keeps_folders db db'"
proof -
  assume del: "delete_each is db = Inr db'" and ok: "files_ok db"
  have refs: "delete_each is db = Inr db' \<Longrightarrow> u \<in> set (uploads db) \<Longrightarrow> up_parent u \<notin> set is" for u db
  proof (induction "is" arbitrary: db)
    case (Cons i "is")
    then obtain db1 where db1: "delete_node i db = Inr db1" "delete_each is db1 = Inr db'"
      by (auto split: sum.splits)
    from db1(1) Cons.prems(2) have "up_parent u \<noteq> i" "u \<in> set (uploads db1)"
      by (auto simp: delete_node_def Let_def list_ex_iff split: if_splits)
    with Cons.IH [OF db1(2)] show ?case by simp
  qed simp
  note rows = delete_each_rows [OF del]
  have "stored_bytes db' \<le> stored_bytes db"
    by (rule stored_bytes_delete [where P = "\<lambda>f. fr_node f \<in> set is"]) (use ok rows in \<open>auto simp: files_ok_def\<close>)
  moreover have "q \<in> set (nodes db')" if "q \<in> set (nodes db)" "u \<in> set (uploads db)" "up_parent u = nr_id q" for q u
    using refs [OF del that(2)] that rows by simp
  ultimately show ?thesis using rows by (auto simp: keeps_folders_def)
qed

lemma files_step_keeps:
  assumes step: "files_step db db'" and ok: "files_ok db"
  shows "keeps_folders db db'"
proof -
  from ok have tree: "tree_ok (nodes db)" by auto
  have upd: "keeps_folders db db'" if "update_nodes flt P f db = Inr db'" "\<And>r. nr_id (f r) = nr_id r" "\<And>r. nr_kind (f r) = nr_kind r"
    for flt P f
    using that by (intro keeps_folders_map [where g = "\<lambda>r. if P r then f r else r"])
      (auto simp: update_nodes_Inr update_where_def)
  have tag: "keeps_folders db (db\<lparr>nodes := map (retag (nodes db) i f t) (nodes db)\<rparr>)"
    if "\<And>r. nr_id (f r) = nr_id r" "\<And>r. nr_kind (f r) = nr_kind r" for i f t
    using that by (intro keeps_folders_map [where g = "retag (nodes db) i f t"])
      (simp_all add: retag_def set_trashed_def)
  from step show ?thesis
  proof cases
    case (create env ora parent name res)
    then have "db' = db \<or> (\<exists>r. db' = db\<lparr>nodes := nodes db @ [r]\<rparr>)"
      by (auto simp: create_folder_def insert_node_Inr split: sum.splits prod.splits)
    then show ?thesis by (auto simp: keeps_folders_def stored_bytes_def)
  next
    case (rename env ora i name res)
    then have "db' = db \<or> (\<exists>flt P d k t. update_nodes flt P (rename_row d k t) db = Inr db')"
      by (auto simp: rename_node_def split: sum.splits prod.splits if_splits)
    then show ?thesis using upd by (auto simp: rename_row_def)
  next
    case (move ora i p res)
    then have "db' = db \<or> (\<exists>flt P q t. update_nodes flt P (move_row q t) db = Inr db')"
      by (auto simp: move_node_def split: sum.splits option.splits if_splits)
    then show ?thesis using upd by (auto simp: move_row_def)
  next
    case (trash ora i res)
    show ?thesis
    proof (cases res)
      case (Inl e)
      with trash have "db' = db" by (auto simp: trash_node_def split: sum.splits if_splits option.splits)
      then show ?thesis by simp
    next
      case (Inr u)
      with trash_node_effect(1) [OF trash [unfolded Inr] tree] tag show ?thesis by (simp add: trash_row_def)
    qed
  next
    case (restore ora i res)
    show ?thesis
    proof (cases "db' = db")
      case False
      from restore_node_effect [OF restore tree disjI1 [OF False]] obtain p where
        "db' = db\<lparr>nodes := map (retag (nodes db) i (restore_row p (secs (clock ora 0))) None) (nodes db)\<rparr>"
        by metis
      with tag show ?thesis by (simp add: restore_row_def)
    qed simp
  next
    case (purge ora i keys)
    show ?thesis
    proof (cases "db' = db")
      case False
      with purge obtain ids where "delete_nodes None ids db = Inr db'"
        by (auto simp: purge_node_def delete_subtree_def split: sum.splits if_splits option.splits)
      with ok show ?thesis by (auto simp: delete_nodes_def intro: keeps_folders_delete)
    qed simp
  next
    case (backup ora i sel res)
    have same: "stored_bytes (db\<lparr>file_objects := update_where P (backup_row sel t) (file_objects db)\<rparr>) = stored_bytes db" for P t
    proof -
      have "sum_where (\<lambda>_. True) fr_size (update_where P (backup_row sel t) fs) = sum_where (\<lambda>_. True) fr_size fs" for fs
        by (induction fs) (auto simp: backup_row_def)
      then show ?thesis by (simp add: stored_bytes_def)
    qed
    from backup have "db' = db \<or> (\<exists>P t. db' = db\<lparr>file_objects := update_where P (backup_row sel t) (file_objects db)\<rparr>)"
      by (auto simp: toggle_backup_def update_files_Inr split: sum.splits if_splits)
    with same show ?thesis by (auto simp: keeps_folders_def)
  qed
qed

section \<open>The invariant\<close>

definition upload_folders_ok :: "database \<Rightarrow> bool" where
  "upload_folders_ok db \<longleftrightarrow>
     (\<forall>u \<in> set (uploads db). \<exists>q \<in> set (nodes db). nr_id q = up_parent u \<and> nr_kind q = KindFolder)"

definition store_ok :: "database \<Rightarrow> bool" where
  "store_ok db \<longleftrightarrow> files_ok db \<and> uploads_ok db \<and> upload_folders_ok db"

lemma store_okD: "store_ok db \<Longrightarrow> files_ok db" "store_ok db \<Longrightarrow> uploads_ok db" "store_ok db \<Longrightarrow> upload_folders_ok db"
  by (simp_all add: store_ok_def)

lemma store_ok_files_step: "files_step db db' \<Longrightarrow> store_ok db \<Longrightarrow> store_ok db'"
proof -
  assume step: "files_step db db'" and ok: "store_ok db"
  from files_step_keeps [OF step store_okD(1) [OF ok]] have keep: "keeps_folders db db'" .
  then have "uploads_ok db'" using store_okD(2) [OF ok] by (simp add: keeps_folders_def uploads_ok_def)
  moreover have "upload_folders_ok db'"
    using keep store_okD(3) [OF ok] unfolding keeps_folders_def upload_folders_ok_def by metis
  ultimately show ?thesis using files_step_ok [OF step store_okD(1) [OF ok]] by (simp add: store_ok_def)
qed

text \<open>Uploads that advance keep their folders.\<close>

lemma upload_folders_advance:
  assumes "upload_folders_ok db" and "advances (uploads db) (uploads db')"
    and "set (nodes db) \<subseteq> set (nodes db')"
  shows "upload_folders_ok db'"
  unfolding upload_folders_ok_def
proof
  fix v assume "v \<in> set (uploads db')"
  with assms(2) obtain u where "u \<in> set (uploads db)" "row_step\<^sup>*\<^sup>* u v" by (blast dest: advances_row_back)
  moreover from row_steps_same [OF this(2)] have "up_parent v = up_parent u" by (simp add: same_upload_def)
  ultimately show "\<exists>q \<in> set (nodes db'). nr_id q = up_parent v \<and> nr_kind q = KindFolder"
    using assms(1,3) by (metis upload_folders_ok_def subsetD)
qed

text \<open>The node and the file object of a finished upload.\<close>

lemma upload_node_ok:
  assumes "insert_node flt (upload_node i u now) db = Inr db'" and "files_ok db" and "i \<noteq> []"
    and "\<exists>q \<in> set (nodes db). nr_id q = up_parent u \<and> nr_kind q = KindFolder"
  shows "files_ok db'"
proof -
  from assms(4) obtain q where q: "q \<in> set (nodes db)" "nr_id q = up_parent u" "nr_kind q = KindFolder" by blast
  let ?r = "upload_node i u now"
  from assms(1) have new: "nr_id ?r \<notin> nr_id ` set (nodes db)" "siblings_unique (nodes db @ [?r])"
      "db' = db\<lparr>nodes := nodes db @ [?r]\<rparr>" by (simp_all add: insert_node_Inr)
  have "tree_ok (nodes db @ [?r])"
    using assms(2,3) q new(1,2)
    by (intro tree_ok_add [where q = q and p = "up_parent u"]) (auto simp: upload_node_def new_node_def)
  with assms(2) new(3) show ?thesis by (auto intro: files_ok_nodes)
qed

lemma upload_file_ok: "insert_file flt f db = Inr db' \<Longrightarrow> files_ok db \<Longrightarrow> files_ok db'"
  by (auto simp: insert_file_Inr files_ok_def)

lemma update_upload_files: "update_upload flt i f db = Inr db' \<Longrightarrow> files_ok db' = files_ok db \<and> nodes db' = nodes db"
  by (auto simp: update_upload_Inr files_ok_def)

lemma insert_file_nodes: "insert_file flt f db = Inr db' \<Longrightarrow> nodes db' = nodes db"
  by (auto simp: insert_file_Inr)

definition upload_folder_at :: "database \<Rightarrow> upload_row \<Rightarrow> bool" where
  "upload_folder_at db u \<longleftrightarrow> (\<exists>q \<in> set (nodes db). nr_id q = up_parent u \<and> nr_kind q = KindFolder)"

lemma phase_c_files:
  assumes "phase_c ora u mime hash now db = Inr db'" and "files_ok db" and "uuid ora 0 \<noteq> []" and "upload_folder_at db u"
  shows "files_ok db' \<and> set (nodes db) \<subseteq> set (nodes db')"
  using assms(1)
proof (rule phase_c_Inr)
  let ?r = "upload_node (uuid ora 0) u now"
  fix db2
  assume n: "insert_node None ?r db = Inr (db\<lparr>nodes := nodes db @ [?r]\<rparr>)"
    and f: "insert_file None (upload_file (uuid ora 0) u mime hash now) (db\<lparr>nodes := nodes db @ [?r]\<rparr>) = Inr db2"
    and c: "update_upload (db_fails ora 6) (up_id u) (mark_closed StateComplete now) db2 = Inr db'"
  from upload_node_ok [OF n assms(2,3)] assms(4) have "files_ok (db\<lparr>nodes := nodes db @ [?r]\<rparr>)"
    by (simp add: upload_folder_at_def)
  from upload_file_ok [OF f this] insert_file_nodes [OF f] update_upload_files [OF c] show ?thesis by auto
qed

lemma phase_c_blind_files:
  assumes "files_ok db" and "uuid ora 0 \<noteq> []" and "upload_folder_at db u"
  shows "files_ok (phase_c_blind ora u now db) \<and> set (nodes db) \<subseteq> set (nodes (phase_c_blind ora u now db))"
proof -
  let ?db1 = "attempt (insert_node (db_fails ora 2) (upload_node (uuid ora 0) u now) db) db"
  have 1: "files_ok ?db1 \<and> set (nodes db) \<subseteq> set (nodes ?db1)"
  proof (cases "insert_node (db_fails ora 2) (upload_node (uuid ora 0) u now) db")
    case (Inr db1)
    with upload_node_ok [OF Inr assms(1,2)] assms(3) have "files_ok db1" by (simp add: upload_folder_at_def)
    moreover from Inr have "set (nodes db) \<subseteq> set (nodes db1)" by (auto simp: insert_node_Inr)
    ultimately show ?thesis using Inr by (simp add: attempt_def)
  qed (use assms(1) in \<open>simp add: attempt_def\<close>)
  have 2: "files_ok (attempt (insert_file flt f ?db1) ?db1) \<and> nodes (attempt (insert_file flt f ?db1) ?db1) = nodes ?db1" for flt f
    using 1 by (auto simp: attempt_def dest: upload_file_ok insert_file_nodes split: sum.split)
  have 3: "files_ok (attempt (update_upload flt i g db2) db2) = files_ok db2 \<and>
      nodes (attempt (update_upload flt i g db2) db2) = nodes db2" for flt i g db2
    by (auto simp: attempt_def dest: update_upload_files split: sum.split)
  show ?thesis
    using 1 2 3 assms(1) by (simp add: phase_c_blind_def Let_def split: sum.split)
qed

section \<open>The upload operations keep the invariant\<close>

lemma store_ok_advance:
  assumes "store_ok db" and "advances (uploads db) (uploads db')" and "files_ok db'" and "set (nodes db) \<subseteq> set (nodes db')"
  shows "store_ok db'"
  using assms upload_folders_advance uploads_ok_advances unfolding store_ok_def by blast

lemma create_upload_effect:
  assumes "create_upload env cfg st sf ora owner parent name expected w = (res, w')" and "w_db w' \<noteq> w_db w"
  obtains disp key q where "0 \<le> expected" "expected \<le> MaxFileBytes cfg" "normalize_name env name = Inr (disp, key)"
    "find_node (w_db w) (upload_parent parent) = Some q" "nr_kind q = KindFolder" "nr_trashed q = None"
    "\<not> sibling_conflict (w_db w) (upload_parent parent) key" "check_space cfg ora sf expected (w_db w) = Inr ()"
    "insert_upload (db_fails ora 4) (new_upload cfg ora owner (upload_parent parent) disp key expected) (w_db w) = Inr (w_db w')"
proof -
  from assms obtain disp key p where "0 \<le> expected" "expected \<le> MaxFileBytes cfg" "normalize_name env name = Inr (disp, key)"
    "get_node (db_fails ora 0) (w_db w) (upload_parent parent) = Inr p" "check_folder p = Inr ()"
    "\<not> sibling_conflict (w_db w) (upload_parent parent) key" "check_space cfg ora sf expected (w_db w) = Inr ()"
    "insert_upload (db_fails ora 4) (new_upload cfg ora owner (upload_parent parent) disp key expected) (w_db w) = Inr (w_db w')"
    by (auto simp: create_upload_def Let_def not_less split: if_splits sum.splits prod.splits option.splits)
  then show ?thesis using that by (auto simp: get_node_Inr check_folder_Inr)
qed

lemma new_upload_row_ok: "0 \<le> expected \<Longrightarrow> in_int64 expected \<Longrightarrow> row_ok (new_upload cfg ora owner parent disp key expected)"
  by (simp add: row_ok_def new_upload_def active_states_def in_int64_def)

lemma create_upload_ok:
  assumes step: "create_upload env cfg st sf ora owner parent name expected w = (res, w')" and ok: "store_ok (w_db w)"
    and len: "in_int64 expected"
  shows "store_ok (w_db w')"
proof (cases "w_db w' = w_db w")
  case False
  with step obtain disp key q where *: "0 \<le> expected" "find_node (w_db w) (upload_parent parent) = Some q" "nr_kind q = KindFolder"
    "insert_upload (db_fails ora 4) (new_upload cfg ora owner (upload_parent parent) disp key expected) (w_db w) = Inr (w_db w')"
    by (rule create_upload_effect)
  let ?u = "new_upload cfg ora owner (upload_parent parent) disp key expected"
  from *(4) have new: "up_id ?u \<notin> up_id ` set (uploads (w_db w))" "w_db w' = (w_db w)\<lparr>uploads := uploads (w_db w) @ [?u]\<rparr>"
    by (simp_all add: insert_upload_Inr)
  have "up_parent ?u = upload_parent parent" by (simp add: new_upload_def)
  moreover from *(2,3) have "\<exists>q \<in> set (nodes (w_db w)). nr_id q = upload_parent parent \<and> nr_kind q = KindFolder"
    by (auto dest: find_nodeD)
  ultimately show ?thesis
    using ok new new_upload_row_ok [OF *(1) len, of cfg ora owner "upload_parent parent" disp key]
    by (auto simp: store_ok_def files_ok_def uploads_ok_def upload_folders_ok_def)
qed (use ok in simp)

lemma upload_folder_find:
  "store_ok db \<Longrightarrow> find_upload db i = Some u \<Longrightarrow> upload_folder_at db u"
  using find_upload_iff [OF store_okD(2)] store_okD(3) by (auto simp: upload_folders_ok_def upload_folder_at_def)

lemma upload_folder_mark [simp]:
  "upload_folder_at db (u\<lparr>up_received := n, up_state := s\<rparr>) = upload_folder_at db u"
  by (simp add: upload_folder_at_def)

lemma finalize_files:
  assumes step: "finalize_upload sha detect st ora u w = (res, w')" and "files_ok (w_db w)"
    and "uuid ora 0 \<noteq> []" and "upload_folder_at (w_db w) u"
  shows "files_ok (w_db w') \<and> set (nodes (w_db w)) \<subseteq> set (nodes (w_db w'))"
  using step
proof (cases rule: finalize_cases)
  case (late e p content db1 fs1)
  with update_upload_files [OF late(4)] assms(2) show ?thesis by simp
next
  case (complete p content db1 fs1 db2)
  from update_upload_files [OF complete(4)] assms(2,4) have "files_ok db1" "upload_folder_at db1 u" "nodes db1 = nodes (w_db w)"
    by (simp_all add: upload_folder_at_def)
  with phase_c_files [OF complete(6) _ assms(3)] complete(7) show ?thesis by simp
qed (use assms(2) in simp)

lemma write_chunk_ok:
  assumes step: "write_chunk sha detect st ora i offset body w = (res, w')" and ok: "store_ok (w_db w)"
    and id: "uuid ora 0 \<noteq> []" and len: "int (length (st_bytes body)) < 2 ^ 63"
  shows "store_ok (w_db w')"
proof (rule store_ok_advance [OF ok write_chunk_advances [OF step store_okD(2) [OF ok] len]])
  from step have "files_ok (w_db w') \<and> set (nodes (w_db w)) \<subseteq> set (nodes (w_db w'))"
  proof (cases rule: write_cases)
    case (counted u p n s db1)
    let ?u1 = "u\<lparr>up_received := n, up_state := s\<rparr>"
    let ?w2 = "\<lparr>w_db = db1, w_fs = os_append p (st_bytes body) (w_fs w)\<rparr>"
    from counted(1) have "find_upload (w_db w) i = Some u" by (auto simp: get_upload_def split: option.splits)
    with upload_folder_find [OF ok] have "upload_folder_at (w_db w) u" by blast
    with update_upload_files [OF counted(9)] store_okD(1) [OF ok]
    have db1: "files_ok db1" "nodes db1 = nodes (w_db w)" "upload_folder_at db1 u" by (simp_all add: upload_folder_at_def)
    obtain r w3 where fin: "finalize_upload sha detect st ora ?u1 ?w2 = (r, w3)" by fastforce
    have "w' = (if s = StateVerifying then w3 else ?w2)"
      using counted(10) fin by (auto split: if_splits sum.splits)
    with finalize_files [OF fin _ id] db1 show ?thesis by simp
  qed (use store_okD(1) [OF ok] in auto)
  then show "files_ok (w_db w')" "set (nodes (w_db w)) \<subseteq> set (nodes (w_db w'))" by simp_all
qed

lemma terminate_ok:
  assumes step: "terminate_upload st ora i w = (res, w')" and ok: "store_ok (w_db w)"
  shows "store_ok (w_db w')"
proof (rule store_ok_advance [OF ok terminate_advances [OF step store_okD(2) [OF ok]]])
  have "w_db w' = w_db w \<or> (\<exists>flt f. update_upload flt i f (w_db w) = Inr (w_db w'))"
    using step by (auto simp: terminate_upload_def split: sum.splits if_splits)
  with store_okD(1) [OF ok] show "files_ok (w_db w')" "set (nodes (w_db w)) \<subseteq> set (nodes (w_db w'))"
    by (auto dest: update_upload_files)
qed

lemma expire_one_files:
  "files_ok (w_db (expire_one st ora now u w)) = files_ok (w_db w) \<and> nodes (w_db (expire_one st ora now u w)) = nodes (w_db w)"
  by (auto simp: expire_one_def attempt_def dest: update_upload_files split: sum.split)

lemma resolve_one_files:
  assumes "files_ok (w_db w)" and "uuid ora 0 \<noteq> []" and "upload_folder_at (w_db w) u"
  shows "files_ok (w_db (resolve_one st ora now u w)) \<and> set (nodes (w_db w)) \<subseteq> set (nodes (w_db (resolve_one st ora now u w)))"
proof -
  have upd: "files_ok (attempt (update_upload flt i g db) db) = files_ok db \<and>
      nodes (attempt (update_upload flt i g db) db) = nodes db" for flt i g db
    by (auto simp: attempt_def dest: update_upload_files split: sum.split)
  show ?thesis
    using phase_c_blind_files [OF assms] assms(1) upd
    by (simp add: resolve_one_def Let_def split: sum.split prod.split)
qed

lemma visit_all_files:
  assumes "\<And>k u w. u \<in> set us \<Longrightarrow> files_ok (w_db w) \<Longrightarrow> upload_folder_at (w_db w) u \<Longrightarrow>
      files_ok (w_db (f k u w)) \<and> set (nodes (w_db w)) \<subseteq> set (nodes (w_db (f k u w)))"
    and "files_ok (w_db w)" and "\<And>u. u \<in> set us \<Longrightarrow> upload_folder_at (w_db w) u"
  shows "files_ok (w_db (visit_all f k us w)) \<and> set (nodes (w_db w)) \<subseteq> set (nodes (w_db (visit_all f k us w)))"
  using assms
proof (induction us arbitrary: k w)
  case (Cons u us)
  have first: "files_ok (w_db (f k u w)) \<and> set (nodes (w_db w)) \<subseteq> set (nodes (w_db (f k u w)))"
    by (rule Cons.prems(1)) (use Cons.prems in auto)
  have "files_ok (w_db (visit_all f (Suc k) us (f k u w))) \<and>
      set (nodes (w_db (f k u w))) \<subseteq> set (nodes (w_db (visit_all f (Suc k) us (f k u w))))"
  proof (rule Cons.IH)
    show "upload_folder_at (w_db (f k u w)) v" if "v \<in> set us" for v
      using Cons.prems(3) [of v] that first by (auto simp: upload_folder_at_def)
  qed (use Cons.prems(1) first in auto)
  with first show ?case by auto
qed simp

lemma reconcile_ok:
  assumes step: "reconcile st ora stale final w = (res, w')" and ok: "store_ok (w_db w)"
    and id: "\<And>k. uuid (final k) 0 \<noteq> []"
  shows "store_ok (w_db w')"
proof (rule store_ok_advance [OF ok reconcile_advances [OF step store_okD(2) [OF ok]]])
  define now where "now = secs (clock ora 0)"
  define w1 where "w1 = (if db_fails ora 0 = None
     then visit_all (\<lambda>k. expire_one st (stale k) now) 0 (stale_uploads now (w_db w)) w else w)"
  have "nodes (w_db (visit_all (\<lambda>k. expire_one st (stale k) now) k us w)) = nodes (w_db w) \<and>
      files_ok (w_db (visit_all (\<lambda>k. expire_one st (stale k) now) k us w)) = files_ok (w_db w)" for us k w
    by (induction us arbitrary: k w) (simp_all add: expire_one_files)
  then have n1: "nodes (w_db w1) = nodes (w_db w)" "files_ok (w_db w1)"
    using store_okD(1) [OF ok] by (simp_all add: w1_def)
  have adv1: "advances (uploads (w_db w)) (uploads (w_db w1))"
    using expire_all_touches(1) [OF store_okD(2) [OF ok]] by (simp add: w1_def)
  from store_ok_advance [OF ok adv1 n1(2)] n1(1) have ok1: "store_ok (w_db w1)" by simp
  have "files_ok (w_db (visit_all (\<lambda>k. resolve_one st (final k) now) 0 (finalizing_uploads (w_db w1)) w1)) \<and>
      set (nodes (w_db w1)) \<subseteq> set (nodes (w_db (visit_all (\<lambda>k. resolve_one st (final k) now) 0 (finalizing_uploads (w_db w1)) w1)))"
  proof (rule visit_all_files [OF _ n1(2)])
    show "upload_folder_at (w_db w1) u" if "u \<in> set (finalizing_uploads (w_db w1))" for u
      using that store_okD(2,3) [OF ok1] by (simp add: finalizing_uploads_rows upload_folder_at_def upload_folders_ok_def)
  qed (use id resolve_one_files in blast)
  moreover have "w' = w1 \<or> w' = visit_all (\<lambda>k. resolve_one st (final k) now) 0 (finalizing_uploads (w_db w1)) w1"
    using step unfolding reconcile_def Let_def now_def [symmetric] w1_def [symmetric] by (auto split: option.splits)
  ultimately show "files_ok (w_db w')" "set (nodes (w_db w)) \<subseteq> set (nodes (w_db w'))"
    using n1 by auto
qed

section \<open>The state machine\<close>

text \<open>\<open>P\<close> says which outside worlds are allowed: all of them, or only the quiet ones.\<close>

inductive store_step ::
  "(outside \<Rightarrow> bool) \<Rightarrow> text_env \<Rightarrow> config \<Rightarrow> storage \<Rightarrow> (string \<Rightarrow> string) \<Rightarrow> (string \<Rightarrow> string) \<Rightarrow> world \<Rightarrow> world \<Rightarrow> bool"
  for P env cfg st sha detect where
  node_op: "files_step (w_db w) db' \<Longrightarrow> store_step P env cfg st sha detect w (w\<lparr>w_db := db'\<rparr>)"
| create: "create_upload env cfg st sf ora owner parent name expected w = (res, w') \<Longrightarrow> P ora \<Longrightarrow> in_int64 expected \<Longrightarrow>
    store_step P env cfg st sha detect w w'"
| chunk: "write_chunk sha detect st ora i offset body w = (res, w') \<Longrightarrow> P ora \<Longrightarrow> uuid ora 0 \<noteq> [] \<Longrightarrow>
    int (length (st_bytes body)) < 2 ^ 63 \<Longrightarrow> store_step P env cfg st sha detect w w'"
| terminate: "terminate_upload st ora i w = (res', w') \<Longrightarrow> P ora \<Longrightarrow> store_step P env cfg st sha detect w w'"
| reconcile: "reconcile st ora stale final w = (res', w') \<Longrightarrow> P ora \<Longrightarrow> (\<And>k. P (stale k)) \<Longrightarrow> (\<And>k. P (final k)) \<Longrightarrow>
    (\<And>k. uuid (final k) 0 \<noteq> []) \<Longrightarrow> store_step P env cfg st sha detect w w'"

lemma store_step_ok: "store_step P env cfg st sha detect w w' \<Longrightarrow> store_ok (w_db w) \<Longrightarrow> store_ok (w_db w')"
proof (induction rule: store_step.induct)
  case (node_op w db')
  then show ?case by (simp add: store_ok_files_step)
qed (blast intro: create_upload_ok write_chunk_ok terminate_ok reconcile_ok)+

lemma init_store_ok: "store_ok (init_db t)"
  by (simp add: store_ok_def init_files_ok) (simp add: init_db_def uploads_ok_def upload_folders_ok_def)

interpretation storage_side: invariant_system
  "\<lambda>w. \<exists>t. w_db w = init_db t" "store_step P env cfg st sha detect" "\<lambda>w. store_ok (w_db w)"
  for P env cfg st sha detect
  by unfold_locales (auto simp: init_store_ok store_step_ok)

end
