(* ===== verification/Upload_Quota.thy ===== *)
theory Upload_Quota
  imports Upload_Inv
begin

text \<open>
  The storage quota: stored bytes plus the reservations of running uploads. A step of a row
  never raises its reservation, and a finished upload trades its reservation for the size of
  its file object.
\<close>

definition held :: "upload_row \<Rightarrow> int" where
  "held u = (if up_state u \<in> active_states then up_reserved u else 0)"

definition used_bytes :: "database \<Rightarrow> int" where
  "used_bytes db = stored_bytes db + reserved_bytes db"

lemma held_ok: "row_ok u \<Longrightarrow> held u = (if up_state u \<in> active_states then up_expected u else 0)"
  by (simp add: held_def row_ok_def)

lemma held_nonneg: "row_ok u \<Longrightarrow> 0 \<le> held u"
  by (auto simp: held_def row_ok_def)

lemma row_step_held: "row_step u v \<Longrightarrow> row_ok u \<Longrightarrow> held v \<le> held u"
  by (erule row_stepE) (auto simp: held_def row_ok_def active_states_def mark_defs)

lemma row_steps_held: "row_step\<^sup>*\<^sup>* u v \<Longrightarrow> row_ok u \<Longrightarrow> held v \<le> held u"
proof (induction rule: rtranclp_induct)
  case (step v w)
  with row_step_held [OF step(2)] row_steps_ok [OF step(1)] show ?case by simp
qed simp

lemma reserved_held: "reserved_bytes db = sum_list (map held (uploads db))"
proof -
  have "sum_where (\<lambda>u. up_state u \<in> active_states) up_reserved us = sum_list (map held us)" for us
    by (induction us) (simp_all add: held_def)
  then show ?thesis by (simp add: reserved_bytes_def)
qed

lemma advances_reserved:
  assumes "advances (uploads db) (uploads db')" and "uploads_ok db"
  shows "reserved_bytes db' \<le> reserved_bytes db"
proof -
  have "list_all2 row_step\<^sup>*\<^sup>* us vs \<Longrightarrow> (\<And>u. u \<in> set us \<Longrightarrow> row_ok u) \<Longrightarrow>
      sum_list (map held vs) \<le> sum_list (map held us)" for us vs
    by (induction rule: list_all2_induct) (auto intro!: add_mono row_steps_held)
  with assms show ?thesis by (simp add: advances_def uploads_ok_def reserved_held)
qed

lemma used_nonneg:
  assumes "store_ok db"
  shows "0 \<le> stored_bytes db" "0 \<le> reserved_bytes db"
proof -
  show "0 \<le> stored_bytes db"
    using assms by (auto simp: store_ok_def files_ok_def stored_bytes_def intro: sum_where_nonneg)
  have "0 \<le> held u" if "u \<in> set (uploads db)" for u
    using assms that by (intro held_nonneg) (simp add: store_ok_def uploads_ok_def)
  then show "0 \<le> reserved_bytes db" unfolding reserved_held by (intro sum_list_nonneg) auto
qed

text \<open>Changing one upload changes the reservations by what it held before and after.\<close>

lemma update_held:
  assumes "update_upload flt i f db = Inr db'" and "uploads_ok db" and "find_upload db i = Some u"
  shows "reserved_bytes db' = reserved_bytes db - held u + held (f u)"
proof -
  have dist: "distinct (map up_id (uploads db))" using assms(2) by (simp add: uploads_ok_def)
  have "lookup_by up_id (uploads db) i = Some u" using assms(3) by (simp add: find_upload_def)
  from sum_where_update_one [OF dist this, of "\<lambda>u. up_state u \<in> active_states" up_reserved f] assms(1)
  show ?thesis by (simp only: reserved_bytes_def update_upload_Inr held_def) simp
qed

lemma close_held:
  assumes "update_upload flt i (mark_closed s now) db = Inr db'" and "uploads_ok db" and "find_upload db i = Some u"
    and "s \<notin> active_states"
  shows "reserved_bytes db' = reserved_bytes db - held u"
  using update_held [OF assms(1-3)] assms(4) by (simp add: held_def mark_closed_def)

lemma update_upload_stored: "update_upload flt i f db = Inr db' \<Longrightarrow> stored_bytes db' = stored_bytes db"
  by (auto simp: update_upload_Inr stored_bytes_def)

lemma phase_c_used:
  assumes "phase_c ora u mime hash now db = Inr db'" and "uploads_ok db" and "find_upload db (up_id u) = Some v"
    and "up_state v = StateFinalizing" and "up_expected v = up_expected u"
  shows "used_bytes db' = used_bytes db"
  using assms(1)
proof (rule phase_c_Inr)
  fix db2
  assume db2: "db2 = db\<lparr>nodes := nodes db @ [upload_node (uuid ora 0) u now],
        file_objects := file_objects db @ [upload_file (uuid ora 0) u mime hash now]\<rparr>"
    and c: "update_upload (db_fails ora 6) (up_id u) (mark_closed StateComplete now) db2 = Inr db'"
  have ok2: "uploads_ok db2" "find_upload db2 (up_id u) = Some v" "reserved_bytes db2 = reserved_bytes db"
    using assms(2,3) by (simp_all add: db2 uploads_ok_def find_upload_def reserved_bytes_def)
  have "row_ok v" using assms(2,3) by (simp add: find_upload_iff) (simp add: uploads_ok_def)
  then have "held v = up_expected u" using assms(4,5) by (simp add: held_ok active_states_def)
  with close_held [OF c ok2(1,2)] ok2(3) have "reserved_bytes db' = reserved_bytes db - up_expected u"
    by (simp add: active_states_def)
  moreover have "stored_bytes db' = stored_bytes db + up_expected u"
    using update_upload_stored [OF c] by (simp add: db2 stored_bytes_def upload_file_def)
  ultimately show ?thesis by (simp add: used_bytes_def)
qed

lemma finalize_used:
  assumes step: "finalize_upload sha detect st ora u w = (res, w')" and ok: "uploads_ok (w_db w)"
    and row: "find_upload (w_db w) (up_id u) = Some v" and v: "up_state v = StateVerifying" "up_expected v = up_expected u"
  shows "used_bytes (w_db w') \<le> used_bytes (w_db w)"
proof -
  have first: "used_bytes db1 \<le> used_bytes (w_db w) \<and> uploads_ok db1 \<and>
      find_upload db1 (up_id u) = Some (mark_finalizing hash now v)"
    if a: "update_upload (db_fails ora 2) (up_id u) (mark_finalizing hash now) (w_db w) = Inr db1" for hash now db1
  proof -
    have adv: "advances (uploads (w_db w)) (uploads db1)"
      using update_upload_advances [OF a ok row] row_step.intent [OF v(1)] by blast
    from advances_reserved [OF adv ok] update_upload_stored [OF a] uploads_ok_advances [OF ok adv] find_after_update [OF a] row
    show ?thesis by (simp add: used_bytes_def mark_finalizing_def)
  qed
  from step show ?thesis
  proof (cases rule: finalize_cases)
    case (late e p content db1 fs1)
    with first [OF late(4)] show ?thesis by simp
  next
    case (complete p content db1 fs1 db2)
    from first [OF complete(4)] phase_c_used [OF complete(6)] v(2) complete(7) show ?thesis
      by (simp add: mark_finalizing_def)
  qed simp
qed

lemma write_chunk_used:
  assumes step: "write_chunk sha detect st ora i offset body w = (res, w')" and ok: "store_ok (w_db w)"
    and len: "int (length (st_bytes body)) < 2 ^ 63"
  shows "used_bytes (w_db w') \<le> used_bytes (w_db w)"
  using step
proof (cases rule: write_cases)
  case (counted u p n s db1)
  note ok2 = store_okD(2) [OF ok]
  from counted(1) have find: "find_upload (w_db w) i = Some u" by (auto simp: get_upload_def split: option.splits)
  then have "up_id u = i" by (simp add: find_upload_iff [OF ok2])
  let ?u1 = "u\<lparr>up_received := n, up_state := s\<rparr>"
  let ?w2 = "\<lparr>w_db = db1, w_fs = os_append p (st_bytes body) (w_fs w)\<rparr>"
  have held: "held (mark_received n s (secs (clock ora 1)) u) = held u"
    using counted(2,8) by (auto simp: held_def mark_received_def active_states_def)
  have used1: "used_bytes db1 = used_bytes (w_db w)"
    using update_held [OF counted(9) ok2 find] held update_upload_stored [OF counted(9)] by (simp add: used_bytes_def)
  show ?thesis
  proof (cases "s = StateVerifying")
    case True
    obtain r w3 where fin: "finalize_upload sha detect st ora ?u1 ?w2 = (r, w3)" by fastforce
    let ?v = "mark_received n s (secs (clock ora 1)) u"
    have found: "find_upload db1 i = Some ?v"
      using find_after_update [OF counted(9)] find by (simp add: mark_received_def)
    have "uploads_ok db1"
    proof -
      have "row_ok u" using find ok2 by (simp add: find_upload_iff) (simp add: uploads_ok_def)
      then have "row_step u ?v" using row_step.verify [of u] counted(2,8) True by (auto simp: row_ok_def split: if_splits)
      then have "advances (uploads (w_db w)) (uploads db1)"
        using update_upload_advances [OF counted(9) ok2 find] by blast
      with ok2 show ?thesis by (rule uploads_ok_advances)
    qed
    with finalize_used [OF fin] found \<open>up_id u = i\<close> True
    have "used_bytes (w_db w3) \<le> used_bytes db1" by (simp add: mark_received_def)
    moreover have "w' = w3" using counted(10) True fin by (auto split: sum.splits)
    ultimately show ?thesis using used1 by simp
  qed (use counted(10) used1 in simp)
qed simp_all

section \<open>Reconciliation\<close>

text \<open>A statement of \<open>Reconcile\<close> on uploads cannot fail by itself: the rows satisfy the checks.\<close>

lemma close_succeeds:
  assumes "uploads_ok db"
  shows "\<exists>db'. update_upload None i (mark_closed s now) db = Inr db'"
  using assms by (auto simp: update_upload_Inr uploads_ok_def row_ok_def set_update_where mark_closed_def active_states_def)

lemma phase_c_blind_used:
  assumes ok: "store_ok db" and u: "find_upload db (up_id u) = Some u" and st: "up_state u = StateFinalizing"
    and calm: "quiet ora"
  shows "used_bytes (phase_c_blind ora u now db) \<le> used_bytes db"
proof -
  define db1 where "db1 = attempt (insert_node (db_fails ora 2) (upload_node (uuid ora 0) u now) db) db"
  define f where "f = upload_file (uuid ora 0) u octet_stream (case up_sha u of None \<Rightarrow> [] | Some h \<Rightarrow> h) now"
  define db2 where "db2 = attempt (insert_file (db_fails ora 3) f db1) db1"
  have up: "uploads db1 = uploads db" "uploads db2 = uploads db" by (simp_all add: db1_def db2_def attempt_uploads)
  have "uploads_ok db2" using store_okD(2) [OF ok] by (simp add: uploads_ok_def up)
  from close_succeeds [OF this, of "up_id u" StateComplete now] obtain db3 where
    db3: "update_upload None (up_id u) (mark_closed StateComplete now) db2 = Inr db3" by blast
  have "row_ok u" using u store_okD(2) [OF ok] by (simp add: find_upload_iff) (simp add: uploads_ok_def)
  with st have held: "held u = up_expected u" "0 \<le> up_expected u" by (auto simp: held_ok active_states_def row_ok_def)
  have s1: "stored_bytes db1 = stored_bytes db"
    by (auto simp: db1_def attempt_def insert_node_Inr stored_bytes_def split: sum.split)
  have s2: "stored_bytes db2 \<le> stored_bytes db1 + up_expected u"
    using held(2) by (auto simp: db2_def attempt_def insert_file_Inr stored_bytes_def f_def upload_file_def split: sum.split)
  have "reserved_bytes db3 = reserved_bytes db2 - held u"
    using close_held [OF db3 \<open>uploads_ok db2\<close>, of u] u up by (simp add: find_upload_def active_states_def)
  moreover have "reserved_bytes db2 = reserved_bytes db" by (simp add: reserved_bytes_def up)
  ultimately have "used_bytes db3 \<le> used_bytes db"
    using s1 s2 held update_upload_stored [OF db3] by (simp add: used_bytes_def)
  moreover have "phase_c_blind ora u now db = db3"
    using calm db3 by (simp add: phase_c_blind_def Let_def db1_def [symmetric] f_def [symmetric] db2_def [symmetric])
      (simp add: attempt_def db1_def db2_def f_def)
  ultimately show ?thesis by simp
qed

lemma attempt_close_used:
  assumes "uploads_ok db" and "find_upload db i = Some u" and "s \<notin> active_states"
  shows "used_bytes (attempt (update_upload flt i (mark_closed s now) db) db) \<le> used_bytes db"
proof (cases "update_upload flt i (mark_closed s now) db")
  case (Inr db')
  have "row_ok u" using assms(1,2) by (simp add: find_upload_iff) (simp add: uploads_ok_def)
  then have "0 \<le> held u" by (rule held_nonneg)
  with close_held [OF Inr assms] update_upload_stored [OF Inr] Inr show ?thesis
    by (simp add: attempt_def used_bytes_def)
qed (simp add: attempt_def)

lemma resolve_one_used:
  assumes ok: "store_ok (w_db w)" and u: "find_upload (w_db w) (up_id u) = Some u" and st: "up_state u = StateFinalizing"
    and calm: "quiet ora"
  shows "used_bytes (w_db (resolve_one s ora now u w)) \<le> used_bytes (w_db w)"
  using phase_c_blind_used [OF ok u st calm] attempt_close_used [OF store_okD(2) [OF ok] u]
  by (simp add: resolve_one_def Let_def active_states_def split: sum.split prod.split)

lemma expire_one_used:
  assumes "uploads_ok (w_db w)" and "find_upload (w_db w) (up_id u) = Some u"
  shows "used_bytes (w_db (expire_one st ora now u w)) \<le> used_bytes (w_db w)"
  using attempt_close_used [OF assms] by (simp add: expire_one_def active_states_def)

text \<open>A property of the world and the uploads still to visit, kept by each visit, holds at the end.\<close>

lemma visit_all_inv:
  assumes "\<And>k u us w. I (u # us) w \<Longrightarrow> I us (f k u w)" and "I us w"
  shows "I [] (visit_all f k us w)"
  using assms(2) by (induction us arbitrary: k w) (simp_all add: assms(1))

definition pending :: "upload_state set \<Rightarrow> int \<Rightarrow> upload_row list \<Rightarrow> world \<Rightarrow> bool" where
  "pending S n us w \<longleftrightarrow> store_ok (w_db w) \<and> used_bytes (w_db w) \<le> n \<and> distinct (map up_id us) \<and>
     (\<forall>u \<in> set us. find_upload (w_db w) (up_id u) = Some u \<and> up_state u \<in> S)"

lemma pending_step:
  assumes pend: "pending S n (u # us) w" and touch: "touches (up_id u) (w_db w) (w_db w')"
    and used: "used_bytes (w_db w') \<le> used_bytes (w_db w)"
    and files: "files_ok (w_db w') \<and> set (nodes (w_db w)) \<subseteq> set (nodes (w_db w'))"
  shows "pending S n us w'"
proof -
  have "store_ok (w_db w')"
    using pend touch files store_ok_advance [of "w_db w" "w_db w'"] by (simp add: pending_def touches_def)
  moreover have "find_upload (w_db w') (up_id v) = Some v" if "v \<in> set us" for v
  proof -
    have "up_id v \<noteq> up_id u" using pend that by (auto simp: pending_def image_iff)
    with touch pend that show ?thesis by (simp add: touches_def pending_def)
  qed
  ultimately show ?thesis using pend used by (simp add: pending_def)
qed

lemma reconcile_used:
  assumes step: "reconcile st ora stale final w = (res, w')" and ok: "store_ok (w_db w)"
    and id: "\<And>k. uuid (final k) 0 \<noteq> []" and calm: "\<And>k. quiet (final k)"
  shows "used_bytes (w_db w') \<le> used_bytes (w_db w)"
proof -
  define now where "now = secs (clock ora 0)"
  define w1 where "w1 = (if db_fails ora 0 = None
     then visit_all (\<lambda>k. expire_one st (stale k) now) 0 (stale_uploads now (w_db w)) w else w)"
  let ?n = "used_bytes (w_db w)"
  have "pending {StateCreated, StateReceiving} ?n []
      (visit_all (\<lambda>k. expire_one st (stale k) now) 0 (stale_uploads now (w_db w)) w)"
  proof (rule visit_all_inv)
    show "pending {StateCreated, StateReceiving} ?n (stale_uploads now (w_db w)) w"
      using ok store_okD(2) [OF ok] stale_uploads_rows [OF store_okD(2) [OF ok]]
      by (auto simp: pending_def find_upload_iff)
  next
    fix k u us v assume p: "pending {StateCreated, StateReceiving} ?n (u # us) v"
    then show "pending {StateCreated, StateReceiving} ?n us (expire_one st (stale k) now u v)"
      by (intro pending_step [OF p]) (auto simp: pending_def touches_expire expire_one_used expire_one_files store_okD)
  qed
  then have w1: "store_ok (w_db w1)" "used_bytes (w_db w1) \<le> ?n"
    using ok by (auto simp: w1_def pending_def)
  have "pending {StateFinalizing} ?n []
      (visit_all (\<lambda>k. resolve_one st (final k) now) 0 (finalizing_uploads (w_db w1)) w1)"
  proof (rule visit_all_inv)
    show "pending {StateFinalizing} ?n (finalizing_uploads (w_db w1)) w1"
      using w1 store_okD(2) [OF w1(1)] finalizing_uploads_rows [OF store_okD(2) [OF w1(1)]]
      by (auto simp: pending_def find_upload_iff)
  next
    fix k u us v assume p: "pending {StateFinalizing} ?n (u # us) v"
    then have "store_ok (w_db v)" "find_upload (w_db v) (up_id u) = Some u" "up_state u = StateFinalizing"
      by (simp_all add: pending_def)
    with p show "pending {StateFinalizing} ?n us (resolve_one st (final k) now u v)"
      by (intro pending_step [OF p] touches_resolve resolve_one_used calm resolve_one_files id)
        (auto simp: store_okD intro: upload_folder_find)
  qed
  moreover have "w' = w1 \<or> w' = visit_all (\<lambda>k. resolve_one st (final k) now) 0 (finalizing_uploads (w_db w1)) w1"
    using step unfolding reconcile_def Let_def now_def [symmetric] w1_def [symmetric] by (auto split: option.splits)
  ultimately show ?thesis using w1 by (auto simp: pending_def)
qed

section \<open>Creation\<close>

definition limits_ok :: "config \<Rightarrow> bool" where
  "limits_ok cfg \<longleftrightarrow> 0 \<le> MaxStorageBytes cfg \<and> MaxStorageBytes cfg + MaxFileBytes cfg < 2 ^ 63"

lemma check_space_quota:
  assumes "check_space cfg ora sf expected db = Inr ()" and "quiet ora" and "limits_ok cfg" and "store_ok db"
    and "used_bytes db \<le> MaxStorageBytes cfg" and "0 \<le> expected" "expected \<le> MaxFileBytes cfg"
  shows "used_bytes db + expected \<le> MaxStorageBytes cfg"
proof -
  note nn = used_nonneg [OF assms(4)]
  have small: "in_int64 (stored_bytes db)" "in_int64 (reserved_bytes db)" "in_int64 (used_bytes db)" "in_int64 (used_bytes db + expected)"
    using nn assms(3,5-7) by (simp_all add: in_int64_def used_bytes_def limits_ok_def)
  then have "wrap64 (wrap64 (stored_bytes db + reserved_bytes db) + expected) = used_bytes db + expected"
    by (simp add: wrap64_id used_bytes_def)
  with assms(1,2) small show ?thesis
    by (simp add: check_space_def sum_query_def not_less split: if_splits)
qed

lemma create_upload_used:
  assumes step: "create_upload env cfg st sf ora owner parent name expected w = (res, w')" and ok: "store_ok (w_db w)"
    and calm: "quiet ora" and lim: "limits_ok cfg" and used: "used_bytes (w_db w) \<le> MaxStorageBytes cfg"
  shows "used_bytes (w_db w') \<le> MaxStorageBytes cfg"
proof (cases "w_db w' = w_db w")
  case False
  with step obtain disp key where *: "0 \<le> expected" "expected \<le> MaxFileBytes cfg" "check_space cfg ora sf expected (w_db w) = Inr ()"
    "insert_upload (db_fails ora 4) (new_upload cfg ora owner (upload_parent parent) disp key expected) (w_db w) = Inr (w_db w')"
    by (rule create_upload_effect)
  have "used_bytes (w_db w') = used_bytes (w_db w) + expected"
    using *(4) by (simp add: insert_upload_Inr used_bytes_def stored_bytes_def reserved_bytes_def new_upload_def active_states_def)
  with check_space_quota [OF *(3) calm lim ok used *(1,2)] show ?thesis by simp
qed (use used in simp)

section \<open>The quota as an invariant\<close>

definition quota_ok :: "config \<Rightarrow> world \<Rightarrow> bool" where
  "quota_ok cfg w \<longleftrightarrow> store_ok (w_db w) \<and> (limits_ok cfg \<longrightarrow> used_bytes (w_db w) \<le> MaxStorageBytes cfg)"

lemma terminate_used:
  assumes step: "terminate_upload st ora i w = (res, w')" and ok: "store_ok (w_db w)"
  shows "used_bytes (w_db w') \<le> used_bytes (w_db w)"
proof -
  have "w_db w' = w_db w \<or> (\<exists>flt f. update_upload flt i f (w_db w) = Inr (w_db w'))"
    using step by (auto simp: terminate_upload_def split: sum.splits if_splits)
  then have "stored_bytes (w_db w') = stored_bytes (w_db w)" by (auto dest: update_upload_stored)
  with advances_reserved [OF terminate_advances [OF step store_okD(2) [OF ok]] store_okD(2) [OF ok]]
  show ?thesis by (simp add: used_bytes_def)
qed

lemma quota_step: "store_step quiet env cfg st sha detect w w' \<Longrightarrow> quota_ok cfg w \<Longrightarrow> quota_ok cfg w'"
proof (induction rule: store_step.induct)
  case (node_op w db')
  then have "store_ok db'" "keeps_folders (w_db w) db'"
    by (simp_all add: quota_ok_def store_ok_files_step files_step_keeps store_okD)
  with node_op show ?case by (auto simp: quota_ok_def keeps_folders_def used_bytes_def reserved_bytes_def)
next
  case (create sf ora owner parent name expected w res w')
  then show ?case
    using create_upload_ok [OF create(1)] create_upload_used [OF create(1)] by (simp add: quota_ok_def)
next
  case (chunk ora i offset body w res w')
  then show ?case
    using write_chunk_ok [OF chunk(1)] write_chunk_used [OF chunk(1)] by (fastforce simp: quota_ok_def)
next
  case (terminate ora i w res' w')
  then show ?case
    using terminate_ok [OF terminate(1)] terminate_used [OF terminate(1)] by (fastforce simp: quota_ok_def)
next
  case (reconcile ora stale final w res' w')
  then show ?case
    using reconcile_ok [OF reconcile(1)] reconcile_used [OF reconcile(1)] by (fastforce simp: quota_ok_def)
qed

lemma init_quota_ok: "w_db w = init_db t \<Longrightarrow> quota_ok cfg w"
  using init_store_ok [of t]
  by (simp add: quota_ok_def limits_ok_def) (simp add: init_db_def used_bytes_def stored_bytes_def reserved_bytes_def)

interpretation quota_side: invariant_system
  "\<lambda>w. \<exists>t. w_db w = init_db t" "store_step quiet env cfg st sha detect" "quota_ok cfg"
  for env cfg st sha detect
  by unfold_locales (auto intro: init_quota_ok quota_step)

end
