(* ===== verification/Storage_Props.thy ===== *)
theory Storage_Props
  imports Object_Store
begin

text \<open>The properties of the storage package, with witnesses on a small file tree.\<close>

section \<open>A small storage\<close>

definition empty_fs :: fs where
  "empty_fs = \<lparr>fs_files = (\<lambda>_. None), fs_dirs = {}\<rparr>"

definition demo_fs :: fs where
  "demo_fs = \<lparr>fs_files = (\<lambda>_. None), fs_dirs = {''/d/staging/uploads'', ''/d/objects''}\<rparr>"

abbreviation demo_st :: storage where
  "demo_st \<equiv> storage_at ''/d''"

lemma demo_paths:
  "staging_path demo_st ''aabb'' = Inr ''/d/staging/uploads/aabb''"
  "object_path demo_st ''ccdd'' = Inr ''/d/objects/cc/ccdd''"
  "staging_path demo_st ''..bb'' = Inr ''/d/staging/uploads/..bb''"
  "object_path demo_st ''..bb'' = Inr ''/d/..bb''"
  by code_simp+

lemma demo_dirs:
  "path_dir ''/d/staging/uploads/aabb'' = ''/d/staging/uploads''"
  "path_dir ''/d/objects/cc/ccdd'' = ''/d/objects/cc''"
  "ancestors ''/d/objects/cc'' = [''/d'', ''/d/objects'', ''/d/objects/cc'']"
  by code_simp+

section \<open>Paths\<close>

text \<open>
  Accepted keys lead to separate files below the base directory: two staging keys or two
  object keys have the same path only when they are equal, and no object path is a staging
  path. Only a key that starts with two dots escapes the directory of objects, and even that
  one stays in the base directory.
\<close>

theorem key_paths_separate:
  assumes s: "staging_path (storage_at base) k = Inr p" and ob: "object_path (storage_at base) k' = Inr q"
    and s': "staging_path (storage_at base) l = Inr p'" and ob': "object_path (storage_at base) l' = Inr q'"
  shows "(p = p' \<longleftrightarrow> k = l) \<and> (q = q' \<longleftrightarrow> k' = l') \<and> p \<noteq> q \<and>
    path_parts p = path_parts base @ [''staging'', ''uploads'', k] \<and>
    path_parts q = path_parts base @ (if take 2 k' = ''..'' then [k'] else [''objects'', take 2 k', k'])"
proof -
  from s have "path_parts p = path_parts base @ [''staging'', ''uploads'', k]"
    by (auto simp: staging_path_parts path_parts_render normal_key_parts split: if_splits)
  moreover from ob have "path_parts q = path_parts base @ object_parts k'"
    by (auto simp: object_path_parts path_parts_render normal_key_parts split: if_splits)
  ultimately show ?thesis
    using staging_path_inj [OF s s'] object_path_inj [OF ob ob'] staging_object_differ [OF s ob]
    by (simp add: object_parts_def)
qed

theorem key_paths_separate_witness:
  "path_parts ''/d/..bb'' = [''d'', ''..bb''] \<and> path_parts ''/d/staging/uploads/aabb'' = [''d'', ''staging'', ''uploads'', ''aabb'']"
proof -
  have "path_parts ''/d'' = [''d'']" by code_simp
  with key_paths_separate [OF demo_paths(1,4,3,4)] show ?thesis by simp
qed

lemma hex_digits_plain: "is_hex_digit c \<Longrightarrow> c \<noteq> CHR ''.'' \<and> c \<noteq> CHR ''/''"
  by (rule hex_digit_not_sep)

text \<open>
  A generated key (16 random bytes in hexadecimal) is always accepted, its object lies in
  the shard named by its first two digits, and different random bytes give different files.
\<close>

theorem generated_key_path:
  assumes "length bs = 16"
  shows "object_path (storage_at base) (generate_opaque_key bs) = Inr (render_path (rooted base)
      (path_parts base @ [''objects'', take 2 (generate_opaque_key bs), generate_opaque_key bs])) \<and>
    staging_path (storage_at base) (generate_opaque_key bs) = Inr (render_path (rooted base)
      (path_parts base @ [''staging'', ''uploads'', generate_opaque_key bs])) \<and>
    (generate_opaque_key bs = generate_opaque_key bs' \<longleftrightarrow> bs = bs')"
proof -
  let ?k = "generate_opaque_key bs"
  have len: "length ?k = 32" using assms by (simp add: generate_opaque_key_def)
  have chars: "c \<noteq> CHR ''.'' \<and> c \<noteq> CHR ''/''" if "c \<in> set ?k" for c
    using that hex_digits_plain hex_encode_digits unfolding generate_opaque_key_def by blast
  from len chars have "valid_key ?k" by (auto simp: valid_key_def)
  moreover have "take 2 ?k \<noteq> ''..''"
    using chars [of "hd ?k"] len by (cases ?k) auto
  ultimately show ?thesis
    by (simp add: staging_path_parts object_path_parts object_parts_def)
      (simp add: generate_opaque_key_def hex_encode_inj)
qed

theorem generated_key_path_witness:
  "object_path demo_st (generate_opaque_key (replicate 16 CHR 0x0A)) = Inr (render_path True
     [''d'', ''objects'', ''0a'', generate_opaque_key (replicate 16 CHR 0x0A)])"
proof -
  have "path_parts ''/d'' = [''d'']" "rooted ''/d''" "take 2 (generate_opaque_key (replicate 16 CHR 0x0A)) = ''0a''"
    by code_simp+
  with generated_key_path [of "replicate 16 CHR 0x0A" "''/d''" "[]"] show ?thesis by simp
qed

section \<open>Contents\<close>

text \<open>
  C33: A content appended in pieces to a fresh staging file and then moved becomes exactly the
  object: the pieces in order, with no other object and no other staging file touched.
\<close>

theorem chunks_become_object:
  assumes "create_staging_file (storage_at base) None k fs = (Inr u, fs1)"
    and "run_all (append_staging (storage_at base) None k) chunks fs1 = Some fs2"
    and "move_staging_to_object (storage_at base) None None k obj fs2 = (Inr u', fs3)"
  shows "stored (storage_at base) fs3 = (stored (storage_at base) fs)(obj \<mapsto> concat chunks) \<and>
    staged (storage_at base) fs3 = staged (storage_at base) fs"
  by (rule disk.write_and_commit [where flt = None and ?flt2.0 = None and k = k]) (auto simp: completed_Some assms)

lemma demo_upload:
  "\<exists>fs1 fs2 fs3. create_staging_file demo_st None ''aabb'' demo_fs = (Inr (), fs1) \<and>
     run_all (append_staging demo_st None ''aabb'') [''he'', ''llo''] fs1 = Some fs2 \<and>
     move_staging_to_object demo_st None None ''aabb'' ''ccdd'' fs2 = (Inr (), fs3)"
  by (simp add: create_staging_file_def append_staging_def open_staging_for_append_def demo_paths demo_dirs
      move_staging_to_object_def os_create_excl_def os_open_def os_append_def os_mkdir_all_def os_rename_def demo_fs_def)

theorem chunks_become_object_witness: "\<exists>fs3. stored demo_st fs3 ''ccdd'' = Some ''hello''"
proof -
  obtain fs1 fs2 fs3 where
    "create_staging_file demo_st None ''aabb'' demo_fs = (Inr (), fs1)"
    "run_all (append_staging demo_st None ''aabb'') [''he'', ''llo''] fs1 = Some fs2"
    "move_staging_to_object demo_st None None ''aabb'' ''ccdd'' fs2 = (Inr (), fs3)"
    using demo_upload by blast
  from chunks_become_object [OF this] show ?thesis by (intro exI [of _ fs3]) simp
qed

text \<open>
  Moving a staging file is all or nothing: after an error every file is as it was; after
  success the object has the staged content and the staging file is gone.
\<close>

theorem move_all_or_nothing:
  "case move_staging_to_object (storage_at base) flt1 flt2 k obj fs of
     (Inl e, fs') \<Rightarrow> fs_files fs' = fs_files fs
   | (Inr u, fs') \<Rightarrow> staged (storage_at base) fs' k = None \<and>
       stored (storage_at base) fs' obj = staged (storage_at base) fs k \<and> staged (storage_at base) fs k \<noteq> None"
proof -
  obtain r fs' where r: "move_staging_to_object (storage_at base) flt1 flt2 k obj fs = (r, fs')" by fastforce
  show ?thesis
  proof (cases r)
    case (Inl e)
    with r move_staging_failed [of "storage_at base" flt1 flt2 k obj fs e fs'] show ?thesis by simp
  next
    case (Inr u)
    with r move_staging_contents [of base flt1 flt2 k obj fs u fs'] show ?thesis by auto
  qed
qed

section \<open>A new storage\<close>

lemma mkdir_adds: "os_mkdir_all flt d fs = Inr fs' \<Longrightarrow> fs_dirs fs' = fs_dirs fs \<union> set (ancestors d) \<and> fs_files fs' = fs_files fs"
  by (auto simp: os_mkdir_all_def split: option.splits if_splits)

lemma make_dirs_adds:
  "make_dirs flt k ds fs = (Inr u, fs') \<Longrightarrow> d \<in> set ds \<Longrightarrow> set (ancestors d) \<subseteq> fs_dirs fs'"
proof -
  have grow: "make_dirs flt k ds fs = (Inr u, fs') \<Longrightarrow> fs_dirs fs \<subseteq> fs_dirs fs'" for flt k ds fs
    by (induction flt k ds fs rule: make_dirs.induct) (auto dest: mkdir_adds split: sum.splits)
  show "make_dirs flt k ds fs = (Inr u, fs') \<Longrightarrow> d \<in> set ds \<Longrightarrow> set (ancestors d) \<subseteq> fs_dirs fs'"
  proof (induction flt k ds fs rule: make_dirs.induct)
    case (2 flt k c ds fs)
    then obtain fs1 where "os_mkdir_all (flt k) c fs = Inr fs1" and rest: "make_dirs flt (Suc k) ds fs1 = (Inr u, fs')"
      by (auto split: sum.splits)
    with 2 mkdir_adds [OF this(1)] grow [OF rest] show ?case by auto
  qed simp
qed

lemma self_in_ancestors: "path_parts p \<noteq> [] \<Longrightarrow> render_path (rooted p) (path_parts p) \<in> set (ancestors p)"
  unfolding ancestors_def
  by (auto intro!: image_eqI [of _ _ "length (path_parts p)"] simp: Suc_le_eq)

text \<open>
  After NewStorage has succeeded, creating the staging file of an accepted key fails only if
  the name is taken or the file system itself fails: its directory is there.
\<close>

theorem new_storage_ready:
  assumes new: "new_storage flt base fs = (Inr st, fs')"
    and p: "staging_path st k = Inr p" and free: "fs_files fs' p = None" "p \<notin> fs_dirs fs'"
  shows "st = storage_at base \<and>
    create_staging_file st None k fs' = (Inr (), fs'\<lparr>fs_files := (fs_files fs')(p \<mapsto> [])\<rparr>)"
proof -
  from new have st: "st = storage_at base" and
    dirs: "make_dirs flt 0 [st_base st, st_objects st, st_staging st, path_join [st_base st, ''db'']] fs = (Inr (), fs')"
    by (auto simp: new_storage_def Let_def split: prod.splits sum.splits)
  let ?parts = "path_parts base @ [''staging'', ''uploads'']"
  from p st have k: "valid_key k" and pp: "p = render_path (rooted base) (?parts @ [k])"
    by (auto simp: staging_path_parts split: if_splits)
  have norm: "normal_parts (rooted base) ?parts"
    by (intro normal_append_plain normal_path_parts) (simp add: plain_part_def)
  have "path_dir p = render_path (rooted base) ?parts"
    unfolding pp by (rule path_dir_render [OF norm _ valid_key_plain [OF k]]) simp
  moreover have "render_path (rooted base) ?parts \<in> set (ancestors (st_staging st))"
    using self_in_ancestors [of "st_staging st"] by (simp add: st storage_parts)
  ultimately have "path_dir p \<in> fs_dirs fs'"
    using make_dirs_adds [OF dirs, of "st_staging st"] by auto
  with p free st show ?thesis by (simp add: create_staging_file_def os_create_excl_def)
qed

theorem new_storage_ready_witness:
  "\<exists>fs' fs''. new_storage (\<lambda>_. None) ''/d'' empty_fs = (Inr demo_st, fs') \<and>
     create_staging_file demo_st None ''aabb'' fs' = (Inr (), fs'')"
proof -
  have paths: "st_base demo_st = ''/d''" "st_objects demo_st = ''/d/objects''" "st_staging demo_st = ''/d/staging/uploads''"
    "path_join [''/d'', ''db''] = ''/d/db''" by code_simp+
  have anc: "ancestors ''/d'' = [''/d'']" "ancestors ''/d/objects'' = [''/d'', ''/d/objects'']"
    "ancestors ''/d/staging/uploads'' = [''/d'', ''/d/staging'', ''/d/staging/uploads'']"
    "ancestors ''/d/db'' = [''/d'', ''/d/db'']" by code_simp+
  obtain fs' where new: "new_storage (\<lambda>_. None) ''/d'' empty_fs = (Inr demo_st, fs')"
    and fs': "fs_files fs' = (\<lambda>_. None)"
      "fs_dirs fs' = {''/d'', ''/d/objects'', ''/d/staging'', ''/d/staging/uploads'', ''/d/db''}"
    by (auto simp: new_storage_def Let_def paths os_mkdir_all_def anc empty_fs_def)
  from new_storage_ready [OF new demo_paths(1)] fs' new show ?thesis by auto
qed

end
