(* ===== verification/Upload_Props.thy ===== *)
theory Upload_Props
  imports Upload_Quota Files_Props Storage_Props
begin

text \<open>The properties of the upload service, with witnesses that run uploads on a small world.\<close>

section \<open>Single calls on a working system\<close>

lemma get_upload_Inr: "get_upload flt db i = Inr u \<longleftrightarrow> flt = None \<and> find_upload db i = Some u"
  by (auto simp: get_upload_def split: option.splits)

lemma staged_Some: "staged st fs k = Some c \<longleftrightarrow> (\<exists>p. staging_path st k = Inr p \<and> fs_files fs p = Some c)"
  by (auto simp: staged_def split: sum.splits)

lemma stored_Some: "stored st fs k = Some c \<longleftrightarrow> (\<exists>p. object_path st k = Inr p \<and> fs_files fs p = Some c)"
  by (auto simp: stored_def split: sum.splits)

lemma staging_exists_iff: "staging_exists st None k fs \<longleftrightarrow> staged st fs k \<noteq> None"
  by (auto simp: staging_exists_def staged_def split: sum.split)

lemma object_exists_iff: "object_exists st None k fs \<longleftrightarrow> stored st fs k \<noteq> None"
  by (auto simp: object_exists_def stored_def split: sum.split)

text \<open>Appending to the staging file of an upload.\<close>

lemma append_contents:
  assumes "open_staging_for_append (storage_at base) flt k fs = Inr p"
  obtains c where "staged (storage_at base) fs k = Some c"
    "staged (storage_at base) (os_append p bs fs) = (staged (storage_at base) fs)(k \<mapsto> c @ bs)"
    "stored (storage_at base) (os_append p bs fs) = stored (storage_at base) fs"
proof -
  have "append_staging (storage_at base) flt k bs fs = Some (os_append p bs fs)"
    using assms by (simp add: append_staging_def)
  with append_staging_contents that show ?thesis by blast
qed

lemma finalize_complete:
  assumes step: "finalize_upload sha detect (storage_at base) ora u w = (Inr x, w')"
    and c: "staged (storage_at base) (w_fs w) (up_staging u) = Some c"
  shows "stored (storage_at base) (w_fs w') = (stored (storage_at base) (w_fs w))(up_final u \<mapsto> c) \<and>
    staged (storage_at base) (w_fs w') = (staged (storage_at base) (w_fs w))(up_staging u := None) \<and>
    (\<exists>mime. upload_file (uuid ora 0) u mime (hex_encode (sha c)) (secs (clock ora 2)) \<in> set (file_objects (w_db w'))) \<and>
    upload_node (uuid ora 0) u (secs (clock ora 2)) \<in> set (nodes (w_db w'))"
  using step
proof (cases rule: finalize_cases)
  case (complete p content db1 fs1 db2)
  from c complete(2,3) have content: "content = c" by (simp add: staged_Some os_open_Inr)
  from move_staging_contents [OF complete(5)] c have
    "staged (storage_at base) fs1 = (staged (storage_at base) (w_fs w))(up_staging u := None)"
    "stored (storage_at base) fs1 = (stored (storage_at base) (w_fs w))(up_final u \<mapsto> c)" by auto
  moreover obtain mime where "upload_file (uuid ora 0) u mime (hex_encode (sha c)) (secs (clock ora 2)) \<in> set (file_objects db2)"
    "upload_node (uuid ora 0) u (secs (clock ora 2)) \<in> set (nodes db2)"
    by (rule phase_c_Inr [OF complete(6)]) (auto simp: update_upload_Inr content)
  ultimately show ?thesis using complete(7) by auto
qed simp_all

section \<open>The whole write side\<close>

text \<open>
  In every state that node operations, uploads and reconciliation can reach from the
  migrated database, whatever fails on the way, the nodes form a well-formed tree, every file
  object belongs to a node and no two share a storage key, upload ids are distinct, the
  received bytes of an upload never exceed its size, an upload holds a reservation of exactly
  its size while it runs and none once it has ended, and its target folder still exists.
\<close>

theorem reachable_store_ok:
  assumes "(store_step P env cfg st sha detect)\<^sup>*\<^sup>* w0 w" and "w_db w0 = init_db t"
  shows "tree_ok (nodes (w_db w)) \<and> distinct (map fr_key (file_objects (w_db w))) \<and>
    (\<forall>f \<in> set (file_objects (w_db w)). fr_node f \<in> nr_id ` set (nodes (w_db w))) \<and>
    distinct (map up_id (uploads (w_db w))) \<and>
    (\<forall>u \<in> set (uploads (w_db w)). 0 \<le> up_received u \<and> up_received u \<le> up_expected u \<and>
       up_reserved u = (if up_state u \<in> active_states then up_expected u else 0) \<and>
       (\<exists>q \<in> set (nodes (w_db w)). nr_id q = up_parent u \<and> nr_kind q = KindFolder))"
proof -
  have "store_ok (w_db w)"
    by (rule storage_side.reachable_inv [OF _ assms(1)]) (use assms(2) in blast)
  then show ?thesis
    by (simp add: store_ok_def files_ok_def uploads_ok_def row_ok_def upload_folders_ok_def)
qed

text \<open>
  With a database and a file system that answer, stored bytes plus reserved bytes never
  exceed the configured maximum, in any state reachable from the migrated database, as long as
  the limits are not so large that the int64 sum can overflow.
\<close>

theorem quota_never_exceeded:
  assumes "(store_step quiet env cfg st sha detect)\<^sup>*\<^sup>* w0 w" and "w_db w0 = init_db t"
    and "0 \<le> MaxStorageBytes cfg" and "MaxStorageBytes cfg + MaxFileBytes cfg < 2 ^ 63"
  shows "stored_bytes (w_db w) + reserved_bytes (w_db w) \<le> MaxStorageBytes cfg"
proof -
  have "quota_ok cfg w"
    by (rule quota_side.reachable_inv [OF _ assms(1)]) (use assms(2) in blast)
  with assms(3,4) show ?thesis by (simp add: quota_ok_def limits_ok_def used_bytes_def)
qed

text \<open>
  C18: Every operation moves each upload only along its life cycle: created and receiving
  uploads receive, expire or are verified, verified ones are finalized, finalizing ones complete or
  fail, any but a complete one can be terminated. Its identity, target, size and keys never
  change, received bytes never shrink, and a complete upload stays as it is.
\<close>

theorem uploads_follow_life_cycle:
  assumes step: "store_step P env cfg st sha detect w w'" and ok: "store_ok (w_db w)" and u: "u \<in> set (uploads (w_db w))"
  shows "\<exists>v \<in> set (uploads (w_db w')). row_step\<^sup>*\<^sup>* u v \<and> same_upload u v \<and>
    up_received u \<le> up_received v \<and> (up_state u = StateComplete \<longrightarrow> v = u)"
proof -
  have "\<exists>v \<in> set (uploads (w_db w')). row_step\<^sup>*\<^sup>* u v"
    using step
  proof cases
    case (node_op db')
    with files_step_keeps [OF _ store_okD(1) [OF ok]] u show ?thesis by (auto simp: keeps_folders_def)
  next
    case (create sf ora owner parent name expected res)
    show ?thesis
    proof (cases "w_db w' = w_db w")
      case False
      from create(1) False obtain r where "w_db w' = (w_db w)\<lparr>uploads := uploads (w_db w) @ [r]\<rparr>"
        by (rule create_upload_effect) (auto simp: insert_upload_Inr)
      with u show ?thesis by auto
    qed (use u in auto)
  next
    case (chunk ora i offset body res)
    from advances_row [OF write_chunk_advances [OF chunk(1) store_okD(2) [OF ok] chunk(4)] u] show ?thesis .
  next
    case (terminate ora i res)
    from advances_row [OF terminate_advances [OF terminate(1) store_okD(2) [OF ok]] u] show ?thesis .
  next
    case (reconcile ora stale final res)
    from advances_row [OF reconcile_advances [OF reconcile(1) store_okD(2) [OF ok]] u] show ?thesis .
  qed
  then show ?thesis using row_steps_same complete_final by metis
qed

section \<open>Chunks\<close>

lemma completion_effect:
  assumes step: "write_chunk sha detect (storage_at base) ora i offset body w = (Inr v, w')"
    and complete: "up_state v = StateComplete" and ok: "uploads_ok (w_db w)"
    and len: "int (length (st_bytes body)) < 2 ^ 63"
  shows "\<exists>u c mime now j. find_upload (w_db w) i = Some u \<and> offset = up_received u \<and>
    staged (storage_at base) (w_fs w) (up_staging u) = Some c \<and>
    stored (storage_at base) (w_fs w') (up_final u) = Some (c @ st_bytes body) \<and>
    staged (storage_at base) (w_fs w') (up_staging u) = None \<and>
    upload_file j u mime (hex_encode (sha (c @ st_bytes body))) now \<in> set (file_objects (w_db w')) \<and>
    upload_node j u now \<in> set (nodes (w_db w')) \<and>
    up_received u + int (length (st_bytes body)) = up_expected u"
  using step
proof (cases rule: write_cases)
  case (counted u p n s db1)
  let ?u1 = "u\<lparr>up_received := n, up_state := s\<rparr>"
  let ?fs = "os_append p (st_bytes body) (w_fs w)"
  let ?w2 = "\<lparr>w_db = db1, w_fs = ?fs\<rparr>"
  obtain r w3 where fin: "finalize_upload sha detect (storage_at base) ora ?u1 ?w2 = (r, w3)" by fastforce
  have "s \<noteq> StateComplete" using counted(8) by simp
  with counted(10) fin complete have v: "s = StateVerifying" "w3 = w'" and r: "\<exists>x. r = Inr x"
    by (auto split: if_splits sum.splits)
  from counted(1) have find: "find_upload (w_db w) i = Some u" by (simp add: get_upload_Inr)
  from append_contents [OF counted(4)] obtain c where
    c: "staged (storage_at base) (w_fs w) (up_staging u) = Some c"
      "staged (storage_at base) ?fs = (staged (storage_at base) (w_fs w))(up_staging u \<mapsto> c @ st_bytes body)"
      "stored (storage_at base) ?fs = stored (storage_at base) (w_fs w)" by blast
  from fin r v(2) obtain x where fin': "finalize_upload sha detect (storage_at base) ora ?u1 ?w2 = (Inr x, w')" by auto
  have "staged (storage_at base) (w_fs ?w2) (up_staging ?u1) = Some (c @ st_bytes body)" using c(2) by simp
  from finalize_complete [OF fin' this] obtain mime where
    end_facts: "stored (storage_at base) (w_fs w') (up_final u) = Some (c @ st_bytes body)"
      "staged (storage_at base) (w_fs w') (up_staging u) = None"
      "upload_file (uuid ora 0) ?u1 mime (hex_encode (sha (c @ st_bytes body))) (secs (clock ora 2)) \<in> set (file_objects (w_db w'))"
      "upload_node (uuid ora 0) ?u1 (secs (clock ora 2)) \<in> set (nodes (w_db w'))" by auto
  have "row_ok u" using find ok by (simp add: find_upload_iff) (simp add: uploads_ok_def)
  moreover have "n = up_expected u" using v(1) counted(8) by (simp split: if_splits)
  ultimately have "up_received u + int (length (st_bytes body)) = up_expected u"
    using counted(6) len wrap64_nonneg_add [of "up_received u" "int (length (st_bytes body))"] by (simp add: row_ok_def)
  with find counted(3) c(1) end_facts show ?thesis
    by (intro exI [of _ u] exI [of _ c] exI [of _ mime] exI [of _ "secs (clock ora 2)"] exI [of _ "uuid ora 0"])
      (simp add: upload_file_def upload_node_def)
qed auto

text \<open>
  C14: When a chunk completes an upload, the object holds what the staging file held followed by
  the chunk, the staging file is gone, and a file object records the upload's size and the
  SHA-256 of exactly that content under a node of the upload's name in its folder. If the staging
  file held as many bytes as had been counted, the content has the recorded size.
\<close>

theorem completed_upload_content:
  assumes step: "write_chunk sha detect (storage_at base) ora i offset body w = (Inr v, w')"
    and complete: "up_state v = StateComplete" and ok: "uploads_ok (w_db w)"
    and len: "int (length (st_bytes body)) < 2 ^ 63"
  shows "\<exists>u c f r. find_upload (w_db w) i = Some u \<and> offset = up_received u \<and>
    staged (storage_at base) (w_fs w) (up_staging u) = Some c \<and>
    stored (storage_at base) (w_fs w') (up_final u) = Some (c @ st_bytes body) \<and>
    staged (storage_at base) (w_fs w') (up_staging u) = None \<and>
    f \<in> set (file_objects (w_db w')) \<and> fr_key f = up_final u \<and> fr_size f = up_expected u \<and>
    fr_sha f = Some (hex_encode (sha (c @ st_bytes body))) \<and>
    r \<in> set (nodes (w_db w')) \<and> nr_id r = fr_node f \<and> nr_kind r = KindFile \<and>
    nr_parent r = Some (up_parent u) \<and> nr_name r = up_name u \<and>
    (int (length c) = up_received u \<longrightarrow> int (length (c @ st_bytes body)) = fr_size f)"
proof -
  from completion_effect [OF assms] obtain u c mime now j where
    *: "find_upload (w_db w) i = Some u" "offset = up_received u" "staged (storage_at base) (w_fs w) (up_staging u) = Some c"
      "stored (storage_at base) (w_fs w') (up_final u) = Some (c @ st_bytes body)"
      "staged (storage_at base) (w_fs w') (up_staging u) = None"
      "upload_file j u mime (hex_encode (sha (c @ st_bytes body))) now \<in> set (file_objects (w_db w'))"
      "upload_node j u now \<in> set (nodes (w_db w'))" "up_received u + int (length (st_bytes body)) = up_expected u"
    by blast
  then show ?thesis
    by (intro exI [of _ u] exI [of _ c] exI [of _ "upload_file j u mime (hex_encode (sha (c @ st_bytes body))) now"]
        exI [of _ "upload_node j u now"]) (simp add: upload_file_def upload_node_def new_node_def)
qed

section \<open>Completion on a working system\<close>

lemma insert_upload_node:
  assumes "files_ok db" and "i \<notin> nr_id ` set (nodes db)" and "up_parent u \<in> nr_id ` set (nodes db)"
    and "\<not> sibling_conflict db (up_parent u) (up_name_key u)"
  shows "insert_node None (upload_node i u now) db = Inr (db\<lparr>nodes := nodes db @ [upload_node i u now]\<rparr>)"
proof -
  from assms(1) have tree: "tree_ok (nodes db)" by auto
  have "siblings_unique (nodes db @ [upload_node i u now])"
    using tree_okD(4) [OF tree] assms(4)
    by (auto simp: siblings_unique_append clashes_def upload_node_def new_node_def sibling_conflict_def list_ex_iff)
  moreover have "parents_exist (nodes db @ [upload_node i u now])"
    using tree_ok_parents_exist [OF tree] assms(3)
    by (auto simp: parents_exist_iff upload_node_def new_node_def)
  moreover have "nr_id (upload_node i u now) = i" by (simp add: upload_node_def new_node_def)
  ultimately show ?thesis using assms(2) by (simp add: insert_node_Inr)
qed

text \<open>The database after phase C.\<close>

definition committed :: "string \<Rightarrow> upload_row \<Rightarrow> string \<Rightarrow> string \<Rightarrow> int \<Rightarrow> database \<Rightarrow> database" where
  "committed i u mime hash now db =
     db\<lparr>nodes := nodes db @ [upload_node i u now], file_objects := file_objects db @ [upload_file i u mime hash now],
        uploads := update_where (\<lambda>v. up_id v = up_id u) (mark_closed StateComplete now) (uploads db)\<rparr>"

lemma insert_upload_file:
  assumes "files_ok db" and "i \<notin> nr_id ` set (nodes db)" and "up_final u \<notin> fr_key ` set (file_objects db)" and "0 \<le> up_expected u"
    and "db1 = db\<lparr>nodes := nodes db @ [upload_node i u now]\<rparr>"
  shows "insert_file None (upload_file i u mime hash now) db1 =
     Inr (db1\<lparr>file_objects := file_objects db @ [upload_file i u mime hash now]\<rparr>)"
  using assms by (auto simp: insert_file_Inr upload_file_def upload_node_def new_node_def files_ok_def)

lemma close_upload_None:
  assumes "uploads_ok db2"
  shows "update_upload None i (mark_closed s now) db2 =
     Inr (db2\<lparr>uploads := update_where (\<lambda>v. up_id v = i) (mark_closed s now) (uploads db2)\<rparr>)"
  using close_succeeds [OF assms, of i s now] by (auto simp: update_upload_Inr)

lemma phase_c_calm:
  assumes calm: "quiet ora" and ok: "files_ok db" "uploads_ok db"
    and i: "uuid ora 0 \<notin> nr_id ` set (nodes db)" and p: "up_parent u \<in> nr_id ` set (nodes db)"
    and free: "\<not> sibling_conflict db (up_parent u) (up_name_key u)" "up_final u \<notin> fr_key ` set (file_objects db)"
    and sz: "0 \<le> up_expected u"
  shows "phase_c ora u mime hash now db = Inr (committed (uuid ora 0) u mime hash now db)"
    and "phase_c_blind ora u now db =
       committed (uuid ora 0) u octet_stream (case up_sha u of None \<Rightarrow> [] | Some h \<Rightarrow> h) now db"
proof -
  let ?r = "upload_node (uuid ora 0) u now"
  let ?db1 = "db\<lparr>nodes := nodes db @ [?r]\<rparr>"
  note n = insert_upload_node [OF ok(1) i p free(1)]
  note f = insert_upload_file [OF ok(1) i free(2) sz refl]
  have c: "update_upload None (up_id u) (mark_closed StateComplete now)
      (?db1\<lparr>file_objects := file_objects db @ [upload_file (uuid ora 0) u m h now]\<rparr>) = Inr (committed (uuid ora 0) u m h now db)" for m h
    using ok(2) by (subst close_upload_None) (simp_all add: uploads_ok_def committed_def)
  show "phase_c ora u mime hash now db = Inr (committed (uuid ora 0) u mime hash now db)"
    using calm n f c by (simp add: phase_c_def)
  show "phase_c_blind ora u now db =
       committed (uuid ora 0) u octet_stream (case up_sha u of None \<Rightarrow> [] | Some h \<Rightarrow> h) now db"
    using calm n f c by (simp add: phase_c_blind_def Let_def attempt_def)
qed

lemma update_upload_calm:
  assumes "uploads_ok db" and "\<And>u. up_id u = i \<Longrightarrow> u \<in> set (uploads db) \<Longrightarrow> 0 \<le> up_received (f u) \<and> 0 \<le> up_reserved (f u)"
  shows "update_upload None i f db = Inr (db\<lparr>uploads := update_where (\<lambda>v. up_id v = i) f (uploads db)\<rparr>)"
  using assms by (auto simp: update_upload_Inr set_update_where uploads_ok_def row_ok_def)

text \<open>The rows an upload goes through in its last chunk.\<close>

definition verified_row :: "outside \<Rightarrow> upload_row \<Rightarrow> upload_row" where
  "verified_row ora u = mark_received (up_expected u) StateVerifying (secs (clock ora 1)) u"

definition complete_row :: "outside \<Rightarrow> string \<Rightarrow> upload_row \<Rightarrow> upload_row" where
  "complete_row ora h u = mark_closed StateComplete (secs (clock ora 2)) (mark_finalizing h (secs (clock ora 2)) (verified_row ora u))"

lemma final_chunk_effect:
  assumes calm: "quiet ora" and ok: "files_ok (w_db w)" "uploads_ok (w_db w)"
    and u: "find_upload (w_db w) i = Some u" "up_state u \<in> {StateCreated, StateReceiving}"
      "clock ora 0 \<le> up_expires u * 1000000000"
    and body: "st_error b = None" "up_received u + int (length (st_bytes b)) = up_expected u"
    and p: "open_staging_for_append st None (up_staging u) (w_fs w) = Inr p"
    and move: "move_staging_to_object st None None (up_staging u) (up_final u) (os_append p (st_bytes b) (w_fs w)) = (Inr (), fs')"
    and fresh: "uuid ora 0 \<notin> nr_id ` set (nodes (w_db w))" "up_parent u \<in> nr_id ` set (nodes (w_db w))"
      "\<not> sibling_conflict (w_db w) (up_parent u) (up_name_key u)" "up_final u \<notin> fr_key ` set (file_objects (w_db w))"
    and c: "fs_files (w_fs w) p = Some c"
  shows "\<exists>db'. write_chunk sha detect st ora i (up_received u) b w =
      (Inr (complete_row ora (hex_encode (sha (c @ st_bytes b))) u), \<lparr>w_db = db', w_fs = fs'\<rparr>) \<and>
    find_upload db' i = Some (complete_row ora (hex_encode (sha (c @ st_bytes b))) u) \<and> uploads_ok db' \<and>
    nodes db' = nodes (w_db w) @ [upload_node (uuid ora 0) u (secs (clock ora 2))] \<and>
    file_objects db' = file_objects (w_db w) @ [upload_file (uuid ora 0) u
      (fst (sniff_mime_type detect None None p (os_append p (st_bytes b) (w_fs w))))
      (hex_encode (sha (c @ st_bytes b))) (secs (clock ora 2))]"
proof -
  let ?bs = "st_bytes b" and ?now = "secs (clock ora 2)"
  let ?fs1 = "os_append p ?bs (w_fs w)"
  let ?u1 = "u\<lparr>up_received := up_expected u, up_state := StateVerifying\<rparr>"
  let ?f1 = "mark_received (up_expected u) StateVerifying (secs (clock ora 1))"
  let ?db1 = "(w_db w)\<lparr>uploads := update_where (\<lambda>v. up_id v = i) ?f1 (uploads (w_db w))\<rparr>"
  from p have sp: "staging_path st (up_staging u) = Inr p" by (simp add: open_staging_Inr)
  let ?h = "hex_encode (sha (c @ ?bs))"
  let ?f2 = "mark_finalizing ?h ?now"
  let ?db2 = "?db1\<lparr>uploads := update_where (\<lambda>v. up_id v = i) ?f2 (uploads ?db1)\<rparr>"
  from u(1) ok(2) have row: "u \<in> set (uploads (w_db w))" "up_id u = i" "row_ok u"
    by (simp_all add: find_upload_iff) (simp add: uploads_ok_def)
  then have exp: "0 \<le> up_expected u" "wrap64 (up_expected u) = up_expected u"
    by (auto simp: row_ok_def in_int64_def intro: wrap64_id)
  have a1: "update_upload None i ?f1 (w_db w) = Inr ?db1"
    using exp ok(2) by (intro update_upload_calm) (auto simp: mark_received_def uploads_ok_def row_ok_def)
  have step1: "row_step u (?f1 u)"
    using row_step.verify [of u] u(2) row(3) by (simp add: row_ok_def)
  have ok1: "uploads_ok ?db1"
    using update_upload_advances [OF a1 ok(2) u(1)] step1 uploads_ok_advances [OF ok(2)] by blast
  have find1: "find_upload ?db1 i = Some (?f1 u)"
    using find_after_update [OF a1] u(1) by (simp add: mark_received_def)
  have a2: "update_upload None i ?f2 ?db1 = Inr ?db2"
    using ok1 by (intro update_upload_calm) (auto simp: mark_finalizing_def uploads_ok_def row_ok_def)
  have step2: "row_step (?f1 u) (?f2 (?f1 u))"
    by (rule row_step.intent) (simp add: mark_received_def)
  have ok2: "uploads_ok ?db2"
    using update_upload_advances [OF a2 ok1 find1] step2 uploads_ok_advances [OF ok1] by blast
  have find2: "find_upload ?db2 i = Some (?f2 (?f1 u))"
    using find_after_update [OF a2] find1 by (simp add: mark_finalizing_def)
  have files2: "files_ok ?db2" using ok(1) by (simp add: files_ok_def)
  define mime where "mime = fst (sniff_mime_type detect None None p ?fs1)"
  let ?db3 = "committed (uuid ora 0) ?u1 mime ?h ?now ?db2"
  have pc: "phase_c ora ?u1 mime ?h ?now ?db2 = Inr ?db3"
    using fresh exp by (intro phase_c_calm(1) [OF calm files2 ok2]) (simp_all add: sibling_conflict_def)
  have content: "os_open None p ?fs1 = Inr (c @ ?bs)" using c by (simp add: os_open_Inr os_append_def)
  have fin: "finalize_upload sha detect st ora ?u1 \<lparr>w_db = ?db1, w_fs = ?fs1\<rparr> = (Inr (), \<lparr>w_db = ?db3, w_fs = fs'\<rparr>)"
    using calm sp content a2 move pc row(2) by (simp add: finalize_upload_def Let_def mime_def)
  let ?v = "mark_closed StateComplete ?now (?f2 (?f1 u))"
  have c3: "update_upload None i (mark_closed StateComplete ?now) ?db2 =
      Inr (?db2\<lparr>uploads := update_where (\<lambda>v. up_id v = i) (mark_closed StateComplete ?now) (uploads ?db2)\<rparr>)"
    by (rule close_upload_None [OF ok2])
  from find_after_update [OF c3, of i] find2 row(2) have find3: "find_upload ?db3 i = Some ?v"
    by (simp add: mark_closed_def find_upload_def committed_def)
  have pair: "w\<lparr>w_fs := f, w_db := d\<rparr> = \<lparr>w_db = d, w_fs = f\<rparr>" for f d by simp
  have "write_chunk sha detect st ora i (up_received u) b w = (Inr ?v, \<lparr>w_db = ?db3, w_fs = fs'\<rparr>)"
    using u p calm body exp a1 fin find3
    by (auto simp: write_chunk_def Let_def get_upload_def not_less pair simp del: One_nat_def)
  moreover have "upload_node (uuid ora 0) ?u1 ?now = upload_node (uuid ora 0) u ?now"
    "upload_file (uuid ora 0) ?u1 mime ?h ?now = upload_file (uuid ora 0) u mime ?h ?now"
    by (simp_all add: upload_node_def upload_file_def)
  moreover have "uploads_ok ?db3"
  proof -
    have "row_step (?f2 (?f1 u)) ?v" by (rule row_step.commit) (simp add: mark_finalizing_def)
    with c3 ok2 find2 have "advances (uploads ?db2) (uploads ?db3)"
      using update_upload_advances [OF c3 ok2 find2] row(2) by (auto simp: committed_def)
    with ok2 show ?thesis by (rule uploads_ok_advances)
  qed
  moreover have "complete_row ora ?h u = ?v" by (simp add: complete_row_def verified_row_def)
  ultimately show ?thesis using find3
    by (intro exI [of _ ?db3]) (simp add: committed_def mime_def)
qed

text \<open>
  C15: On a working system the chunk that brings the last expected bytes completes the upload in
  the same call: if no active sibling has taken the name and the object can be moved into place,
  the call returns the complete upload and the node and the file object are in the database.
\<close>

theorem last_chunk_completes:
  assumes calm: "quiet ora" and ok: "files_ok (w_db w)" "uploads_ok (w_db w)"
    and u: "find_upload (w_db w) i = Some u" "up_state u \<in> {StateCreated, StateReceiving}"
      "clock ora 0 \<le> up_expires u * 1000000000"
    and body: "st_error b = None" "up_received u + int (length (st_bytes b)) = up_expected u"
    and p: "open_staging_for_append st None (up_staging u) (w_fs w) = Inr p"
    and move: "move_staging_to_object st None None (up_staging u) (up_final u) (os_append p (st_bytes b) (w_fs w)) = (Inr (), fs')"
    and fresh: "uuid ora 0 \<notin> nr_id ` set (nodes (w_db w))" "up_parent u \<in> nr_id ` set (nodes (w_db w))"
      "\<not> sibling_conflict (w_db w) (up_parent u) (up_name_key u)" "up_final u \<notin> fr_key ` set (file_objects (w_db w))"
  shows "\<exists>v db'. write_chunk sha detect st ora i (up_received u) b w = (Inr v, \<lparr>w_db = db', w_fs = fs'\<rparr>) \<and>
    up_state v = StateComplete \<and> up_received v = up_expected u \<and> up_reserved v = 0 \<and> find_upload db' i = Some v \<and>
    nodes db' = nodes (w_db w) @ [upload_node (uuid ora 0) u (secs (clock ora 2))] \<and>
    (\<exists>mime hash. file_objects db' = file_objects (w_db w) @ [upload_file (uuid ora 0) u mime hash (secs (clock ora 2))])"
proof -
  from p obtain c where c: "fs_files (w_fs w) p = Some c" by (auto simp: open_staging_Inr)
  show ?thesis
    using final_chunk_effect [OF calm ok u body p move fresh c, of sha detect]
    by (elim exE conjE) (intro exI conjI, assumption, simp_all add: complete_row_def verified_row_def mark_defs)
qed

section \<open>A small world for the witnesses\<close>

definition demo_cfg :: config where
  "demo_cfg = (read_config (\<lambda>_. []))\<lparr>MaxStorageBytes := 100, MaxFileBytes := 10, MinFreeBytes := 1, UploadExpiry := hour\<rparr>"

definition demo_ora :: outside where
  "demo_ora = \<lparr>db_fails = (\<lambda>_. None), fs_fails = (\<lambda>_. None), clock = (\<lambda>_. 5000000000), uuid = (\<lambda>_. ''u''),
     rand_bytes = (\<lambda>k. if k = 0 then [CHR 0xAA, CHR 0xBB] else [CHR 0xCC, CHR 0xDD])\<rparr>"

definition demo_up :: upload_row where
  "demo_up = \<lparr>up_id = ''u'', up_owner = ''me'', up_parent = root_id, up_name = ''F'', up_name_key = ''f'', up_expected = 3,
     up_received = 0, up_reserved = 3, up_staging = ''aabb'', up_final = ''ccdd'', up_state = StateCreated,
     up_sha = None, up_error = None, up_created = 5, up_updated = 5, up_expires = 3605\<rparr>"

definition demo_w0 :: world where
  "demo_w0 = \<lparr>w_db = init_db 0, w_fs = demo_fs\<rparr>"

definition demo_w1 :: world where
  "demo_w1 = \<lparr>w_db = (init_db 0)\<lparr>uploads := [demo_up]\<rparr>,
     w_fs = demo_fs\<lparr>fs_files := (\<lambda>_. None)(''/d/staging/uploads/aabb'' \<mapsto> [])\<rparr>\<rparr>"

lemma demo_ora_simps [simp]:
  "db_fails demo_ora k = None" "fs_fails demo_ora k = None" "clock demo_ora k = 5000000000" "uuid demo_ora k = ''u''" "quiet demo_ora"
  "rand_bytes demo_ora 0 = [CHR 0xAA, CHR 0xBB]" "rand_bytes demo_ora (Suc k) = [CHR 0xCC, CHR 0xDD]"
  by (simp_all add: demo_ora_def quiet_def)

lemma demo_keys: "generate_opaque_key [CHR 0xAA, CHR 0xBB] = ''aabb''" "generate_opaque_key [CHR 0xCC, CHR 0xDD] = ''ccdd''"
  by code_simp+

lemma demo_new_upload: "new_upload demo_cfg demo_ora ''me'' root_id ''F'' ''f'' 3 = demo_up"
  by (simp add: new_upload_def demo_up_def demo_keys demo_cfg_def secs_def hour_def)

lemma demo_create:
  "create_upload plain_text demo_cfg demo_st (Inl ''no statfs'') demo_ora ''me'' [] ''F'' 3 demo_w0 = (Inr demo_up, demo_w1)"
proof -
  have name: "normalize_name plain_text ''F'' = Inr (''F'', ''f'')" by code_simp
  have wrap: "wrap64 0 = 0" "wrap64 3 = 3" by (simp_all add: wrap64_id in_int64_def)
  have space: "check_space demo_cfg demo_ora (Inl ''no statfs'') 3 (init_db 0) = Inr ()"
    by (simp add: check_space_def stored_bytes_def reserved_bytes_def init_db_def sum_query_def in_int64_def
        get_disk_space_def demo_cfg_def wrap)
  have "\<not> sibling_conflict (init_db 0) root_id ''f''"
    by (simp add: sibling_conflict_def init_db_def system_row_def)
  moreover have "find_node (init_db 0) root_id = Some (system_row root_id ''Root'' ''root'' 0)"
    by (simp add: find_node_def init_db_def system_row_def)
  moreover have "create_staging_file demo_st None ''aabb'' demo_fs = (Inr (), w_fs demo_w1)"
    by (simp add: create_staging_file_def demo_paths demo_dirs os_create_excl_def demo_fs_def demo_w1_def)
  moreover have "insert_upload None demo_up (init_db 0) = Inr (w_db demo_w1)"
    by (simp add: insert_upload_def demo_up_def demo_w1_def init_db_def system_row_def)
  moreover have "find_upload (w_db demo_w1) ''u'' = Some demo_up"
    by (simp add: find_upload_def demo_up_def demo_w1_def)
  moreover have "up_staging demo_up = ''aabb''" "up_id demo_up = ''u''" by (simp_all add: demo_up_def)
  moreover have "MaxFileBytes demo_cfg = 10" by (simp add: demo_cfg_def)
  moreover have "demo_w1 = \<lparr>w_db = w_db demo_w1, w_fs = w_fs demo_w1\<rparr>" by simp
  ultimately show ?thesis
    by (simp add: create_upload_def demo_w0_def name upload_parent_def get_node_def check_folder_def space demo_new_upload
        Let_def get_upload_def system_row_def del: One_nat_def)
qed

lemma demo_w1_facts:
  "find_upload (w_db demo_w1) ''u'' = Some demo_up" "uploads_ok (w_db demo_w1)"
  "open_staging_for_append demo_st None ''aabb'' (w_fs demo_w1) = Inr ''/d/staging/uploads/aabb''"
  "staged demo_st (w_fs demo_w1) ''aabb'' = Some []"
  by (simp_all add: find_upload_def demo_up_def demo_w1_def uploads_ok_def row_ok_def active_states_def
      open_staging_Inr demo_paths staged_def)

text \<open>SHA-256 and the type detection of the witnesses.\<close>

definition toy_sha :: "string \<Rightarrow> string" where "toy_sha s = take 2 s"
definition toy_detect :: "string \<Rightarrow> string" where "toy_detect s = ''text/plain''"

definition body :: "string \<Rightarrow> stream" where "body s = \<lparr>st_bytes = s, st_error = None\<rparr>"

lemma demo_first_chunk:
  "write_chunk toy_sha toy_detect demo_st demo_ora ''u'' 0 (body ''ab'') demo_w1 =
     (Inr (demo_up\<lparr>up_received := 2, up_state := StateReceiving\<rparr>),
      \<lparr>w_db = (init_db 0)\<lparr>uploads := [mark_received 2 StateReceiving 5 demo_up]\<rparr>,
       w_fs = os_append ''/d/staging/uploads/aabb'' ''ab'' (w_fs demo_w1)\<rparr>)"
proof -
  have "wrap64 2 = 2" by (simp add: wrap64_id in_int64_def)
  then show ?thesis
    by (simp add: write_chunk_def get_upload_def demo_w1_facts demo_up_def body_def Let_def secs_def)
      (simp add: update_upload_def demo_w1_def demo_up_def mark_received_def demo_w1_facts [unfolded demo_w1_def])
qed

definition demo_file_node :: node_row where
  "demo_file_node = new_node ''u'' root_id KindFile ''F'' ''f'' 5"

definition demo_file_row :: "string \<Rightarrow> file_row" where
  "demo_file_row h = \<lparr>fr_node = ''u'', fr_key = ''ccdd'', fr_size = 3, fr_mime = ''text/plain'', fr_sha = Some h,
     fr_backup = None, fr_created = 5, fr_updated = 5\<rparr>"

definition demo_done :: "string \<Rightarrow> upload_row" where
  "demo_done h = mark_closed StateComplete 5 (mark_finalizing h 5 (mark_received 3 StateVerifying 5 demo_up))"

lemma demo_files: "files_ok (w_db demo_w1)" "uploads_ok (w_db demo_w1)" "store_ok (w_db demo_w1)"
proof -
  show f: "files_ok (w_db demo_w1)" using init_files_ok [of 0] by (simp add: demo_w1_def files_ok_def init_db_def)
  show u: "uploads_ok (w_db demo_w1)" by (rule demo_w1_facts)
  show "store_ok (w_db demo_w1)"
    using f u by (simp add: store_ok_def) (simp add: upload_folders_ok_def demo_w1_def demo_up_def init_db_def system_row_def)
qed

text \<open>The small upload is completed by three bytes, whatever its staging file holds.\<close>

lemma demo_completion:
  assumes "c = [] \<or> c = ''xxxx''"
  shows "\<exists>fs' db'. write_chunk toy_sha toy_detect demo_st demo_ora ''u'' 0 (body ''abc'')
      (demo_w1\<lparr>w_fs := os_append ''/d/staging/uploads/aabb'' c (w_fs demo_w1)\<rparr>) =
    (Inr (complete_row demo_ora (hex_encode (toy_sha (c @ ''abc''))) demo_up), \<lparr>w_db = db', w_fs = fs'\<rparr>) \<and>
    nodes db' = nodes (init_db 0) @ [upload_node ''u'' demo_up 5]"
proof -
  let ?p = "''/d/staging/uploads/aabb''"
  let ?w = "demo_w1\<lparr>w_fs := os_append ?p c (w_fs demo_w1)\<rparr>"
  have p: "open_staging_for_append demo_st None (up_staging demo_up) (w_fs ?w) = Inr ?p"
    by (simp add: demo_up_def open_staging_Inr demo_paths os_append_def demo_w1_def)
  obtain fs' where move: "move_staging_to_object demo_st None None (up_staging demo_up) (up_final demo_up)
      (os_append ?p (st_bytes (body ''abc'')) (w_fs ?w)) = (Inr (), fs')"
    by (auto simp: move_staging_to_object_def demo_paths demo_dirs os_mkdir_all_def os_append_def os_rename_def os_open_def
        demo_w1_def demo_up_def demo_fs_def)
  have "\<exists>db'. write_chunk toy_sha toy_detect demo_st demo_ora ''u'' (up_received demo_up) (body ''abc'') ?w =
      (Inr (complete_row demo_ora (hex_encode (toy_sha (c @ st_bytes (body ''abc'')))) demo_up), \<lparr>w_db = db', w_fs = fs'\<rparr>) \<and>
    find_upload db' ''u'' = Some (complete_row demo_ora (hex_encode (toy_sha (c @ st_bytes (body ''abc'')))) demo_up) \<and> uploads_ok db' \<and>
    nodes db' = nodes (w_db ?w) @ [upload_node (uuid demo_ora 0) demo_up (secs (clock demo_ora 2))] \<and>
    file_objects db' = file_objects (w_db ?w) @ [upload_file (uuid demo_ora 0) demo_up
      (fst (sniff_mime_type toy_detect None None ?p (os_append ?p (st_bytes (body ''abc'')) (w_fs ?w))))
      (hex_encode (toy_sha (c @ st_bytes (body ''abc'')))) (secs (clock demo_ora 2))]"
    using demo_files demo_w1_facts
    by (intro final_chunk_effect [OF _ _ _ _ _ _ _ _ p move])
      (simp_all add: body_def os_append_def, simp_all add: demo_up_def demo_w1_def init_db_def system_row_def root_id_def
        trash_root_id_def sibling_conflict_def)
  then show ?thesis by (auto simp: body_def demo_w1_def demo_up_def)
qed

theorem reachable_store_ok_witness: "tree_ok (nodes (w_db demo_w1)) \<and> up_reserved demo_up = 3"
proof -
  have "store_step quiet plain_text demo_cfg demo_st toy_sha toy_detect demo_w0 demo_w1"
    by (rule store_step.create [OF demo_create]) (simp_all add: in_int64_def)
  from reachable_store_ok [OF r_into_rtranclp [where r = "store_step quiet plain_text demo_cfg demo_st toy_sha toy_detect", OF this]]
  show ?thesis by (simp add: demo_w0_def) (simp add: demo_up_def)
qed

theorem quota_never_exceeded_witness: "stored_bytes (w_db demo_w1) + reserved_bytes (w_db demo_w1) = 3 \<and> (3 :: int) \<le> MaxStorageBytes demo_cfg"
proof -
  have step: "store_step quiet plain_text demo_cfg demo_st toy_sha toy_detect demo_w0 demo_w1"
    by (rule store_step.create [OF demo_create]) (simp_all add: in_int64_def)
  have "stored_bytes (w_db demo_w1) + reserved_bytes (w_db demo_w1) = 3"
    by (simp add: stored_bytes_def reserved_bytes_def demo_w1_def init_db_def demo_up_def active_states_def)
  with quota_never_exceeded [OF r_into_rtranclp [where r = "store_step quiet plain_text demo_cfg demo_st toy_sha toy_detect", OF step], of 0]
  show ?thesis by (simp add: demo_w0_def) (simp add: demo_cfg_def)
qed

theorem uploads_follow_life_cycle_witness:
  "\<exists>w' v. store_step quiet plain_text demo_cfg demo_st toy_sha toy_detect demo_w1 w' \<and> v \<in> set (uploads (w_db w')) \<and> row_step\<^sup>*\<^sup>* demo_up v"
proof -
  obtain res w' where "terminate_upload demo_st demo_ora ''u'' demo_w1 = (res, w')" by fastforce
  then have step: "store_step quiet plain_text demo_cfg demo_st toy_sha toy_detect demo_w1 w'"
    by (rule store_step.terminate) simp
  from uploads_follow_life_cycle [OF step demo_files(3), of demo_up] step show ?thesis
    by (auto simp: demo_w1_def)
qed

lemma demo_complete_state: "up_state (complete_row ora h u) = StateComplete" "up_final (complete_row ora h demo_up) = ''ccdd''"
    "up_expected (complete_row ora h demo_up) = 3"
  by (simp_all add: complete_row_def verified_row_def mark_defs demo_up_def)

theorem completed_upload_content_witness:
  "\<exists>v w'. write_chunk toy_sha toy_detect demo_st demo_ora ''u'' 0 (body ''abc'') demo_w1 = (Inr v, w') \<and>
     stored demo_st (w_fs w') ''ccdd'' = Some ''abc''"
proof -
  have "demo_w1\<lparr>w_fs := os_append ''/d/staging/uploads/aabb'' [] (w_fs demo_w1)\<rparr> = demo_w1"
    by (simp add: os_append_def demo_w1_def)
  with demo_completion [of "[]"] obtain v w' where
    v: "write_chunk toy_sha toy_detect demo_st demo_ora ''u'' 0 (body ''abc'') demo_w1 = (Inr v, w')" "up_state v = StateComplete"
    by (auto simp: demo_complete_state)
  from completed_upload_content [OF v demo_files(2)] obtain u c where
    "find_upload (w_db demo_w1) ''u'' = Some u" "staged demo_st (w_fs demo_w1) (up_staging u) = Some c"
    "stored demo_st (w_fs w') (up_final u) = Some (c @ ''abc'')"
    by (auto simp: body_def)
  with demo_w1_facts v(1) show ?thesis by (auto simp: demo_up_def)
qed

theorem last_chunk_completes_witness:
  "\<exists>v w'. write_chunk toy_sha toy_detect demo_st demo_ora ''u'' 0 (body ''abc'') demo_w1 = (Inr v, w') \<and> up_state v = StateComplete"
proof -
  let ?p = "''/d/staging/uploads/aabb''"
  have p: "open_staging_for_append demo_st None (up_staging demo_up) (w_fs demo_w1) = Inr ?p"
    using demo_w1_facts by (simp add: demo_up_def)
  obtain fs' where move: "move_staging_to_object demo_st None None (up_staging demo_up) (up_final demo_up)
      (os_append ?p (st_bytes (body ''abc'')) (w_fs demo_w1)) = (Inr (), fs')"
    by (auto simp: move_staging_to_object_def demo_paths demo_dirs os_mkdir_all_def os_append_def os_rename_def os_open_def
        demo_w1_def demo_up_def demo_fs_def)
  have "\<exists>v db'. write_chunk toy_sha toy_detect demo_st demo_ora ''u'' (up_received demo_up) (body ''abc'') demo_w1 = (Inr v, \<lparr>w_db = db', w_fs = fs'\<rparr>) \<and>
    up_state v = StateComplete \<and> up_received v = up_expected demo_up \<and> up_reserved v = 0 \<and> find_upload db' ''u'' = Some v \<and>
    nodes db' = nodes (w_db demo_w1) @ [upload_node (uuid demo_ora 0) demo_up (secs (clock demo_ora 2))] \<and>
    (\<exists>mime hash. file_objects db' = file_objects (w_db demo_w1) @ [upload_file (uuid demo_ora 0) demo_up mime hash (secs (clock demo_ora 2))])"
    using demo_files demo_w1_facts
    by (intro last_chunk_completes [OF _ _ _ _ _ _ _ _ p move])
      (simp_all add: body_def, simp_all add: demo_up_def demo_w1_def init_db_def system_row_def root_id_def
        trash_root_id_def sibling_conflict_def)
  then show ?thesis by (auto simp: demo_up_def)
qed

end
