(* ===== verification/Upload_Recovery.thy ===== *)
theory Upload_Recovery
  imports Upload_Props
begin

text \<open>
  What happens to an upload after something went wrong: chunks that were written but not
  counted, termination, expiry, and reconciliation after a crash in each phase of finalization.
\<close>

section \<open>Rejected chunks\<close>

lemma length_mismatch_effect:
  assumes "write_chunk sha detect st ora i offset b w = (Inl ErrLengthMismatch, w')"
  obtains u p where "get_upload (db_fails ora 0) (w_db w) i = Inr u"
    "open_staging_for_append st (fs_fails ora 0) (up_staging u) (w_fs w) = Inr p"
    "w' = w\<lparr>w_fs := os_append p (st_bytes b) (w_fs w)\<rparr>"
  using assms
  by (auto simp: write_chunk_def get_upload_def Let_def split: sum.splits option.splits if_splits prod.splits)

text \<open>
  A chunk that is too long is refused with ErrLengthMismatch, but its bytes are already in the
  staging file and nothing removes them, while the received count stays: when the client then
  sends the right bytes at the same offset, the upload completes with an object that contains
  both and is longer than the size recorded for it.
\<close>

theorem rejected_chunk_corrupts:
  assumes first: "write_chunk sha detect (storage_at base) ora1 i off1 b1 w = (Inl ErrLengthMismatch, w1)"
    and second: "write_chunk sha detect (storage_at base) ora2 i off2 b2 w1 = (Inr v, w2)" "up_state v = StateComplete"
    and ok: "uploads_ok (w_db w)" and len: "int (length (st_bytes b2)) < 2 ^ 63"
    and u: "find_upload (w_db w) i = Some u" "staged (storage_at base) (w_fs w) (up_staging u) = Some c"
      "int (length c) = up_received u" "st_bytes b1 \<noteq> []"
  shows "w_db w1 = w_db w \<and> off2 = up_received u \<and>
    stored (storage_at base) (w_fs w2) (up_final u) = Some (c @ st_bytes b1 @ st_bytes b2) \<and>
    up_expected u < int (length (c @ st_bytes b1 @ st_bytes b2)) \<and>
    (\<exists>f \<in> set (file_objects (w_db w2)). fr_key f = up_final u \<and> fr_size f = up_expected u)"
proof -
  from length_mismatch_effect [OF first] u(1) obtain p where
    p: "open_staging_for_append (storage_at base) (fs_fails ora1 0) (up_staging u) (w_fs w) = Inr p"
    and w1: "w1 = w\<lparr>w_fs := os_append p (st_bytes b1) (w_fs w)\<rparr>"
    by (auto simp: get_upload_Inr)
  have c1: "staged (storage_at base) (w_fs w1) (up_staging u) = Some (c @ st_bytes b1)"
    by (rule append_contents [OF p, of "st_bytes b1"]) (use u(2) in \<open>simp add: w1\<close>)
  have ok1: "uploads_ok (w_db w1)" using ok by (simp add: w1)
  from completion_effect [OF second ok1 len] obtain u' c' mime now j where
    *: "find_upload (w_db w1) i = Some u'" "off2 = up_received u'" "staged (storage_at base) (w_fs w1) (up_staging u') = Some c'"
      "stored (storage_at base) (w_fs w2) (up_final u') = Some (c' @ st_bytes b2)"
      "upload_file j u' mime (hex_encode (sha (c' @ st_bytes b2))) now \<in> set (file_objects (w_db w2))"
      "up_received u' + int (length (st_bytes b2)) = up_expected u'"
    by (elim exE conjE) (rule that; assumption)
  from *(1) u(1) have "u' = u" by (simp add: w1)
  moreover from this c1 *(3) have "c' = c @ st_bytes b1" by simp
  ultimately have "off2 = up_received u" "stored (storage_at base) (w_fs w2) (up_final u) = Some ((c @ st_bytes b1) @ st_bytes b2)"
    "upload_file j u mime (hex_encode (sha ((c @ st_bytes b1) @ st_bytes b2))) now \<in> set (file_objects (w_db w2))"
    "up_received u + int (length (st_bytes b2)) = up_expected u"
    using * by simp_all
  moreover from this(3) have "\<exists>f \<in> set (file_objects (w_db w2)). fr_key f = up_final u \<and> fr_size f = up_expected u"
    by (rule bexI [rotated]) (simp add: upload_file_def)
  ultimately show ?thesis using u(3,4) by (cases "st_bytes b1") (simp_all add: w1)
qed

lemma demo_too_long:
  "write_chunk toy_sha toy_detect demo_st demo_ora ''u'' 0 (body ''xxxx'') demo_w1 =
     (Inl ErrLengthMismatch, demo_w1\<lparr>w_fs := os_append ''/d/staging/uploads/aabb'' ''xxxx'' (w_fs demo_w1)\<rparr>)"
proof -
  have "wrap64 4 = 4" by (simp add: wrap64_id in_int64_def)
  then show ?thesis
    by (simp add: write_chunk_def get_upload_def demo_w1_facts Let_def body_def) (simp add: demo_up_def demo_w1_facts)
qed

theorem rejected_chunk_corrupts_witness:
  "\<exists>w1 v w2. write_chunk toy_sha toy_detect demo_st demo_ora ''u'' 0 (body ''xxxx'') demo_w1 = (Inl ErrLengthMismatch, w1) \<and>
     write_chunk toy_sha toy_detect demo_st demo_ora ''u'' 0 (body ''abc'') w1 = (Inr v, w2) \<and>
     up_expected v = 3 \<and> stored demo_st (w_fs w2) ''ccdd'' = Some ''xxxxabc''"
proof -
  let ?w1 = "demo_w1\<lparr>w_fs := os_append ''/d/staging/uploads/aabb'' ''xxxx'' (w_fs demo_w1)\<rparr>"
  let ?v = "complete_row demo_ora (hex_encode (toy_sha (''xxxx'' @ ''abc''))) demo_up"
  from demo_completion [of "''xxxx''"] obtain w2 where
    w2: "write_chunk toy_sha toy_detect demo_st demo_ora ''u'' 0 (body ''abc'') ?w1 = (Inr ?v, w2)" by auto
  from rejected_chunk_corrupts [OF demo_too_long w2 _ demo_files(2) _ demo_w1_facts(1), of "[]"] demo_w1_facts(4)
  have "stored demo_st (w_fs w2) (up_final demo_up) = Some (''xxxx'' @ ''abc'')"
    by (simp add: demo_complete_state body_def) (simp add: demo_up_def)
  then have "stored demo_st (w_fs w2) ''ccdd'' = Some ''xxxxabc''" by (simp add: demo_up_def)
  with demo_too_long w2 show ?thesis
    by (intro exI [of _ ?w1] exI [of _ ?v] exI [of _ w2]) (simp add: demo_complete_state)
qed

section \<open>Termination\<close>

text \<open>
  Terminating an upload that is not complete releases its reservation and removes its
  staging file; a complete upload is refused. (A finalizing upload is accepted too: its object,
  if it has been moved already, stays on disk with no row that names it as a file.)
\<close>

theorem terminate_releases:
  assumes calm: "quiet ora" and ok: "uploads_ok (w_db w)" and u: "find_upload (w_db w) i = Some u"
  shows "if up_state u = StateComplete then terminate_upload (storage_at base) ora i w = (Inl ErrInvalidState, w)
    else \<exists>w'. terminate_upload (storage_at base) ora i w = (Inr (), w') \<and>
      (\<exists>v. find_upload (w_db w') i = Some v \<and> up_state v = StateTerminated \<and> up_reserved v = 0) \<and>
      reserved_bytes (w_db w') = reserved_bytes (w_db w) - held u \<and>
      staged (storage_at base) (w_fs w') (up_staging u) = None \<and>
      stored (storage_at base) (w_fs w') = stored (storage_at base) (w_fs w)"
proof (cases "up_state u = StateComplete")
  case False
  let ?f = "mark_closed StateTerminated (secs (clock ora 0))"
  let ?rm = "remove_staging_file (storage_at base) None (up_staging u) (w_fs w)"
  from close_succeeds [OF ok] obtain db' where upd: "update_upload None i ?f (w_db w) = Inr db'" by blast
  have fs: "staged (storage_at base) (snd ?rm) (up_staging u) = None \<and>
      stored (storage_at base) (snd ?rm) = stored (storage_at base) (w_fs w)"
  proof (cases "fst ?rm")
    case (Inl e)
    then obtain fs' where rm: "?rm = (Inl e, fs')" by (metis prod.collapse)
    have "staged (storage_at base) fs' (up_staging u) = None"
      using rm by (auto simp: remove_staging_file_def remove_quietly_def os_remove_def os_open_def staged_def
          is_not_exist_def split: sum.splits option.splits if_splits)
    moreover have "fs' = w_fs w"
      using rm by (auto simp: remove_staging_file_def dest: remove_quietly_Inl split: sum.splits)
    ultimately show ?thesis using rm by simp
  next
    case (Inr x)
    then obtain fs' where "?rm = (Inr x, fs')" by (metis prod.collapse)
    with remove_staging_contents [OF this] show ?thesis by simp
  qed
  have "terminate_upload (storage_at base) ora i w = (Inr (), \<lparr>w_db = db', w_fs = snd ?rm\<rparr>)"
    using calm u False upd by (simp add: terminate_upload_def get_upload_def)
  with fs find_after_update [OF upd, of i] u close_held [OF upd ok u] False show ?thesis
    by (simp add: mark_closed_def active_states_def)
qed (use calm u in \<open>simp add: terminate_upload_def get_upload_def\<close>)

theorem terminate_releases_witness:
  "\<exists>w'. terminate_upload demo_st demo_ora ''u'' demo_w1 = (Inr (), w') \<and> reserved_bytes (w_db w') = 0"
proof -
  from terminate_releases [OF _ demo_files(2) demo_w1_facts(1), of demo_ora "''/d''"] obtain w' where
    "terminate_upload demo_st demo_ora ''u'' demo_w1 = (Inr (), w')"
    "reserved_bytes (w_db w') = reserved_bytes (w_db demo_w1) - held demo_up"
    by (auto simp: demo_up_def)
  moreover have "reserved_bytes (w_db demo_w1) = 3" "held demo_up = 3"
    by (simp_all add: reserved_bytes_def demo_w1_def demo_up_def active_states_def held_def)
  ultimately show ?thesis by simp
qed

section \<open>Reconciliation\<close>

text \<open>
  Reconcile never touches an upload in the verifying state: one whose finalization failed
  before its first phase stays there with its reservation, and the client cannot go on either,
  since every further chunk is refused with ErrInvalidState.
\<close>

theorem verifying_upload_stuck:
  assumes step: "reconcile st ora stale final w = (res, w')" and ok: "uploads_ok (w_db w)"
    and u: "u \<in> set (uploads (w_db w))" "up_state u = StateVerifying"
  shows "u \<in> set (uploads (w_db w')) \<and> held u = up_expected u \<and>
    (db_fails ora' 0 = None \<longrightarrow> write_chunk sha detect st ora' (up_id u) offset b w' = (Inl ErrInvalidState, w'))"
proof -
  define now where "now = secs (clock ora 0)"
  define w1 where "w1 = (if db_fails ora 0 = None
     then visit_all (\<lambda>k. expire_one st (stale k) now) 0 (stale_uploads now (w_db w)) w else w)"
  let ?w2 = "visit_all (\<lambda>k. resolve_one st (final k) now) 0 (finalizing_uploads (w_db w1)) w1"
  have dist: "distinct (map up_id (uploads (w_db w)))" using ok by (simp add: uploads_ok_def)
  have find: "find_upload (w_db w) (up_id u) = Some u" using u(1) ok by (simp add: find_upload_iff)
  have "up_id u \<notin> up_id ` set (stale_uploads now (w_db w))"
    using u by (auto simp: stale_uploads_rows [OF ok] dest!: key_inj [OF dist u(1)])
  from expire_all_touches(2) [OF ok this] find have find1: "find_upload (w_db w1) (up_id u) = Some u"
    by (simp add: w1_def)
  have "advances (uploads (w_db w)) (uploads (w_db w1))"
    using expire_all_touches(1) [OF ok] by (simp add: w1_def)
  note w1 = uploads_ok_advances [OF ok this] find1
  have "up_id u \<notin> up_id ` set (finalizing_uploads (w_db w1))"
  proof
    assume "up_id u \<in> up_id ` set (finalizing_uploads (w_db w1))"
    then obtain x where x: "up_id u = up_id x" "x \<in> set (finalizing_uploads (w_db w1))" by (rule imageE)
    from x(2) have fin: "x \<in> set (uploads (w_db w1))" "up_state x = StateFinalizing"
      by (simp_all only: finalizing_uploads_rows(2) [OF w1(1)])
    have "find_upload (w_db w1) (up_id u) = Some x"
      using fin(1) x(1) by (simp only: find_upload_iff [OF w1(1)] simp_thms)
    with w1(2) fin(2) u(2) show False by auto
  qed
  from resolve_all_touches(2) [OF w1(1) this] w1(2) have w2: "find_upload (w_db ?w2) (up_id u) = Some u" by simp
  have ok2: "uploads_ok (w_db ?w2)"
    by (rule uploads_ok_advances [OF w1(1) resolve_all_touches(1) [OF w1(1)]])
  have "w' = w1 \<or> w' = ?w2"
    using step unfolding reconcile_def Let_def now_def [symmetric] w1_def [symmetric] by (auto split: option.splits)
  with w1 w2 ok2 have w': "uploads_ok (w_db w')" "find_upload (w_db w') (up_id u) = Some u" by auto
  then have "u \<in> set (uploads (w_db w'))" by (simp add: find_upload_iff)
  moreover have "held u = up_expected u"
    using ok u by (simp add: uploads_ok_def held_ok active_states_def)
  moreover have "db_fails ora' 0 = None \<longrightarrow> write_chunk sha detect st ora' (up_id u) offset b w' = (Inl ErrInvalidState, w')"
    using w'(2) u(2) by (simp add: write_chunk_def get_upload_def)
  ultimately show ?thesis by blast
qed

theorem verifying_upload_stuck_witness:
  "let u = demo_up\<lparr>up_state := StateVerifying, up_received := 3\<rparr>; w = demo_w1\<lparr>w_db := (w_db demo_w1)\<lparr>uploads := [u]\<rparr>\<rparr>
   in u \<in> set (uploads (w_db (snd (reconcile demo_st demo_ora (\<lambda>_. demo_ora) (\<lambda>_. demo_ora) w)))) \<and> held u = 3"
proof -
  let ?u = "demo_up\<lparr>up_state := StateVerifying, up_received := 3\<rparr>"
  let ?w = "demo_w1\<lparr>w_db := (w_db demo_w1)\<lparr>uploads := [?u]\<rparr>\<rparr>"
  have "uploads_ok (w_db ?w)" by (simp add: uploads_ok_def row_ok_def demo_up_def active_states_def)
  from verifying_upload_stuck [OF surjective_pairing this, of ?u demo_st demo_ora] show ?thesis
    by (simp add: demo_up_def)
qed

text \<open>A visit without faults closes the upload, unless its staging file cannot be moved.\<close>

lemma closed_now:
  assumes ok: "uploads_ok db" and rows: "uploads db2 = uploads db" and u: "find_upload db i = Some u"
  shows "find_upload (attempt (update_upload None i (mark_closed s now) db2) db2) i = Some (mark_closed s now u)"
proof -
  have nonneg: "0 \<le> up_received v \<and> 0 \<le> up_reserved v" if "v \<in> set (uploads db)" for v
    using ok that by (auto simp: uploads_ok_def row_ok_def)
  define db3 where "db3 = db2\<lparr>uploads := update_where (\<lambda>v. up_id v = i) (mark_closed s now) (uploads db2)\<rparr>"
  have upd: "update_upload None i (mark_closed s now) db2 = Inr db3"
    using nonneg by (auto simp: update_upload_Inr db3_def rows set_update_where mark_closed_def)
  from find_after_update [OF this] u show ?thesis
    by (simp add: upd attempt_def find_upload_def rows mark_closed_def)
qed

definition unmovable :: "storage \<Rightarrow> upload_row \<Rightarrow> bool" where
  "unmovable st u \<longleftrightarrow> (\<exists>fs e fs'. move_staging_to_object st None None (up_staging u) (up_final u) fs = (Inl e, fs'))"

lemma resolve_settles:
  assumes ok: "uploads_ok (w_db w)" and u: "find_upload (w_db w) (up_id u) = Some u" and calm: "quiet ora"
  shows "(\<exists>s \<in> {StateComplete, StateFailed}. find_upload (w_db (resolve_one st ora now u w)) (up_id u) = Some (mark_closed s now u)) \<or>
    unmovable st u"
proof -
  have blind: "find_upload (phase_c_blind ora u now (w_db w)) (up_id u) = Some (mark_closed StateComplete now u)"
    unfolding phase_c_blind_def Let_def using calm by (simp add: closed_now [OF ok _ u] attempt_uploads)
  obtain res fs1 where move: "move_staging_to_object st None None (up_staging u) (up_final u) (w_fs w) = (res, fs1)" by fastforce
  show ?thesis
  proof (cases res)
    case (Inl e)
    with move show ?thesis
      unfolding unmovable_def by blast
  next
    case (Inr x)
    with move calm blind closed_now [OF ok refl u] show ?thesis by (auto simp: resolve_one_def Let_def)
  qed
qed

lemma resolve_all_settles:
  assumes "uploads_ok (w_db w)" and "distinct (map up_id us)" and "\<And>k. quiet (final k)"
    and "\<And>u. u \<in> set us \<Longrightarrow> find_upload (w_db w) (up_id u) = Some u \<and> up_state u = StateFinalizing" and "u \<in> set us"
  shows "(\<exists>s \<in> {StateComplete, StateFailed}.
      find_upload (w_db (visit_all (\<lambda>k. resolve_one st (final k) now) n us w)) (up_id u) = Some (mark_closed s now u)) \<or>
    unmovable st u"
  using assms(1,2,4,5)
proof (induction us arbitrary: n w)
  case (Cons x us)
  let ?w = "resolve_one st (final n) now x w"
  have x: "find_upload (w_db w) (up_id x) = Some x" "up_state x = StateFinalizing" using Cons.prems(3) [of x] by auto
  have first: "touches (up_id x) (w_db w) (w_db ?w)" by (rule touches_resolve [OF Cons.prems(1) x])
  have ok: "uploads_ok (w_db ?w)" using uploads_ok_advances [OF Cons.prems(1)] first by (simp add: touches_def)
  have kept: "find_upload (w_db ?w) (up_id v) = Some v \<and> up_state v = StateFinalizing" if "v \<in> set us" for v
  proof -
    have "up_id v \<noteq> up_id x" using Cons.prems(2) that by (auto simp: image_iff)
    with first Cons.prems(3) [of v] that show ?thesis by (simp add: touches_def)
  qed
  have dist: "distinct (map up_id us)" "up_id x \<notin> up_id ` set us" using Cons.prems(2) by auto
  show ?case
  proof (cases "u \<in> set us")
    case True
    from Cons.IH [OF ok dist(1) kept True, of "Suc n"] show ?thesis by simp
  next
    case False
    with Cons.prems(4) have "u = x" by simp
    have "find_upload (w_db (visit_all (\<lambda>k. resolve_one st (final k) now) (Suc n) us ?w)) (up_id x) = find_upload (w_db ?w) (up_id x)"
    proof -
      have "touches (up_id v) (w_db w') (w_db (resolve_one st (final k) now v w'))"
        if "v \<in> set us" "uploads_ok (w_db w')" "find_upload (w_db w') (up_id v) = Some v" for k v w'
        using touches_resolve [OF that(2,3)] kept [OF that(1)] by blast
      from visit_all_touches [of us "\<lambda>k. resolve_one st (final k) now", OF this dist(1) _ ok] kept dist(2) show ?thesis by blast
    qed
    with resolve_settles [OF Cons.prems(1) x(1) assms(3) [of n], where st = st and now = now] \<open>u = x\<close> show ?thesis by simp
  qed
qed simp



end
