(* ===== verification/Upload_Crash.thy ===== *)
theory Upload_Crash
  imports Upload_Recovery "HOL-Library.Sublist"
begin

text \<open>
  A crash of the process in the middle of an operation of the upload service. What survives is
  the world after the last statement that took effect: SQLite undoes an open transaction, the
  file tree keeps every call that returned (a loss of power, which may also lose unsynced
  writes, is not modelled). Each operation has a trace here, the worlds it goes through in the
  order of the code's statements; a crash leaves the world before it or one on its trace.
  Reconciliation, which itself may crash, then meets that world.
\<close>

section \<open>The worlds an operation goes through\<close>

text \<open>Where a trace ends.\<close>

primrec ends :: "'w \<Rightarrow> 'w list \<Rightarrow> 'w" where
  "ends w [] = w"
| "ends w (x # xs) = ends x xs"

lemma ends_append [simp]: "ends w (xs @ ys) = ends (ends w xs) ys"
  by (induction xs arbitrary: w) simp_all

lemma ends_map: "ends (f w) (map f xs) = f (ends w xs)"
  by (induction xs arbitrary: w) simp_all

text \<open>Moving a staging file: the shard directory, then the rename.\<close>

definition move_trace ::
  "storage \<Rightarrow> string option \<Rightarrow> string option \<Rightarrow> string \<Rightarrow> string \<Rightarrow> fs \<Rightarrow> fs list" where
  "move_trace st flt1 flt2 stagingKey objectKey fs =
     (case staging_path st stagingKey of
        Inl _ \<Rightarrow> []
      | Inr sp \<Rightarrow>
          (case object_path st objectKey of
             Inl _ \<Rightarrow> []
           | Inr op \<Rightarrow>
               (case os_mkdir_all flt1 (path_dir op) fs of
                  Inl _ \<Rightarrow> []
                | Inr fs1 \<Rightarrow> fs1 # (case os_rename flt2 sp op fs1 of Inl _ \<Rightarrow> [] | Inr fs2 \<Rightarrow> [fs2]))))"

definition create_trace ::
  "text_env \<Rightarrow> config \<Rightarrow> storage \<Rightarrow> string + statfs \<Rightarrow> outside \<Rightarrow> string \<Rightarrow> string \<Rightarrow> string \<Rightarrow> int \<Rightarrow> world \<Rightarrow> world list" where
  "create_trace env cfg st sf ora owner parentID filename expected w =
     (if expected < 0 \<or> MaxFileBytes cfg < expected then []
      else (case normalize_name env filename of
         Inl _ \<Rightarrow> []
       | Inr (disp, key) \<Rightarrow>
           (case get_node (db_fails ora 0) (w_db w) (upload_parent parentID) of
              Inl _ \<Rightarrow> []
            | Inr p \<Rightarrow>
                if isl (check_folder p) \<or> db_fails ora 1 \<noteq> None \<or>
                   sibling_conflict (w_db w) (upload_parent parentID) key \<or> isl (check_space cfg ora sf expected (w_db w))
                then []
                else (let u = new_upload cfg ora owner (upload_parent parentID) disp key expected
                      in case create_staging_file st (fs_fails ora 0) (up_staging u) (w_fs w) of
                           (Inl _, fs1) \<Rightarrow> [w\<lparr>w_fs := fs1\<rparr>]
                         | (Inr _, fs1) \<Rightarrow>
                             [w\<lparr>w_fs := fs1\<rparr>,
                              (case insert_upload (db_fails ora 4) u (w_db w) of
                                 Inl _ \<Rightarrow> w\<lparr>w_fs := snd (remove_staging_file st (fs_fails ora 1) (up_staging u) fs1)\<rparr>
                               | Inr db1 \<Rightarrow> \<lparr>w_db = db1, w_fs = fs1\<rparr>)]))))"

definition finalize_trace ::
  "(string \<Rightarrow> string) \<Rightarrow> (string \<Rightarrow> string) \<Rightarrow> storage \<Rightarrow> outside \<Rightarrow> upload_row \<Rightarrow> world \<Rightarrow> world list" where
  "finalize_trace sha detect st ora u w =
     (case staging_path st (up_staging u) of
        Inl _ \<Rightarrow> []
      | Inr p \<Rightarrow>
          (case os_open (fs_fails ora 1) p (w_fs w) of
             Inl _ \<Rightarrow> []
           | Inr content \<Rightarrow>
               (case fs_fails ora 2 of
                  Some _ \<Rightarrow> []
                | None \<Rightarrow>
                    (let hash = hex_encode (sha content);
                         mime = fst (sniff_mime_type detect (fs_fails ora 3) (fs_fails ora 4) p (w_fs w));
                         now = secs (clock ora 2)
                     in case update_upload (db_fails ora 2) (up_id u) (mark_finalizing hash now) (w_db w) of
                          Inl _ \<Rightarrow> []
                        | Inr db1 \<Rightarrow>
                            \<lparr>w_db = db1, w_fs = w_fs w\<rparr> #
                            map (\<lambda>f. \<lparr>w_db = db1, w_fs = f\<rparr>)
                              (move_trace st (fs_fails ora 5) (fs_fails ora 6) (up_staging u) (up_final u) (w_fs w)) @
                            (case move_staging_to_object st (fs_fails ora 5) (fs_fails ora 6) (up_staging u) (up_final u) (w_fs w) of
                               (Inl _, _) \<Rightarrow> []
                             | (Inr _, fs1) \<Rightarrow>
                                 (case phase_c ora u mime hash now db1 of
                                    Inl _ \<Rightarrow> []
                                  | Inr db2 \<Rightarrow> [\<lparr>w_db = db2, w_fs = fs1\<rparr>]))))))"

text \<open>\<open>io.Copy\<close> writes the body piece by piece: any part of it may have reached the file.\<close>

definition chunk_trace ::
  "(string \<Rightarrow> string) \<Rightarrow> (string \<Rightarrow> string) \<Rightarrow> storage \<Rightarrow> outside \<Rightarrow> string \<Rightarrow> int \<Rightarrow> stream \<Rightarrow> world \<Rightarrow> world list" where
  "chunk_trace sha detect st ora i offset b w =
     (case get_upload (db_fails ora 0) (w_db w) i of
        Inl _ \<Rightarrow> []
      | Inr u \<Rightarrow>
          if up_state u \<noteq> StateCreated \<and> up_state u \<noteq> StateReceiving then []
          else if up_expires u * 1000000000 < clock ora 0 then []
          else if offset \<noteq> up_received u then []
          else (case open_staging_for_append st (fs_fails ora 0) (up_staging u) (w_fs w) of
             Inl _ \<Rightarrow> []
           | Inr p \<Rightarrow>
               map (\<lambda>bs. w\<lparr>w_fs := os_append p bs (w_fs w)\<rparr>) (prefixes (st_bytes b)) @
               (let w1 = w\<lparr>w_fs := os_append p (st_bytes b) (w_fs w)\<rparr>;
                    received = wrap64 (up_received u + int (length (st_bytes b)));
                    s = (if received = up_expected u then StateVerifying else StateReceiving)
                in if st_error b \<noteq> None \<or> up_expected u < received then []
                   else (case update_upload (db_fails ora 1) i (mark_received received s (secs (clock ora 1))) (w_db w) of
                      Inl _ \<Rightarrow> []
                    | Inr db1 \<Rightarrow>
                        (let w2 = w1\<lparr>w_db := db1\<rparr>
                         in w2 # (if s = StateVerifying
                            then finalize_trace sha detect st ora (u\<lparr>up_received := received, up_state := s\<rparr>) w2 else []))))))"

definition terminate_trace :: "storage \<Rightarrow> outside \<Rightarrow> string \<Rightarrow> world \<Rightarrow> world list" where
  "terminate_trace st ora i w =
     (case get_upload (db_fails ora 0) (w_db w) i of
        Inl _ \<Rightarrow> []
      | Inr u \<Rightarrow>
          if up_state u = StateComplete then []
          else (case update_upload (db_fails ora 1) i (mark_closed StateTerminated (secs (clock ora 0))) (w_db w) of
             Inl _ \<Rightarrow> []
           | Inr db1 \<Rightarrow>
               [w\<lparr>w_db := db1\<rparr>, \<lparr>w_db = db1, w_fs = snd (remove_staging_file st (fs_fails ora 0) (up_staging u) (w_fs w))\<rparr>]))"

definition expire_trace :: "storage \<Rightarrow> outside \<Rightarrow> int \<Rightarrow> upload_row \<Rightarrow> world \<Rightarrow> world list" where
  "expire_trace st ora now u w =
     (let w1 = w\<lparr>w_db := attempt (update_upload (db_fails ora 0) (up_id u) (mark_closed StateExpired now) (w_db w)) (w_db w)\<rparr>
      in [w1, w1\<lparr>w_fs := snd (remove_staging_file st (fs_fails ora 0) (up_staging u) (w_fs w))\<rparr>])"

text \<open>The visit of a finalizing upload; its phase C is one transaction.\<close>

definition resolve_trace :: "storage \<Rightarrow> outside \<Rightarrow> int \<Rightarrow> upload_row \<Rightarrow> world \<Rightarrow> world list" where
  "resolve_trace st ora now u w =
     (let finalExists = object_exists st (fs_fails ora 0) (up_final u) (w_fs w);
          stagingExists = staging_exists st (fs_fails ora 1) (up_staging u) (w_fs w);
          committed = (db_fails ora 0 = None \<and> up_final u \<in> fr_key ` set (file_objects (w_db w)))
      in if finalExists
         then (let w1 = w\<lparr>w_db := (if \<not> committed then phase_c_blind ora u now (w_db w)
                 else attempt (update_upload (db_fails ora 6) (up_id u) (mark_closed StateComplete now) (w_db w)) (w_db w))\<rparr>
               in w1 # (if stagingExists
                        then [w1\<lparr>w_fs := snd (remove_staging_file st (fs_fails ora 2) (up_staging u) (w_fs w))\<rparr>] else []))
         else if stagingExists
         then map (\<lambda>f. w\<lparr>w_fs := f\<rparr>) (move_trace st (fs_fails ora 3) (fs_fails ora 4) (up_staging u) (up_final u) (w_fs w)) @
              (case move_staging_to_object st (fs_fails ora 3) (fs_fails ora 4) (up_staging u) (up_final u) (w_fs w) of
                 (Inl _, _) \<Rightarrow> []
               | (Inr _, fs1) \<Rightarrow> [\<lparr>w_db = phase_c_blind ora u now (w_db w), w_fs = fs1\<rparr>])
         else [w\<lparr>w_db := attempt (update_upload (db_fails ora 6) (up_id u) (mark_closed StateFailed now) (w_db w)) (w_db w)\<rparr>])"

fun trace_all :: "(nat \<Rightarrow> upload_row \<Rightarrow> world \<Rightarrow> world list) \<Rightarrow> nat \<Rightarrow> upload_row list \<Rightarrow> world \<Rightarrow> world list" where
  "trace_all tr k [] w = []"
| "trace_all tr k (u # us) w = tr k u w @ trace_all tr (Suc k) us (ends w (tr k u w))"

definition reconcile_trace ::
  "storage \<Rightarrow> outside \<Rightarrow> (nat \<Rightarrow> outside) \<Rightarrow> (nat \<Rightarrow> outside) \<Rightarrow> world \<Rightarrow> world list" where
  "reconcile_trace st ora stale final w =
     (let now = secs (clock ora 0);
          t1 = (if db_fails ora 0 = None
                then trace_all (\<lambda>k. expire_trace st (stale k) now) 0 (stale_uploads now (w_db w)) w else []);
          w1 = ends w t1
      in t1 @ (case db_fails ora 1 of
           Some _ \<Rightarrow> []
         | None \<Rightarrow> trace_all (\<lambda>k. resolve_trace st (final k) now) 0 (finalizing_uploads (w_db w1)) w1))"

section \<open>A trace ends in the result of its operation\<close>

lemma move_trace_ends: "ends fs (move_trace st flt1 flt2 k obj fs) = snd (move_staging_to_object st flt1 flt2 k obj fs)"
  by (simp add: move_trace_def move_staging_to_object_def split: sum.split)

lemma move_worlds:
  "ends \<lparr>w_db = db, w_fs = fs\<rparr> (map (\<lambda>f. \<lparr>w_db = db, w_fs = f\<rparr>) (move_trace st f1 f2 k obj fs)) =
     \<lparr>w_db = db, w_fs = snd (move_staging_to_object st f1 f2 k obj fs)\<rparr>"
  "ends w (map (\<lambda>f. w\<lparr>w_fs := f\<rparr>) (move_trace st f1 f2 k obj (w_fs w))) =
     w\<lparr>w_fs := snd (move_staging_to_object st f1 f2 k obj (w_fs w))\<rparr>"
  using ends_map [of "\<lambda>f. \<lparr>w_db = db, w_fs = f\<rparr>" fs "move_trace st f1 f2 k obj fs"]
    ends_map [of "\<lambda>f. w\<lparr>w_fs := f\<rparr>" "w_fs w" "move_trace st f1 f2 k obj (w_fs w)"]
  by (simp_all add: move_trace_ends)

lemma finalize_trace_ends: "ends w (finalize_trace sha detect st ora u w) = snd (finalize_upload sha detect st ora u w)"
  by (auto simp: finalize_trace_def finalize_upload_def Let_def move_worlds split: sum.split option.split prod.split)

lemma prefixes_ends: "ends w (map (\<lambda>bs. f bs) (prefixes xs)) = f xs"
  by (induction xs arbitrary: f w) (simp_all add: o_def)

lemma chunk_trace_ends: "ends w (chunk_trace sha detect st ora i offset b w) = snd (write_chunk sha detect st ora i offset b w)"
proof -
  have fin: "snd (case finalize_upload sha detect st ora u w2 of (Inl e, w3) \<Rightarrow> (Inl (g e), w3) | (Inr _, w3) \<Rightarrow> (h w3, w3)) =
      ends w2 (finalize_trace sha detect st ora u w2)" for u w2 g and h :: "world \<Rightarrow> err + upload_row"
    unfolding finalize_trace_ends by (auto split: prod.split sum.split)
  show ?thesis
    by (auto simp: chunk_trace_def write_chunk_def Let_def prefixes_ends fin split: sum.split option.split)
qed

lemma create_trace_ends:
  "ends w (create_trace env cfg st sf ora owner parent name expected w) =
     snd (create_upload env cfg st sf ora owner parent name expected w)"
  by (auto simp: create_trace_def create_upload_def Let_def split: sum.split option.split prod.split)

lemma terminate_trace_ends: "ends w (terminate_trace st ora i w) = snd (terminate_upload st ora i w)"
  by (auto simp: terminate_trace_def terminate_upload_def split: sum.split)

lemma expire_trace_ends: "ends w (expire_trace st ora now u w) = expire_one st ora now u w"
  by (simp add: expire_trace_def expire_one_def Let_def)

lemma resolve_trace_ends: "ends w (resolve_trace st ora now u w) = resolve_one st ora now u w"
  by (auto simp: resolve_trace_def resolve_one_def Let_def move_worlds split: sum.split prod.split)

lemma trace_all_ends:
  assumes "\<And>k u w. ends w (tr k u w) = op k u w"
  shows "ends w (trace_all tr k us w) = visit_all op k us w"
  using assms by (induction us arbitrary: k w) simp_all

lemma reconcile_trace_ends: "ends w (reconcile_trace st ora stale final w) = snd (reconcile st ora stale final w)"
  by (simp add: reconcile_trace_def reconcile_def Let_def trace_all_ends expire_trace_ends resolve_trace_ends split: option.split)

section \<open>A crash is like a fault\<close>

text \<open>
  Every world on the trace of a chunk is one that the same call leaves when the statement after it
  fails: a crash shows the rest of the program nothing that a fault could not.
\<close>

lemma move_trace_fault:
  assumes "f \<in> set (move_trace st flt1 flt2 k obj fs)"
  shows "\<exists>flt2'. snd (move_staging_to_object st flt1 flt2' k obj fs) = f"
proof -
  obtain sp where sp: "staging_path st k = Inr sp"
    using assms by (cases "staging_path st k") (simp_all add: move_trace_def)
  obtain op where op: "object_path st obj = Inr op"
    using assms sp by (cases "object_path st obj") (simp_all add: move_trace_def)
  obtain fs1 where fs1: "os_mkdir_all flt1 (path_dir op) fs = Inr fs1"
    using assms sp op by (cases "os_mkdir_all flt1 (path_dir op) fs") (simp_all add: move_trace_def)
  have "os_rename (Some []) sp op fs1 = Inl (FsErr (IoFault []))" by (simp add: os_rename_def os_open_def)
  then have "snd (move_staging_to_object st flt1 (Some []) k obj fs) = fs1"
    using sp op fs1 by (simp add: move_staging_to_object_def)
  moreover have "f = fs1 \<or> f = snd (move_staging_to_object st flt1 flt2 k obj fs)"
    using assms sp op fs1 by (auto simp: move_trace_def move_staging_to_object_def split: sum.splits)
  ultimately show ?thesis by blast
qed

definition same_start :: "outside \<Rightarrow> outside \<Rightarrow> bool" where
  "same_start ora ora' \<longleftrightarrow> clock ora' = clock ora \<and> uuid ora' = uuid ora \<and> rand_bytes ora' = rand_bytes ora \<and>
     (\<forall>k < 2. db_fails ora' k = db_fails ora k) \<and> fs_fails ora' 0 = fs_fails ora 0"

lemma finalize_crash_fault:
  assumes "w' \<in> set (finalize_trace sha detect st ora u w)"
  shows "\<exists>ora'. same_start ora ora' \<and> snd (finalize_upload sha detect st ora' u w) = w'"
proof -
  obtain p where p1: "staging_path st (up_staging u) = Inr p"
    using assms by (cases "staging_path st (up_staging u)") (simp_all add: finalize_trace_def)
  obtain c where p2: "os_open (fs_fails ora 1) p (w_fs w) = Inr c"
    using assms p1 by (cases "os_open (fs_fails ora 1) p (w_fs w)") (simp_all add: finalize_trace_def)
  have "fs_fails ora 2 = None"
    using assms p1 p2 by (cases "fs_fails ora 2") (simp_all add: finalize_trace_def)
  note p = p1 p2 this
  define h where "h = hex_encode (sha c)"
  define now where "now = secs (clock ora 2)"
  define mime where "mime = fst (sniff_mime_type detect (fs_fails ora 3) (fs_fails ora 4) p (w_fs w))"
  obtain db1 where db1: "update_upload (db_fails ora 2) (up_id u) (mark_finalizing h now) (w_db w) = Inr db1"
    using assms p by (cases "update_upload (db_fails ora 2) (up_id u) (mark_finalizing h now) (w_db w)")
      (simp_all add: finalize_trace_def Let_def h_def now_def)
  let ?m = "\<lambda>f1 f2. move_staging_to_object st f1 f2 (up_staging u) (up_final u) (w_fs w)"
  have run: "snd (finalize_upload sha detect st (ora\<lparr>fs_fails := (fs_fails ora)(5 := f1, 6 := f2), db_fails := (db_fails ora)(3 := f3)\<rparr>) u w) =
      (case ?m f1 f2 of (Inl _, fs1) \<Rightarrow> \<lparr>w_db = db1, w_fs = fs1\<rparr>
       | (Inr _, fs1) \<Rightarrow> (case phase_c (ora\<lparr>db_fails := (db_fails ora)(3 := f3)\<rparr>) u mime h now db1 of
            Inl _ \<Rightarrow> \<lparr>w_db = db1, w_fs = fs1\<rparr> | Inr db2 \<Rightarrow> \<lparr>w_db = db2, w_fs = fs1\<rparr>))" for f1 f2 f3
    using p db1 by (simp add: finalize_upload_def Let_def phase_c_def h_def now_def mime_def split: prod.split sum.split)
  have start: "same_start ora (ora\<lparr>fs_fails := (fs_fails ora)(5 := f1, 6 := f2), db_fails := (db_fails ora)(3 := f3)\<rparr>)" for f1 f2 f3
    by (simp add: same_start_def)
  have stop: "phase_c (ora\<lparr>db_fails := (db_fails ora)(3 := Some [])\<rparr>) u mime h now db1 =
      Inl (Wrap ''failed starting phase C tx'' (DbErr (ExternalFault [])))"
    by (simp add: phase_c_def tx_call_def exec_def)
  obtain res fs1 where move: "?m (fs_fails ora 5) (fs_fails ora 6) = (res, fs1)" by fastforce
  have "w' = \<lparr>w_db = db1, w_fs = w_fs w\<rparr> \<or>
      (\<exists>f \<in> set (move_trace st (fs_fails ora 5) (fs_fails ora 6) (up_staging u) (up_final u) (w_fs w)). w' = \<lparr>w_db = db1, w_fs = f\<rparr>) \<or>
      (\<exists>db2 x. res = Inr x \<and> phase_c ora u mime h now db1 = Inr db2 \<and> w' = \<lparr>w_db = db2, w_fs = fs1\<rparr>)"
    using assms p db1 move
    by (cases res; cases "phase_c ora u mime h now db1")
      (auto simp: finalize_trace_def Let_def h_def [symmetric] now_def [symmetric] mime_def [symmetric])
  moreover have "snd (finalize_upload sha detect st ora u w) = \<lparr>w_db = db2, w_fs = fs1\<rparr>"
    if "res = Inr x" "phase_c ora u mime h now db1 = Inr db2" for db2 x
    using that p db1 move by (simp add: finalize_upload_def Let_def h_def [symmetric] now_def [symmetric] mime_def [symmetric])
  ultimately consider (intent) "w' = \<lparr>w_db = db1, w_fs = w_fs w\<rparr>"
    | (moving) f where "f \<in> set (move_trace st (fs_fails ora 5) (fs_fails ora 6) (up_staging u) (up_final u) (w_fs w))"
        "w' = \<lparr>w_db = db1, w_fs = f\<rparr>"
    | (all) "w' = snd (finalize_upload sha detect st ora u w)"
    by metis
  then show ?thesis
  proof cases
    case intent
    have "fst (?m (Some []) None) \<noteq> Inr x \<and> snd (?m (Some []) None) = w_fs w" for x
      by (auto simp: move_staging_to_object_def os_mkdir_all_def split: sum.split)
    then have "snd (finalize_upload sha detect st (ora\<lparr>fs_fails := (fs_fails ora)(5 := Some [], 6 := None),
        db_fails := (db_fails ora)(3 := None)\<rparr>) u w) = w'"
      using intent by (cases "?m (Some []) None") (auto simp: run split: sum.split)
    with start show ?thesis by blast
  next
    case moving
    from move_trace_fault [OF moving(1)] obtain f2 where "snd (?m (fs_fails ora 5) f2) = f" by blast
    then have "snd (finalize_upload sha detect st (ora\<lparr>fs_fails := (fs_fails ora)(5 := fs_fails ora 5, 6 := f2),
        db_fails := (db_fails ora)(3 := Some [])\<rparr>) u w) = w'"
      using moving(2) by (auto simp: run stop split: prod.splits sum.split simp del: fun_upd_triv)
    with start show ?thesis by blast
  next
    case all
    then show ?thesis by (auto simp: same_start_def)
  qed
qed

lemma chunk_crash_fault:
  assumes "w' \<in> set (chunk_trace sha detect st ora i offset b w)"
  shows "\<exists>ora' b'. uuid ora' = uuid ora \<and> length (st_bytes b') \<le> length (st_bytes b) \<and>
    snd (write_chunk sha detect st ora' i offset b' w) = w'"
proof -
  obtain u where u1: "get_upload (db_fails ora 0) (w_db w) i = Inr u"
    using assms by (cases "get_upload (db_fails ora 0) (w_db w) i") (simp_all add: chunk_trace_def)
  have u2: "up_state u = StateCreated \<or> up_state u = StateReceiving" "\<not> up_expires u * 1000000000 < clock ora 0" "offset = up_received u"
    using assms u1 by (simp_all add: chunk_trace_def split: if_splits)
  obtain p where "open_staging_for_append st (fs_fails ora 0) (up_staging u) (w_fs w) = Inr p"
    using assms u1 u2 by (cases "open_staging_for_append st (fs_fails ora 0) (up_staging u) (w_fs w)") (auto simp: chunk_trace_def)
  note u = u1 u2 this
  define n where "n = wrap64 (up_received u + int (length (st_bytes b)))"
  define s where "s = (if n = up_expected u then StateVerifying else StateReceiving)"
  let ?w1 = "\<lambda>bs. w\<lparr>w_fs := os_append p bs (w_fs w)\<rparr>"
  from assms u consider (part) bs where "prefix bs (st_bytes b)" "w' = ?w1 bs"
    | (counted) db1 where "st_error b = None" "\<not> up_expected u < n"
        "update_upload (db_fails ora 1) i (mark_received n s (secs (clock ora 1))) (w_db w) = Inr db1"
        "w' \<in> set ((?w1 (st_bytes b)\<lparr>w_db := db1\<rparr>) # (if s = StateVerifying
           then finalize_trace sha detect st ora (u\<lparr>up_received := n, up_state := s\<rparr>) (?w1 (st_bytes b)\<lparr>w_db := db1\<rparr>) else []))"
    by (auto simp: chunk_trace_def Let_def n_def s_def split: sum.splits if_splits)
  then show ?thesis
  proof cases
    case part
    have "snd (write_chunk sha detect st ora i offset \<lparr>st_bytes = bs, st_error = Some []\<rparr> w) = w'"
      using u part(2) by (auto simp: write_chunk_def Let_def)
    with part(1) show ?thesis by (intro exI [of _ ora] exI [of _ "\<lparr>st_bytes = bs, st_error = Some []\<rparr>"]) (simp add: prefix_length_le)
  next
    case counted
    let ?w2 = "?w1 (st_bytes b)\<lparr>w_db := db1\<rparr>" and ?u1 = "u\<lparr>up_received := n, up_state := s\<rparr>"
    have run: "snd (write_chunk sha detect st ora' i offset b w) =
        (if s = StateVerifying then snd (finalize_upload sha detect st ora' ?u1 ?w2) else ?w2)" if "same_start ora ora'" for ora'
    proof -
      have "db_fails ora' 0 = db_fails ora 0" "db_fails ora' 1 = db_fails ora 1" "fs_fails ora' 0 = fs_fails ora 0" "clock ora' = clock ora"
        using that by (simp_all add: same_start_def)
      then show ?thesis
        using u counted(1-3)
        by (cases "finalize_upload sha detect st ora' ?u1 ?w2"; cases "fst (finalize_upload sha detect st ora' ?u1 ?w2)")
          (auto simp: write_chunk_def Let_def n_def [symmetric] s_def)
    qed
    have early: "snd (finalize_upload sha detect st (ora\<lparr>fs_fails := (fs_fails ora)(1 := Some [])\<rparr>) ?u1 ?w2) = ?w2"
      by (simp add: finalize_upload_def os_open_def split: sum.split)
    have "\<exists>ora'. same_start ora ora' \<and> snd (write_chunk sha detect st ora' i offset b w) = w'"
    proof (cases "w' = ?w2")
      case True
      have "same_start ora (ora\<lparr>fs_fails := (fs_fails ora)(1 := Some [])\<rparr>)" by (simp add: same_start_def)
      from this run [OF this] early True show ?thesis by metis
    next
      case False
      with counted(4) have fin: "s = StateVerifying" "w' \<in> set (finalize_trace sha detect st ora ?u1 ?w2)"
        by (auto split: if_splits)
      from finalize_crash_fault [OF fin(2)] obtain ora' where "same_start ora ora'"
        "snd (finalize_upload sha detect st ora' ?u1 ?w2) = w'" by blast
      with run fin(1) show ?thesis by metis
    qed
    then show ?thesis by (auto simp: same_start_def)
  qed
qed

section \<open>Loops of visits\<close>

text \<open>A visit writes the database once, so a crashed loop shows the database after some of its visits.\<close>

locale traced_visits =
  fixes tr :: "nat \<Rightarrow> upload_row \<Rightarrow> world \<Rightarrow> world list" and visit :: "nat \<Rightarrow> upload_row \<Rightarrow> world \<Rightarrow> world"
  assumes visit_ends: "ends w (tr k u w) = visit k u w"
    and one_write: "w' \<in> set (tr k u w) \<Longrightarrow> w_db w' = w_db w \<or> w_db w' = w_db (visit k u w)"
begin

lemma loop_ends: "ends w (trace_all tr k us w) = visit_all visit k us w"
  by (rule trace_all_ends) (rule visit_ends)

lemma crashed_loop: "w' \<in> set (trace_all tr k us w) \<Longrightarrow> \<exists>j. w_db w' = w_db (visit_all visit k (take j us) w)"
proof (induction us arbitrary: k w)
  case (Cons u us)
  show ?case
  proof (cases "w' \<in> set (tr k u w)")
    case True
    have "visit_all visit k (take 0 (u # us)) w = w" "visit_all visit k (take 1 (u # us)) w = visit k u w" by simp_all
    with one_write [OF True] show ?thesis by metis
  next
    case False
    with Cons.prems Cons.IH [of "Suc k" "visit k u w"] obtain j where
      "w_db w' = w_db (visit_all visit (Suc k) (take j us) (visit k u w))" by (auto simp: visit_ends)
    then show ?thesis by (intro exI [of _ "Suc j"]) simp
  qed
qed simp

end

lemma resolve_one_write:
  assumes "w' \<in> set (resolve_trace st ora now u w)"
  shows "w_db w' = w_db w \<or> w_db w' = w_db (resolve_one st ora now u w)"
proof -
  let ?m = "move_staging_to_object st (fs_fails ora 3) (fs_fails ora 4) (up_staging u) (up_final u) (w_fs w)"
  show ?thesis
    using assms by (cases ?m; cases "fst ?m") (auto simp: resolve_trace_def resolve_one_def Let_def split: if_splits)
qed

interpretation expiry: traced_visits "\<lambda>k. expire_trace st (stale k) now" "\<lambda>k. expire_one st (stale k) now"
  for st stale now
  by unfold_locales (simp add: expire_trace_ends, auto simp: expire_trace_def expire_one_def Let_def)

interpretation recovery: traced_visits "\<lambda>k. resolve_trace st (final k) now" "\<lambda>k. resolve_one st (final k) now"
  for st final now
  by unfold_locales (simp_all add: resolve_trace_ends resolve_one_write)

section \<open>Crashes keep the store consistent\<close>

text \<open>A step of the store that ends in a crash.\<close>

inductive crash_step ::
  "(outside \<Rightarrow> bool) \<Rightarrow> text_env \<Rightarrow> config \<Rightarrow> storage \<Rightarrow> (string \<Rightarrow> string) \<Rightarrow> (string \<Rightarrow> string) \<Rightarrow> world \<Rightarrow> world \<Rightarrow> bool"
  for P env cfg st sha detect where
  crash_create: "w' \<in> set (create_trace env cfg st sf ora owner parent name expected w) \<Longrightarrow> P ora \<Longrightarrow> in_int64 expected \<Longrightarrow>
    crash_step P env cfg st sha detect w w'"
| crash_chunk: "w' \<in> set (chunk_trace sha detect st ora i offset b w) \<Longrightarrow> P ora \<Longrightarrow> uuid ora 0 \<noteq> [] \<Longrightarrow>
    int (length (st_bytes b)) < 2 ^ 63 \<Longrightarrow> crash_step P env cfg st sha detect w w'"
| crash_terminate: "w' \<in> set (terminate_trace st ora i w) \<Longrightarrow> P ora \<Longrightarrow> crash_step P env cfg st sha detect w w'"
| crash_reconcile: "w' \<in> set (reconcile_trace st ora stale final w) \<Longrightarrow> P ora \<Longrightarrow> (\<And>k. P (stale k)) \<Longrightarrow>
    (\<And>k. P (final k)) \<Longrightarrow> (\<And>k. uuid (final k) 0 \<noteq> []) \<Longrightarrow> crash_step P env cfg st sha detect w w'"

lemma create_one_write:
  assumes "w' \<in> set (create_trace env cfg st sf ora owner parent name expected w)"
  shows "w_db w' = w_db w \<or> w' = snd (create_upload env cfg st sf ora owner parent name expected w)"
proof -
  let ?t = "create_trace env cfg st sf ora owner parent name expected w"
  have "?t = [] \<or> (\<exists>f. ?t = [w\<lparr>w_fs := f\<rparr>]) \<or> (\<exists>f x. ?t = [w\<lparr>w_fs := f\<rparr>, x])"
    by (auto simp: create_trace_def Let_def split: sum.split prod.split)
  with assms have "w_db w' = w_db w \<or> w' = ends w ?t" by auto
  then show ?thesis by (simp add: create_trace_ends)
qed

lemma terminate_one_write:
  assumes "w' \<in> set (terminate_trace st ora i w)"
  shows "w_db w' = w_db (snd (terminate_upload st ora i w))"
proof -
  have "\<forall>x \<in> set (terminate_trace st ora i w). w_db x = w_db (snd (terminate_upload st ora i w))"
    by (auto simp: terminate_trace_def terminate_upload_def split: sum.split)
  with assms show ?thesis by blast
qed

text \<open>The database a crashed reconciliation leaves.\<close>

lemma reconcile_crash_loops:
  assumes "w' \<in> set (reconcile_trace st ora stale final w)"
  obtains (first) j where "w_db w' = w_db (visit_all (\<lambda>k. expire_one st (stale k) (secs (clock ora 0))) 0
      (take j (stale_uploads (secs (clock ora 0)) (w_db w))) w)"
  | (second) w1 j where
      "w1 = (if db_fails ora 0 = None then visit_all (\<lambda>k. expire_one st (stale k) (secs (clock ora 0))) 0
        (stale_uploads (secs (clock ora 0)) (w_db w)) w else w)"
      "w_db w' = w_db (visit_all (\<lambda>k. resolve_one st (final k) (secs (clock ora 0))) 0 (take j (finalizing_uploads (w_db w1))) w1)"
proof -
  let ?now = "secs (clock ora 0)"
  define t1 where "t1 = (if db_fails ora 0 = None
    then trace_all (\<lambda>k. expire_trace st (stale k) ?now) 0 (stale_uploads ?now (w_db w)) w else [])"
  have w1: "ends w t1 = (if db_fails ora 0 = None then visit_all (\<lambda>k. expire_one st (stale k) ?now) 0
      (stale_uploads ?now (w_db w)) w else w)"
    by (simp add: t1_def expiry.loop_ends)
  have "reconcile_trace st ora stale final w = t1 @ (case db_fails ora 1 of Some _ \<Rightarrow> []
      | None \<Rightarrow> trace_all (\<lambda>k. resolve_trace st (final k) ?now) 0 (finalizing_uploads (w_db (ends w t1))) (ends w t1))"
    unfolding reconcile_trace_def Let_def t1_def ..
  with assms consider "w' \<in> set t1"
    | "w' \<in> set (trace_all (\<lambda>k. resolve_trace st (final k) ?now) 0 (finalizing_uploads (w_db (ends w t1))) (ends w t1))"
    by (auto split: option.splits)
  then show ?thesis
  proof cases
    case 1
    then have "w' \<in> set (trace_all (\<lambda>k. expire_trace st (stale k) ?now) 0 (stale_uploads ?now (w_db w)) w)"
      by (simp add: t1_def split: if_splits)
    from expiry.crashed_loop [OF this] first show ?thesis by blast
  next
    case 2
    from recovery.crashed_loop [OF this] second [OF w1] show ?thesis by blast
  qed
qed

text \<open>What holds while a loop runs over uploads in the states \<open>S\<close>.\<close>

definition visiting :: "upload_state set \<Rightarrow> upload_row list \<Rightarrow> world \<Rightarrow> bool" where
  "visiting S us w \<longleftrightarrow> store_ok (w_db w) \<and> distinct (map up_id us) \<and>
     (\<forall>u \<in> set us. find_upload (w_db w) (up_id u) = Some u \<and> up_state u \<in> S)"

lemma visiting_take: "visiting S us w \<Longrightarrow> visiting S (take j us) w"
  by (auto simp: visiting_def take_map [symmetric] dest: in_set_takeD)

lemma visiting_pending: "pending S n us w \<longleftrightarrow> visiting S us w \<and> used_bytes (w_db w) \<le> n"
  by (auto simp: pending_def visiting_def)

lemma visiting_stale: "store_ok (w_db w) \<Longrightarrow> visiting {StateCreated, StateReceiving} (stale_uploads now (w_db w)) w"
  and visiting_finalizing: "store_ok (w_db w) \<Longrightarrow> visiting {StateFinalizing} (finalizing_uploads (w_db w)) w"
  by (auto simp: visiting_def find_upload_iff stale_uploads_rows finalizing_uploads_rows store_okD)

lemma visiting_step:
  assumes "visiting S (u # us) w" and touch: "touches (up_id u) (w_db w) (w_db w')"
    and "files_ok (w_db w')" "set (nodes (w_db w)) \<subseteq> set (nodes (w_db w'))"
  shows "visiting S us w'"
proof -
  have "store_ok (w_db w')"
    using assms store_ok_advance [of "w_db w" "w_db w'"] by (simp add: visiting_def touches_def)
  moreover have "find_upload (w_db w') (up_id v) = Some v" if "v \<in> set us" for v
  proof -
    have "up_id v \<noteq> up_id u" using assms(1) that by (auto simp: visiting_def image_iff)
    with touch assms(1) that show ?thesis by (simp add: touches_def visiting_def)
  qed
  ultimately show ?thesis using assms(1) by (simp add: visiting_def)
qed

lemma expire_loop:
  assumes "visiting {StateCreated, StateReceiving} us w"
  shows "store_ok (w_db (visit_all (\<lambda>k. expire_one st (stale k) now) n us w)) \<and>
    used_bytes (w_db (visit_all (\<lambda>k. expire_one st (stale k) now) n us w)) \<le> used_bytes (w_db w)"
proof -
  let ?S = "{StateCreated, StateReceiving}" and ?n = "used_bytes (w_db w)"
  have "visiting ?S [] v \<and> used_bytes (w_db v) \<le> ?n" if "v = visit_all (\<lambda>k. expire_one st (stale k) now) n us w" for v
    unfolding that
  proof (rule visit_all_inv)
    fix k u us v assume p: "visiting ?S (u # us) v \<and> used_bytes (w_db v) \<le> ?n"
    then show "visiting ?S us (expire_one st (stale k) now u v) \<and> used_bytes (w_db (expire_one st (stale k) now u v)) \<le> ?n"
      using expire_one_used [of v u st "stale k" now]
      by (intro conjI visiting_step [of ?S u us v]) (auto simp: visiting_def touches_expire expire_one_files store_okD)
  qed (use assms in simp)
  then show ?thesis by (simp add: visiting_def)
qed

lemma resolve_visit:
  assumes "visiting {StateFinalizing} (u # us) w" and "uuid ora 0 \<noteq> []"
  shows "visiting {StateFinalizing} us (resolve_one st ora now u w)"
proof -
  have u: "store_ok (w_db w)" "find_upload (w_db w) (up_id u) = Some u" "up_state u = StateFinalizing"
    using assms(1) by (simp_all add: visiting_def)
  from resolve_one_files [OF store_okD(1) [OF u(1)] assms(2) upload_folder_find [OF u(1,2)]] u show ?thesis
    by (intro visiting_step [OF assms(1)] touches_resolve) (auto simp: store_okD)
qed

lemma resolve_loop:
  assumes "visiting {StateFinalizing} us w" and id: "\<And>k. uuid (final k) 0 \<noteq> []"
  shows "store_ok (w_db (visit_all (\<lambda>k. resolve_one st (final k) now) n us w))"
    and "(\<And>k. quiet (final k)) \<Longrightarrow> used_bytes (w_db (visit_all (\<lambda>k. resolve_one st (final k) now) n us w)) \<le> used_bytes (w_db w)"
proof -
  let ?S = "{StateFinalizing}" and ?n = "used_bytes (w_db w)" and ?v = "visit_all (\<lambda>k. resolve_one st (final k) now) n us w"
  have "visiting ?S [] ?v"
    by (rule visit_all_inv [where I = "visiting ?S"]) (simp_all add: resolve_visit id assms(1))
  then show "store_ok (w_db ?v)" by (simp add: visiting_def)
  assume calm: "\<And>k. quiet (final k)"
  have "visiting ?S [] v \<and> used_bytes (w_db v) \<le> ?n" if "v = ?v" for v
    unfolding that
  proof (rule visit_all_inv)
    fix k u us v assume p: "visiting ?S (u # us) v \<and> used_bytes (w_db v) \<le> ?n"
    then have "used_bytes (w_db (resolve_one st (final k) now u v)) \<le> used_bytes (w_db v)"
      by (intro resolve_one_used calm) (simp_all add: visiting_def)
    with p resolve_visit [OF _ id] show "visiting ?S us (resolve_one st (final k) now u v) \<and>
        used_bytes (w_db (resolve_one st (final k) now u v)) \<le> ?n" by force
  qed (use assms in simp)
  then show "used_bytes (w_db ?v) \<le> ?n" by simp
qed

lemma reconcile_crash_ok:
  assumes crash: "w' \<in> set (reconcile_trace st ora stale final w)" and ok: "store_ok (w_db w)"
    and id: "\<And>k. uuid (final k) 0 \<noteq> []"
  shows "store_ok (w_db w')"
    and "(\<And>k. quiet (final k)) \<Longrightarrow> used_bytes (w_db w') \<le> used_bytes (w_db w)"
proof -
  have "store_ok (w_db w') \<and> ((\<forall>k. quiet (final k)) \<longrightarrow> used_bytes (w_db w') \<le> used_bytes (w_db w))"
    using crash
  proof (cases rule: reconcile_crash_loops)
    case (first j)
    with expire_loop [OF visiting_take [OF visiting_stale [OF ok]]] show ?thesis by simp
  next
    case (second w1 j)
    have w1: "store_ok (w_db w1)" "used_bytes (w_db w1) \<le> used_bytes (w_db w)"
      using second(1) ok expire_loop [OF visiting_stale [OF ok]] by simp_all
    from resolve_loop [OF visiting_take [OF visiting_finalizing [OF w1(1)]], of final] id w1(2) second(2)
    show ?thesis by (fastforce intro: order_trans)
  qed
  then show "store_ok (w_db w')" "(\<And>k. quiet (final k)) \<Longrightarrow> used_bytes (w_db w') \<le> used_bytes (w_db w)" by blast+
qed

lemma crash_step_ok: "crash_step P env cfg st sha detect w w' \<Longrightarrow> store_ok (w_db w) \<Longrightarrow> store_ok (w_db w')"
proof (induction rule: crash_step.induct)
  case (crash_create w' sf ora owner parent name expected w)
  then show ?case
    using create_one_write [OF crash_create(1)] create_upload_ok [OF surjective_pairing] by fastforce
next
  case (crash_chunk w' ora i offset b w)
  from chunk_crash_fault [OF crash_chunk(1)] obtain ora' b' where
    "uuid ora' = uuid ora" "length (st_bytes b') \<le> length (st_bytes b)" "snd (write_chunk sha detect st ora' i offset b' w) = w'" by blast
  with crash_chunk write_chunk_ok [OF surjective_pairing, of w ora' b' sha detect st i offset] show ?case by simp
next
  case (crash_terminate w' ora i w)
  then show ?case using terminate_one_write [OF crash_terminate(1)] terminate_ok [OF surjective_pairing, of w st ora i] by simp
next
  case (crash_reconcile w' ora stale final w)
  then show ?case by (blast intro: reconcile_crash_ok(1))
qed

lemma crash_step_quota: "crash_step quiet env cfg st sha detect w w' \<Longrightarrow> quota_ok cfg w \<Longrightarrow> quota_ok cfg w'"
proof (induction rule: crash_step.induct)
  case (crash_create w' sf ora owner parent name expected w)
  from create_one_write [OF crash_create(1)] show ?case
  proof
    assume "w' = snd (create_upload env cfg st sf ora owner parent name expected w)"
    then have "store_step quiet env cfg st sha detect w w'"
      using crash_create by (intro store_step.create [of env cfg st sf ora owner parent name expected w "fst (create_upload env cfg st sf ora owner parent name expected w)"]) auto
    then show ?case using quota_step crash_create by blast
  qed (use crash_create in \<open>simp add: quota_ok_def\<close>)
next
  case (crash_chunk w' ora i offset b w)
  from chunk_crash_fault [OF crash_chunk(1)] obtain ora' b' where *:
    "uuid ora' = uuid ora" "length (st_bytes b') \<le> length (st_bytes b)" "snd (write_chunk sha detect st ora' i offset b' w) = w'" by blast
  then have "used_bytes (w_db w') \<le> used_bytes (w_db w)" "store_ok (w_db w')"
    using crash_chunk write_chunk_used [OF surjective_pairing, of w b' sha detect st ora' i offset]
      write_chunk_ok [OF surjective_pairing, of w ora' b' sha detect st i offset] by (simp_all add: quota_ok_def)
  with crash_chunk show ?case by (auto simp: quota_ok_def)
next
  case (crash_terminate w' ora i w)
  then show ?case
    using terminate_one_write [OF crash_terminate(1)] terminate_ok [OF surjective_pairing, of w st ora i]
      terminate_used [OF surjective_pairing, of w st ora i] by (fastforce simp: quota_ok_def)
next
  case (crash_reconcile w' ora stale final w)
  then have "store_ok (w_db w)" by (simp add: quota_ok_def)
  with reconcile_crash_ok [OF crash_reconcile(1) _ crash_reconcile(5)] crash_reconcile
  have "store_ok (w_db w')" "used_bytes (w_db w') \<le> used_bytes (w_db w)" by blast+
  with crash_reconcile show ?case by (auto simp: quota_ok_def)
qed

end
