(* ===== verification/Crash_Recovery.thy ===== *)
theory Crash_Recovery
  imports Upload_Crash
begin

text \<open>
  What reconciliation makes of an upload whose finalization crashed: the content and the checksum
  of the upload survive any number of crashes, also of the reconciler itself and while it visits
  other uploads, and a reconciliation that runs to its end completes the upload.
\<close>

section \<open>A finalization that crashed is finished later\<close>

definition movable :: "storage \<Rightarrow> upload_row \<Rightarrow> fs \<Rightarrow> bool" where
  "movable st u fs \<longleftrightarrow> (\<exists>fs'. move_staging_to_object st None None (up_staging u) (up_final u) fs = (Inr (), fs'))"

text \<open>The content \<open>c\<close> of an upload is in exactly one place: still staged, or moved.\<close>

definition content_at :: "storage \<Rightarrow> upload_row \<Rightarrow> string \<Rightarrow> fs \<Rightarrow> bool" where
  "content_at st u c fs \<longleftrightarrow>
     staged st fs (up_staging u) = Some c \<and> stored st fs (up_final u) = None \<and> movable st u fs \<or>
     staged st fs (up_staging u) = None \<and> stored st fs (up_final u) = Some c"

text \<open>The database after phase A, in which phase C can still succeed.\<close>

definition commit_ready :: "upload_row \<Rightarrow> database \<Rightarrow> bool" where
  "commit_ready u db \<longleftrightarrow> store_ok db \<and> find_upload db (up_id u) = Some u \<and> up_state u = StateFinalizing \<and>
     \<not> sibling_conflict db (up_parent u) (up_name_key u) \<and> up_final u \<notin> fr_key ` set (file_objects db)"

text \<open>The end: one file object with the size and the checksum, one place for the content.\<close>

definition finished :: "storage \<Rightarrow> upload_row \<Rightarrow> string \<Rightarrow> string \<Rightarrow> world \<Rightarrow> bool" where
  "finished st u h c w \<longleftrightarrow> store_ok (w_db w) \<and>
     (\<exists>v f r. find_upload (w_db w) (up_id u) = Some v \<and> up_state v = StateComplete \<and> up_reserved v = 0 \<and>
        filter (\<lambda>f. fr_key f = up_final u) (file_objects (w_db w)) = [f] \<and>
        fr_size f = up_expected u \<and> fr_sha f = Some h \<and>
        r \<in> set (nodes (w_db w)) \<and> nr_id r = fr_node f \<and> nr_kind r = KindFile \<and>
        nr_parent r = Some (up_parent u) \<and> nr_name r = up_name u) \<and>
     stored st (w_fs w) (up_final u) = Some c \<and> staged st (w_fs w) (up_staging u) = None"

lemma move_trace_movable:
  assumes "move_staging_to_object st None None k obj fs = (Inr x, fs2)"
  obtains fs1 where "move_trace st None None k obj fs = [fs1, fs2]" "fs_files fs1 = fs_files fs"
    "move_staging_to_object st None None k obj fs1 = (Inr x, fs2)"
proof -
  obtain sp where sp: "staging_path st k = Inr sp"
    using assms by (cases "staging_path st k") (simp_all add: move_staging_to_object_def)
  obtain op where op: "object_path st obj = Inr op"
    using assms sp by (cases "object_path st obj") (simp_all add: move_staging_to_object_def)
  obtain fs1 where fs1: "os_mkdir_all None (path_dir op) fs = Inr fs1"
    using assms sp op by (cases "os_mkdir_all None (path_dir op) fs") (simp_all add: move_staging_to_object_def)
  then have again: "os_mkdir_all None (path_dir op) fs1 = Inr fs1" and files: "fs_files fs1 = fs_files fs"
    by (auto simp: os_mkdir_all_def split: if_splits)
  have "os_rename None sp op fs1 = Inr fs2"
    using assms sp op fs1 by (cases "os_rename None sp op fs1") (simp_all add: move_staging_to_object_def)
  with sp op fs1 again files that [of fs1] show ?thesis
    by (simp add: move_trace_def move_staging_to_object_def)
qed

lemma staged_files: "fs_files fs1 = fs_files fs \<Longrightarrow> staged st fs1 = staged st fs"
  and stored_files: "fs_files fs1 = fs_files fs \<Longrightarrow> stored st fs1 = stored st fs"
  by (simp_all add: staged_def stored_def fun_eq_iff split: sum.split)

lemma content_move:
  assumes "staged (storage_at base) fs (up_staging u) = Some c" "stored (storage_at base) fs (up_final u) = None"
    and "movable (storage_at base) u fs"
  obtains fs1 fs2 where "move_staging_to_object (storage_at base) None None (up_staging u) (up_final u) fs = (Inr (), fs2)"
    "move_trace (storage_at base) None None (up_staging u) (up_final u) fs = [fs1, fs2]"
    "content_at (storage_at base) u c fs1" "content_at (storage_at base) u c fs2"
    "staged (storage_at base) fs2 (up_staging u) = None" "stored (storage_at base) fs2 (up_final u) = Some c"
proof -
  let ?st = "storage_at base"
  from assms(3) obtain fs2 where move: "move_staging_to_object ?st None None (up_staging u) (up_final u) fs = (Inr (), fs2)"
    by (auto simp: movable_def)
  from move_trace_movable [OF move] obtain fs1 where fs1: "move_trace ?st None None (up_staging u) (up_final u) fs = [fs1, fs2]"
    "fs_files fs1 = fs_files fs" "move_staging_to_object ?st None None (up_staging u) (up_final u) fs1 = (Inr (), fs2)" by blast
  from move_staging_contents [OF move] assms(1) have
    "staged ?st fs2 (up_staging u) = None" "stored ?st fs2 (up_final u) = Some c" by auto
  moreover have "movable ?st u fs1" using fs1(3) unfolding movable_def by blast
  then have "content_at ?st u c fs1"
    using assms(1,2) by (simp add: content_at_def staged_files [OF fs1(2)] stored_files [OF fs1(2)])
  ultimately show ?thesis using that [OF move fs1(1)] by (simp add: content_at_def)
qed

lemma committed_finished:
  assumes "commit_ready u db" and "w_db w = committed i u m h now db" and "store_ok (w_db w)"
    and "stored st (w_fs w) (up_final u) = Some c" "staged st (w_fs w) (up_staging u) = None"
  shows "finished st u h c w"
proof -
  have "find_upload (w_db w) (up_id u) = Some (mark_closed StateComplete now u)"
    using assms(1) close_key.lookup_update_key [where s = StateComplete and now = now and rows = "uploads db"]
    by (simp add: assms(2) committed_def commit_ready_def find_upload_def)
  moreover have "filter (\<lambda>f. fr_key f = up_final u) (file_objects (w_db w)) = [upload_file i u m h now]"
    using assms(1) by (auto simp: assms(2) committed_def commit_ready_def upload_file_def filter_empty_conv image_iff)
  moreover have "upload_node i u now \<in> set (nodes (w_db w))" by (simp add: assms(2) committed_def)
  ultimately show ?thesis
    using assms(3-5) unfolding finished_def
    by (intro conjI exI [of _ "mark_closed StateComplete now u"] exI [of _ "upload_file i u m h now"] exI [of _ "upload_node i u now"])
      (simp_all add: mark_closed_def upload_file_def upload_node_def new_node_def)
qed

lemma found_row_ok: "store_ok db \<Longrightarrow> find_upload db i = Some u \<Longrightarrow> row_ok u"
  using store_okD(2) [of db] find_upload_iff [of db i u] by (auto simp: uploads_ok_def)

lemma found_parent: "store_ok db \<Longrightarrow> find_upload db i = Some u \<Longrightarrow> up_parent u \<in> nr_id ` set (nodes db)"
  using upload_folder_find [of db i u] by (force simp: upload_folder_at_def)

text \<open>One visit of the reconciler, complete or crashed.\<close>

lemma resolve_unfinished:
  fixes base defines "st \<equiv> storage_at base"
  assumes ready: "commit_ready u (w_db w)" "up_sha u = Some h" and c: "content_at st u c (w_fs w)"
    and calm: "quiet ora" and id: "uuid ora 0 \<noteq> []" "uuid ora 0 \<notin> nr_id ` set (nodes (w_db w))"
  shows "finished st u h c (resolve_one st ora now u w)"
    and "w' \<in> set (resolve_trace st ora now u w) \<Longrightarrow>
      commit_ready u (w_db w') \<and> content_at st u c (w_fs w') \<or> finished st u h c w'"
proof -
  let ?db' = "committed (uuid ora 0) u octet_stream h now (w_db w)"
  have ok: "store_ok (w_db w)" "find_upload (w_db w) (up_id u) = Some u" "up_state u = StateFinalizing"
    "\<not> sibling_conflict (w_db w) (up_parent u) (up_name_key u)" "up_final u \<notin> fr_key ` set (file_objects (w_db w))"
    using ready(1) by (simp_all add: commit_ready_def)
  from found_row_ok [OF ok(1,2)] found_parent [OF ok(1,2)] have db': "phase_c_blind ora u now (w_db w) = ?db'"
    using phase_c_calm(2) [OF calm store_okD(1,2) id(2) _ ok(4,5), of now] ok(1) ready(2) by (simp add: row_ok_def)
  have "visiting {StateFinalizing} [u] w" using ok by (simp add: visiting_def)
  from resolve_visit [OF this id(1)] have "store_ok (w_db (resolve_one st ora now u w))" by (simp add: visiting_def)
  moreover have "w_db (resolve_one st ora now u w) = ?db' \<and>
      stored st (w_fs (resolve_one st ora now u w)) (up_final u) = Some c \<and>
      staged st (w_fs (resolve_one st ora now u w)) (up_staging u) = None \<and>
      (\<forall>v \<in> set (resolve_trace st ora now u w). v = resolve_one st ora now u w \<or> w_db v = w_db w \<and> content_at st u c (w_fs v))"
    using c [unfolded content_at_def]
  proof (elim disjE conjE)
    assume a: "staged st (w_fs w) (up_staging u) = Some c" "stored st (w_fs w) (up_final u) = None" "movable st u (w_fs w)"
    then obtain fs1 fs2 where m: "move_staging_to_object st None None (up_staging u) (up_final u) (w_fs w) = (Inr (), fs2)"
      "move_trace st None None (up_staging u) (up_final u) (w_fs w) = [fs1, fs2]"
      "content_at st u c fs1" "content_at st u c fs2"
      "staged st fs2 (up_staging u) = None" "stored st fs2 (up_final u) = Some c"
      unfolding st_def by (rule content_move)
    have "\<not> object_exists st None (up_final u) (w_fs w)" "staging_exists st None (up_staging u) (w_fs w)"
      using a by (simp_all add: object_exists_iff staging_exists_iff)
    with m calm db' show ?thesis by (auto simp: resolve_one_def resolve_trace_def Let_def)
  next
    assume a: "staged st (w_fs w) (up_staging u) = None" "stored st (w_fs w) (up_final u) = Some c"
    then have "object_exists st None (up_final u) (w_fs w)" "\<not> staging_exists st None (up_staging u) (w_fs w)"
      by (simp_all add: object_exists_iff staging_exists_iff)
    with a calm db' ok(5) show ?thesis by (auto simp: resolve_one_def resolve_trace_def Let_def)
  qed
  ultimately show "finished st u h c (resolve_one st ora now u w)"
    and "w' \<in> set (resolve_trace st ora now u w) \<Longrightarrow>
      commit_ready u (w_db w') \<and> content_at st u c (w_fs w') \<or> finished st u h c w'"
    using committed_finished [OF ready(1), of "resolve_one st ora now u w"] ready(1) by metis+
qed

text \<open>The worlds of a finalization on a working system.\<close>

lemma finalize_crash_worlds:
  fixes base defines "st \<equiv> storage_at base"
  assumes calm: "quiet ora" and c: "staged st (w_fs w) (up_staging u) = Some c"
    and free: "stored st (w_fs w) (up_final u) = None" "movable st u (w_fs w)"
    and ok: "store_ok (w_db w)" and row: "find_upload (w_db w) (up_id u) = Some v" "up_state v = StateVerifying"
    and same: "up_parent v = up_parent u" "up_name v = up_name u" "up_name_key v = up_name_key u"
      "up_expected v = up_expected u" "up_final v = up_final u" "up_staging v = up_staging u"
    and fresh: "uuid ora 0 \<noteq> []" "uuid ora 0 \<notin> nr_id ` set (nodes (w_db w))"
      "\<not> sibling_conflict (w_db w) (up_parent u) (up_name_key u)" "up_final u \<notin> fr_key ` set (file_objects (w_db w))"
    and crash: "w' \<in> set (finalize_trace sha detect st ora u w)"
  defines "x \<equiv> mark_finalizing (hex_encode (sha c)) (secs (clock ora 2)) v"
  shows "commit_ready x (w_db w') \<and> content_at st x c (w_fs w') \<or> finished st x (hex_encode (sha c)) c w'"
proof -
  let ?h = "hex_encode (sha c)" and ?now = "secs (clock ora 2)"
  obtain p where p: "staging_path st (up_staging u) = Inr p" "fs_files (w_fs w) p = Some c"
    using c by (auto simp: staged_Some)
  define db1 where "db1 = (w_db w)\<lparr>uploads := update_where (\<lambda>r. up_id r = up_id u) (mark_finalizing ?h ?now) (uploads (w_db w))\<rparr>"
  define m where "m = fst (sniff_mime_type detect None None p (w_fs w))"
  have a: "update_upload None (up_id u) (mark_finalizing ?h ?now) (w_db w) = Inr db1"
    unfolding db1_def using store_okD(2) [OF ok]
    by (intro update_upload_calm) (auto simp: mark_finalizing_def uploads_ok_def row_ok_def)
  have tables: "nodes db1 = nodes (w_db w)" "file_objects db1 = file_objects (w_db w)" by (simp_all add: db1_def)
  have id: "up_id v = up_id u" using row(1) ok by (simp add: find_upload_iff store_okD)
  have "store_ok db1"
  proof (rule store_ok_advance [OF ok update_upload_advances [OF a store_okD(2) [OF ok] row(1)]])
    show "row_step\<^sup>*\<^sup>* v (mark_finalizing ?h ?now v)" using row_step.intent [OF row(2)] by blast
    show "files_ok db1" using store_okD(1) [OF ok] by (simp add: files_ok_def tables)
  qed (simp add: tables)
  moreover have "find_upload db1 (up_id x) = Some x"
    using find_after_update [OF a] row(1) id by (simp add: x_def mark_finalizing_def)
  ultimately have ready: "commit_ready x db1"
    using fresh same by (simp add: commit_ready_def x_def mark_finalizing_def tables sibling_conflict_def)
  have keys: "up_staging x = up_staging u" "up_final x = up_final u" "up_expected x = up_expected u" "up_id x = up_id u"
    "upload_node i x now = upload_node i u now" "upload_file i x m' h' now = upload_file i u m' h' now" for i now m' h'
    using same id by (simp_all add: x_def mark_finalizing_def upload_node_def upload_file_def)
  have mv: "movable st x = movable st u" by (simp add: movable_def fun_eq_iff keys)
  from c free mv have "content_at st x c (w_fs w)" by (simp add: content_at_def keys)
  moreover obtain fs1 fs2 where move: "move_staging_to_object st None None (up_staging u) (up_final u) (w_fs w) = (Inr (), fs2)"
    "move_trace st None None (up_staging u) (up_final u) (w_fs w) = [fs1, fs2]"
    "content_at st x c fs1" "content_at st x c fs2" "staged st fs2 (up_staging u) = None" "stored st fs2 (up_final u) = Some c"
    using content_move [of base "w_fs w" x c] c free mv unfolding st_def [symmetric] keys by metis
  have row_x: "row_ok x" using ready unfolding commit_ready_def by (blast intro: found_row_ok)
  have parent: "up_parent u \<in> nr_id ` set (nodes db1)"
    using found_parent [OF ok row(1)] same by (simp add: tables)
  let ?db2 = "committed (uuid ora 0) u m ?h ?now db1"
  have pc: "phase_c ora u m ?h ?now db1 = Inr ?db2"
    using fresh parent row_x ready
    by (intro phase_c_calm(1) [OF calm]) (simp_all add: commit_ready_def store_okD tables sibling_conflict_def row_ok_def keys)
  have "store_ok ?db2"
  proof -
    have adv: "advances (uploads db1) (uploads ?db2)"
    proof -
      have "find_upload db1 (up_id u) = Some x" using ready keys by (simp add: commit_ready_def)
      from phase_c_uploads [OF pc] obtain db3 where db3: "uploads db3 = uploads db1"
        "update_upload (db_fails ora 6) (up_id u) (mark_closed StateComplete ?now) db3 = Inr ?db2" by blast
      have "row_step\<^sup>*\<^sup>* x (mark_closed StateComplete ?now x)"
        using row_step.commit [of x] by (simp add: x_def mark_finalizing_def r_into_rtranclp)
      with db3 show ?thesis
        using update_upload_advances [OF db3(2), of x] \<open>find_upload db1 (up_id u) = Some x\<close> store_okD(2) [OF \<open>store_ok db1\<close>]
        by (simp add: uploads_ok_def find_upload_def)
    qed
    from phase_c_files [OF pc store_okD(1) [OF \<open>store_ok db1\<close>] fresh(1)] upload_folder_find [OF ok row(1)] same
    have "files_ok ?db2 \<and> set (nodes db1) \<subseteq> set (nodes ?db2)" by (simp add: upload_folder_at_def tables)
    with store_ok_advance [OF \<open>store_ok db1\<close> adv] show ?thesis by blast
  qed
  have "?db2 = committed (uuid ora 0) x m ?h ?now db1" by (simp add: committed_def keys)
  with committed_finished [OF ready, of "\<lparr>w_db = ?db2, w_fs = fs2\<rparr>"] move(5,6) \<open>store_ok ?db2\<close>
  have last: "finished st x ?h c \<lparr>w_db = ?db2, w_fs = fs2\<rparr>" by (simp add: keys)
  have "finalize_trace sha detect st ora u w =
      [\<lparr>w_db = db1, w_fs = w_fs w\<rparr>, \<lparr>w_db = db1, w_fs = fs1\<rparr>, \<lparr>w_db = db1, w_fs = fs2\<rparr>, \<lparr>w_db = ?db2, w_fs = fs2\<rparr>]"
    using calm p a move pc by (simp add: finalize_trace_def os_open_def Let_def m_def)
  with crash have "w' = \<lparr>w_db = db1, w_fs = w_fs w\<rparr> \<or> w' = \<lparr>w_db = db1, w_fs = fs1\<rparr> \<or> w' = \<lparr>w_db = db1, w_fs = fs2\<rparr> \<or>
      w' = \<lparr>w_db = ?db2, w_fs = fs2\<rparr>" by simp
  with ready move(3,4) \<open>content_at st x c (w_fs w)\<close> last show ?thesis by auto
qed

section \<open>Visits of other uploads\<close>

lemma normal_take: "normal_parts r ps \<Longrightarrow> normal_parts r (take m ps)"
  unfolding normal_parts_def
proof (elim exE conjE)
  fix n qs assume "ps = replicate n ''..'' @ qs" "r \<longrightarrow> n = 0" "list_all plain_part qs"
  then show "\<exists>n qs. take m ps = replicate n ''..'' @ qs \<and> (r \<longrightarrow> n = 0) \<and> list_all plain_part qs"
    by (intro exI [of _ "min n m"] exI [of _ "take (m - n) qs"]) (auto simp: list_all_iff min_def dest: in_set_takeD)
qed

lemma path_parts_dir:
  assumes "normal_parts r (ps @ [k])" and "plain_part k"
  shows "path_parts (path_dir (render_path r (ps @ [k]))) = ps"
proof (cases "ps = []")
  case True
  have "dropWhile (\<lambda>c. c \<noteq> CHR ''/'') (rev k @ xs) = dropWhile (\<lambda>c. c \<noteq> CHR ''/'') xs" for xs
    using assms(2) by (intro dropWhile_append2) (auto simp: plain_part_def)
  note drop = this [of "[]"] this [of "[CHR ''/'']"]
  have "dropWhile (\<lambda>c. c \<noteq> CHR ''/'') (rev k) = []" using drop(1) by simp
  moreover have "dropWhile (\<lambda>c. c \<noteq> CHR ''/'') (rev k @ [CHR ''/'']) = [CHR ''/'']" using drop(2) by simp
  ultimately have "path_dir (render_path r [k]) = (if r then go_clean ''/'' else go_clean [])"
    by (simp add: path_dir_def render_path_def del: dropWhile_eq_Nil_conv)
  moreover have "path_parts (go_clean ''/'') = []" "path_parts (go_clean []) = []" by code_simp+
  ultimately show ?thesis using True by simp
next
  case False
  have norm: "normal_parts r ps" using normal_butlast [OF assms(1)] assms(2) by (simp add: plain_part_def)
  from path_dir_render [OF norm False assms(2)] path_parts_render [OF norm] show ?thesis by simp
qed

text \<open>No object's path is a directory on the way to an object.\<close>

lemma object_not_ancestor:
  assumes "object_path (storage_at base) k = Inr op" and "object_path (storage_at base) k' = Inr op'"
  shows "op \<notin> set (ancestors (path_dir op'))"
proof
  let ?B = "path_parts base"
  assume "op \<in> set (ancestors (path_dir op'))"
  then obtain n where op: "op = render_path (rooted (path_dir op')) (take n (path_parts (path_dir op')))"
    by (auto simp: ancestors_def)
  from assms have k: "valid_key k" "op = render_path (rooted base) (?B @ object_parts k)"
    "valid_key k'" "op' = render_path (rooted base) (?B @ object_parts k')"
    by (simp_all add: object_path_parts split: if_splits)
  define front where "front = (if take 2 k' = ''..'' then [] else [''objects'', take 2 k'])"
  have front: "object_parts k' = front @ [k']" by (simp add: object_parts_def front_def)
  have "normal_parts (rooted base) ((?B @ front) @ [k'])" using normal_key_parts(1) [OF k(3), of base] by (simp add: front)
  from path_parts_dir [OF this valid_key_plain [OF k(3)]] k(4) have dir: "path_parts (path_dir op') = ?B @ front"
    by (simp add: front)
  have "normal_parts (rooted (path_dir op')) (take n (path_parts (path_dir op')))"
    using normal_take [OF normal_path_parts] .
  then have "path_parts op = take n (?B @ front)" unfolding op by (simp add: path_parts_render dir)
  moreover have "path_parts op = ?B @ object_parts k"
    unfolding k(2) by (rule path_parts_render [OF normal_key_parts(1) [OF k(1)]])
  ultimately have "?B @ object_parts k = take n (?B @ front)" by simp
  then have "prefix (?B @ object_parts k) (?B @ front)" by (metis take_is_prefix)
  then have "prefix (object_parts k) front" by simp
  then show False by (auto simp: object_parts_def front_def split: if_splits)
qed

text \<open>What the visit of \<open>v\<close> may do to the file tree.\<close>

definition elsewhere :: "storage \<Rightarrow> upload_row \<Rightarrow> fs \<Rightarrow> fs \<Rightarrow> bool" where
  "elsewhere st v fs fs' \<longleftrightarrow>
     (\<forall>p. object_path st (up_final v) \<noteq> Inr p \<longrightarrow>
        fs_files fs' p = fs_files fs p \<or> fs_files fs' p = None \<and> staging_path st (up_staging v) = Inr p) \<and>
     fs_dirs fs \<subseteq> fs_dirs fs' \<and>
     (\<forall>d \<in> fs_dirs fs' - fs_dirs fs. \<exists>op. object_path st (up_final v) = Inr op \<and> d \<in> set (ancestors (path_dir op)))"

lemma elsewhere_refl [simp]: "elsewhere st v fs fs"
  by (simp add: elsewhere_def)

lemma elsewhere_remove: "elsewhere st v fs (snd (remove_staging_file st flt (up_staging v) fs))"
proof (cases "staging_path st (up_staging v)")
  case (Inr p)
  obtain r fs' where r: "remove_quietly flt p fs = (r, fs')" by fastforce
  have "fs' = fs \<or> fs' = fs\<lparr>fs_files := (fs_files fs)(p := None)\<rparr>"
    using r remove_quietly_Inl [of flt p fs _ fs'] remove_quietly_Inr [of flt p fs _ fs'] by (cases r) simp_all
  with Inr r show ?thesis by (auto simp: remove_staging_file_def elsewhere_def split: if_splits)
qed (simp add: remove_staging_file_def)

lemma elsewhere_move: "elsewhere st v fs (snd (move_staging_to_object st flt1 flt2 (up_staging v) (up_final v) fs))"
proof (cases "staging_path st (up_staging v)")
  case sp: (Inr sp)
  show ?thesis
  proof (cases "object_path st (up_final v)")
    case op: (Inr op)
    show ?thesis
    proof (cases "os_mkdir_all flt1 (path_dir op) fs")
      case (Inr fs1)
      then have fs1: "fs1 = fs\<lparr>fs_dirs := fs_dirs fs \<union> set (ancestors (path_dir op))\<rparr>"
        by (auto simp: os_mkdir_all_def split: option.splits if_splits)
      with sp op have first: "elsewhere st v fs fs1" by (auto simp: elsewhere_def)
      show ?thesis
      proof (cases "os_rename flt2 sp op fs1")
        case rename: (Inr fs2)
        then obtain c where "fs2 = fs1\<lparr>fs_files := ((fs_files fs1)(sp := None))(op \<mapsto> c)\<rparr>"
          by (auto simp: os_rename_def split: sum.splits if_splits)
        with sp op have "elsewhere st v fs fs2" by (auto simp: elsewhere_def fs1)
        with sp op Inr rename show ?thesis by (simp add: move_staging_to_object_def)
      qed (use sp op Inr first in \<open>simp add: move_staging_to_object_def\<close>)
    qed (use sp op in \<open>simp add: move_staging_to_object_def\<close>)
  qed (use sp in \<open>simp add: move_staging_to_object_def\<close>)
qed (simp add: move_staging_to_object_def)

lemma resolve_elsewhere: "elsewhere st v (w_fs w) (w_fs (resolve_one st ora now v w))"
proof -
  let ?m = "move_staging_to_object st (fs_fails ora 3) (fs_fails ora 4) (up_staging v) (up_final v) (w_fs w)"
  have "w_fs (resolve_one st ora now v w) \<in> {w_fs w, snd ?m, snd (remove_staging_file st (fs_fails ora 2) (up_staging v) (w_fs w))}"
    by (cases ?m; cases "fst ?m") (auto simp: resolve_one_def Let_def)
  with elsewhere_move elsewhere_remove show ?thesis by fastforce
qed

lemma expire_elsewhere: "elsewhere st v (w_fs w) (w_fs (expire_one st ora now v w))"
  by (simp add: expire_one_def elsewhere_remove)

text \<open>Two uploads with different keys.\<close>

definition apart :: "upload_row \<Rightarrow> upload_row \<Rightarrow> bool" where
  "apart u v \<longleftrightarrow> up_id v \<noteq> up_id u \<and> up_staging v \<noteq> up_staging u \<and> up_final v \<noteq> up_final u"

lemma movable_iff:
  "movable st u fs \<longleftrightarrow>
     (\<exists>sp op. staging_path st (up_staging u) = Inr sp \<and> object_path st (up_final u) = Inr op \<and> fs_files fs sp \<noteq> None \<and>
        (\<forall>a \<in> set (ancestors (path_dir op)). fs_files fs a = None) \<and>
        op \<notin> fs_dirs fs \<union> set (ancestors (path_dir op)) \<and> path_dir op \<in> fs_dirs fs \<union> set (ancestors (path_dir op)))"
  by (auto simp: movable_def move_staging_to_object_def os_mkdir_all_def os_rename_def os_open_def list_ex_iff
      split: sum.split option.split)

lemma elsewhere_content:
  fixes base defines "st \<equiv> storage_at base"
  assumes away: "elsewhere st v fs fs'" and diff: "apart u v"
  shows "staged st fs' (up_staging u) = staged st fs (up_staging u)"
    and "stored st fs' (up_final u) = stored st fs (up_final u)"
    and "movable st u fs \<Longrightarrow> movable st u fs'"
proof -
  have kept: "fs_files fs' p = fs_files fs p"
    if "staging_path st (up_staging u) = Inr p \<or> object_path st (up_final u) = Inr p" for p
  proof -
    have "object_path st (up_final v) \<noteq> Inr p" "staging_path st (up_staging v) \<noteq> Inr p"
      using that diff staging_path_inj [of base] object_path_inj [of base] staging_object_differ [of base]
      unfolding st_def apart_def by blast+
    with away show ?thesis by (auto simp: elsewhere_def)
  qed
  then show same: "staged st fs' (up_staging u) = staged st fs (up_staging u)" "stored st fs' (up_final u) = stored st fs (up_final u)"
    by (simp_all add: staged_def stored_def split: sum.split)
  assume "movable st u fs"
  then obtain sp op where m: "staging_path st (up_staging u) = Inr sp" "object_path st (up_final u) = Inr op" "fs_files fs sp \<noteq> None"
      "\<forall>a \<in> set (ancestors (path_dir op)). fs_files fs a = None"
      "op \<notin> fs_dirs fs \<union> set (ancestors (path_dir op))" "path_dir op \<in> fs_dirs fs \<union> set (ancestors (path_dir op))"
    unfolding movable_iff by blast
  have "fs_files fs' a = None" if "a \<in> set (ancestors (path_dir op))" for a
  proof -
    have "object_path st (up_final v) \<noteq> Inr a"
      using that m(2) object_not_ancestor [of base "up_final v" a "up_final u" op] by (auto simp: st_def)
    with that away m(4) show ?thesis by (auto simp: elsewhere_def)
  qed
  moreover have "op \<notin> fs_dirs fs'"
  proof
    assume "op \<in> fs_dirs fs'"
    with m(5) have "op \<in> fs_dirs fs' - fs_dirs fs" by blast
    with away obtain op' where "object_path st (up_final v) = Inr op'" "op \<in> set (ancestors (path_dir op'))"
      unfolding elsewhere_def by blast
    with object_not_ancestor [of base "up_final u" op "up_final v" op'] m(2) show False by (simp add: st_def)
  qed
  moreover have "path_dir op \<in> fs_dirs fs' \<union> set (ancestors (path_dir op))" using m(6) away by (auto simp: elsewhere_def)
  moreover have "fs_files fs' sp \<noteq> None" using kept m(1,3) by simp
  ultimately show "movable st u fs'" using m(1,2,5) unfolding movable_iff by blast
qed

lemma resolve_trace_elsewhere:
  assumes "w' \<in> set (resolve_trace st ora now v w)"
  shows "elsewhere st v (w_fs w) (w_fs w')"
proof -
  let ?m = "move_staging_to_object st (fs_fails ora 3) (fs_fails ora 4) (up_staging v) (up_final v) (w_fs w)"
  let ?t = "move_trace st (fs_fails ora 3) (fs_fails ora 4) (up_staging v) (up_final v) (w_fs w)"
  have "w_fs w' \<in> {w_fs w, snd ?m, snd (remove_staging_file st (fs_fails ora 2) (up_staging v) (w_fs w))} \<union> set ?t"
    using assms by (cases ?m; cases "fst ?m") (auto simp: resolve_trace_def Let_def split: if_splits)
  moreover have "elsewhere st v (w_fs w) f" if "f \<in> set ?t" for f
    using move_trace_fault [OF that] elsewhere_move [of st v "w_fs w" "fs_fails ora 3"] by metis
  ultimately show ?thesis using elsewhere_move elsewhere_remove by fastforce
qed

lemma expire_trace_elsewhere: "w' \<in> set (expire_trace st ora now v w) \<Longrightarrow> elsewhere st v (w_fs w) (w_fs w')"
  by (auto simp: expire_trace_def Let_def elsewhere_remove)

text \<open>What a visit of \<open>v\<close> adds to the tables.\<close>

lemma attempt_tables:
  "nodes (attempt (update_upload flt i g db) db) = nodes db"
  "file_objects (attempt (update_upload flt i g db) db) = file_objects db"
  "attempt (insert_node flt r db) db \<in> {db, db\<lparr>nodes := nodes db @ [r]\<rparr>}"
  "attempt (insert_file flt f db) db \<in> {db, db\<lparr>file_objects := file_objects db @ [f]\<rparr>}"
  by (auto simp: attempt_def update_upload_Inr insert_node_Inr insert_file_Inr split: sum.split)

definition adds_only :: "upload_row \<Rightarrow> string \<Rightarrow> database \<Rightarrow> database \<Rightarrow> bool" where
  "adds_only v i db db' \<longleftrightarrow>
     (\<exists>ns fs. nodes db' = nodes db @ ns \<and> file_objects db' = file_objects db @ fs \<and>
        (\<forall>r \<in> set ns. nr_id r = i \<and> nr_parent r = Some (up_parent v) \<and> nr_name_key r = up_name_key v) \<and>
        (\<forall>f \<in> set fs. fr_key f = up_final v))"

lemma adds_only_refl: "nodes db' = nodes db \<Longrightarrow> file_objects db' = file_objects db \<Longrightarrow> adds_only v i db db'"
  by (auto simp: adds_only_def)

lemma phase_c_blind_adds: "adds_only v (uuid ora 0) db (phase_c_blind ora v now db)"
proof -
  let ?r = "upload_node (uuid ora 0) v now"
  define db1 where "db1 = attempt (insert_node (db_fails ora 2) ?r db) db"
  define f where "f = upload_file (uuid ora 0) v octet_stream (case up_sha v of None \<Rightarrow> [] | Some h \<Rightarrow> h) now"
  define db2 where "db2 = attempt (insert_file (db_fails ora 3) f db1) db1"
  have 1: "db1 = db \<or> db1 = db\<lparr>nodes := nodes db @ [?r]\<rparr>" using attempt_tables(3) by (auto simp: db1_def)
  have 2: "db2 = db1 \<or> db2 = db1\<lparr>file_objects := file_objects db1 @ [f]\<rparr>" using attempt_tables(4) by (auto simp: db2_def)
  have r: "nr_id ?r = uuid ora 0" "nr_parent ?r = Some (up_parent v)" "nr_name_key ?r = up_name_key v" "fr_key f = up_final v"
    by (simp_all add: upload_node_def new_node_def f_def upload_file_def)
  obtain ns fs where "nodes db2 = nodes db @ ns" "set ns \<subseteq> {?r}" "file_objects db2 = file_objects db @ fs" "set fs \<subseteq> {f}"
    using 1 2 by (auto intro: that [of "[]" "[]"] that [of "[]" "[f]"] that [of "[?r]" "[]"] that [of "[?r]" "[f]"])
  with r have "adds_only v (uuid ora 0) db db2" unfolding adds_only_def by blast
  then have "adds_only v (uuid ora 0) db (attempt (update_upload flt i g db2) db2)" for flt i g
    by (simp add: adds_only_def attempt_tables)
  then show ?thesis
    by (simp add: phase_c_blind_def Let_def db1_def [symmetric] f_def [symmetric] db2_def [symmetric] adds_only_refl split: sum.split)
qed

lemma resolve_adds: "adds_only v (uuid ora 0) (w_db w) (w_db (resolve_one st ora now v w))"
  using phase_c_blind_adds by (simp add: resolve_one_def Let_def adds_only_refl attempt_tables split: sum.split prod.split)

lemma expire_adds: "adds_only v i (w_db w) (w_db (expire_one st ora now v w))"
  by (simp add: expire_one_def adds_only_refl attempt_tables)

section \<open>An upload on its way to completion\<close>

definition recoverable :: "storage \<Rightarrow> upload_row \<Rightarrow> string \<Rightarrow> string \<Rightarrow> world \<Rightarrow> bool" where
  "recoverable st u h c w \<longleftrightarrow> commit_ready u (w_db w) \<and> content_at st u c (w_fs w) \<or> finished st u h c w"

text \<open>The other uploads use other keys and, while they run, another name or folder.\<close>

definition others_ok :: "upload_row \<Rightarrow> database \<Rightarrow> bool" where
  "others_ok u db \<longleftrightarrow>
     (\<forall>v \<in> set (uploads db). up_id v \<noteq> up_id u \<longrightarrow> up_staging v \<noteq> up_staging u \<and> up_final v \<noteq> up_final u \<and>
        (up_state v \<in> active_states \<longrightarrow> (up_parent v, up_name_key v) \<noteq> (up_parent u, up_name_key u)))"

lemma active_before: "row_step\<^sup>*\<^sup>* u v \<Longrightarrow> up_state v \<in> active_states \<Longrightarrow> up_state u \<in> active_states"
proof -
  assume steps: "row_step\<^sup>*\<^sup>* u v" and active: "up_state v \<in> active_states"
  show ?thesis
  proof (rule ccontr)
    assume "up_state u \<notin> active_states"
    then have "up_state u = StateComplete \<or> up_state u \<in> {StateFailed, StateExpired, StateTerminated}"
      by (cases "up_state u") (simp_all add: active_states_def)
    with complete_final [OF steps] closed_stays [OF steps] active show False by (auto simp: active_states_def)
  qed
qed

lemma others_ok_advances:
  assumes "others_ok u db" and adv: "advances (uploads db) (uploads db')"
  shows "others_ok u db'"
  unfolding others_ok_def
proof (intro ballI impI)
  fix v assume v: "v \<in> set (uploads db')" "up_id v \<noteq> up_id u"
  with adv obtain x where x: "x \<in> set (uploads db)" "row_step\<^sup>*\<^sup>* x v" by (blast dest: advances_row_back)
  have "same_upload x v" using row_steps_same [OF x(2)] by simp
  with assms(1) x v active_before [OF x(2)] show "up_staging v \<noteq> up_staging u \<and> up_final v \<noteq> up_final u \<and>
      (up_state v \<in> active_states \<longrightarrow> (up_parent v, up_name_key v) \<noteq> (up_parent u, up_name_key u))"
    by (auto simp: others_ok_def same_upload_def)
qed

lemma recoverable_other:
  fixes base defines "st \<equiv> storage_at base"
  assumes rec: "recoverable st u h c w" and diff: "apart u v"
    and away: "elsewhere st v (w_fs w) (w_fs w')"
    and ok: "store_ok (w_db w')" and touch: "touches (up_id v) (w_db w) (w_db w')"
    and adds: "adds_only v i (w_db w) (w_db w')" and names: "(up_parent v, up_name_key v) \<noteq> (up_parent u, up_name_key u) \<or>
      nodes (w_db w') = nodes (w_db w)"
  shows "recoverable st u h c w'"
proof -
  note fs = elsewhere_content [of base, folded st_def, OF away diff]
  from adds obtain ns fl where new: "nodes (w_db w') = nodes (w_db w) @ ns" "file_objects (w_db w') = file_objects (w_db w) @ fl"
    "\<forall>r \<in> set ns. nr_parent r = Some (up_parent v) \<and> nr_name_key r = up_name_key v" "\<forall>f \<in> set fl. fr_key f = up_final v"
    unfolding adds_only_def by blast
  have row: "find_upload (w_db w') (up_id u) = find_upload (w_db w) (up_id u)"
    using touch diff by (auto simp: touches_def apart_def)
  from rec [unfolded recoverable_def] show ?thesis
  proof (elim disjE conjE)
    assume a: "commit_ready u (w_db w)" "content_at st u c (w_fs w)"
    have "\<not> sibling_conflict (w_db w') (up_parent u) (up_name_key u)"
      using a(1) names new(1,3) by (auto simp: commit_ready_def sibling_conflict_def list_ex_iff)
    moreover have "up_final u \<notin> fr_key ` set (file_objects (w_db w'))"
      using a(1) new(2,4) diff by (auto simp: commit_ready_def apart_def)
    ultimately have "commit_ready u (w_db w')" using a(1) ok row by (simp add: commit_ready_def)
    moreover have "content_at st u c (w_fs w')" using a(2) fs by (auto simp: content_at_def)
    ultimately show ?thesis by (simp add: recoverable_def)
  next
    assume "finished st u h c w"
    moreover have "filter (\<lambda>f. fr_key f = up_final u) fl = []"
      using new(4) diff by (auto simp: filter_empty_conv apart_def)
    ultimately have "finished st u h c w'" using ok row fs new(1,2) by (auto simp: finished_def)
    then show ?thesis by (simp add: recoverable_def)
  qed
qed

text \<open>The state of a loop of visits around the upload \<open>u\<close>.\<close>

definition under_way ::
  "storage \<Rightarrow> upload_row \<Rightarrow> string \<Rightarrow> string \<Rightarrow> upload_state set \<Rightarrow> upload_row list \<Rightarrow> world \<Rightarrow> bool" where
  "under_way st u h c S us w \<longleftrightarrow> recoverable st u h c w \<and> others_ok u (w_db w) \<and> visiting S us w"

lemma recoverable_row:
  assumes "recoverable st u h c w" and "find_upload (w_db w) (up_id u) = Some v"
  shows "up_state v \<notin> {StateCreated, StateReceiving}" and "up_state v = StateFinalizing \<Longrightarrow> v = u \<and> commit_ready u (w_db w) \<and> content_at st u c (w_fs w)"
  using assms by (auto simp: recoverable_def commit_ready_def finished_def)

lemma others_apart:
  assumes "others_ok u (w_db w)" and "store_ok (w_db w)" and "find_upload (w_db w) (up_id v) = Some v" and "up_id v \<noteq> up_id u"
  shows "apart u v" and "up_state v \<in> active_states \<Longrightarrow> (up_parent v, up_name_key v) \<noteq> (up_parent u, up_name_key u)"
proof -
  have "v \<in> set (uploads (w_db w))" using assms(2,3) by (simp add: find_upload_iff store_okD)
  with assms show "apart u v" "up_state v \<in> active_states \<Longrightarrow> (up_parent v, up_name_key v) \<noteq> (up_parent u, up_name_key u)"
    by (auto simp: others_ok_def apart_def)
qed

lemma expire_under_way:
  fixes base defines "st \<equiv> storage_at base"
  assumes way: "under_way st u h c {StateCreated, StateReceiving} (v # us) w"
  shows "\<And>w'. w' \<in> set (expire_trace st ora now v w) \<Longrightarrow> recoverable st u h c w'"
    and "under_way st u h c {StateCreated, StateReceiving} us (expire_one st ora now v w)"
proof -
  let ?S = "{StateCreated, StateReceiving}"
  have v: "find_upload (w_db w) (up_id v) = Some v" "up_state v \<in> ?S" "store_ok (w_db w)"
    using way by (simp_all add: under_way_def visiting_def)
  have rec: "recoverable st u h c w" "others_ok u (w_db w)" using way by (simp_all add: under_way_def)
  have "up_id v \<noteq> up_id u" using recoverable_row(1) [OF rec(1), of v] v(1,2) by auto
  note diff = others_apart(1) [OF rec(2) v(3,1) this]
  have touch: "touches (up_id v) (w_db w) (w_db (expire_one st ora now v w))"
    using touches_expire [OF store_okD(2) [OF v(3)] v(1,2)] .
  have vis: "visiting ?S us (expire_one st ora now v w)"
    using way touch expire_one_files v(3)
    by (intro visiting_step [of ?S v us w]) (auto simp: under_way_def store_okD)
  then have ok: "store_ok (w_db (expire_one st ora now v w))" by (simp add: visiting_def)
  note other = recoverable_other [of base, folded st_def, OF rec(1) diff]
  have db: "nodes (w_db (expire_one st ora now v w)) = nodes (w_db w)" by (simp add: expire_one_files)
  have same: "w_db w' = w_db (expire_one st ora now v w)" if "w' \<in> set (expire_trace st ora now v w)" for w'
    using that by (auto simp: expire_trace_def expire_one_def Let_def)
  show "recoverable st u h c w'" if "w' \<in> set (expire_trace st ora now v w)" for w'
    using other [OF expire_trace_elsewhere [OF that]] same [OF that] ok touch expire_adds db by simp
  have "recoverable st u h c (expire_one st ora now v w)"
    using other [OF expire_elsewhere] ok touch expire_adds db by blast
  with vis others_ok_advances [OF rec(2)] touch show "under_way st u h c ?S us (expire_one st ora now v w)"
    by (simp add: under_way_def touches_def)
qed

lemma resolve_under_way:
  fixes base defines "st \<equiv> storage_at base"
  assumes way: "under_way st u h c {StateFinalizing} (v # us) w" and sha: "up_sha u = Some h"
    and calm: "quiet ora" and id: "uuid ora 0 \<noteq> []" "uuid ora 0 \<notin> nr_id ` set (nodes (w_db w))"
  shows "\<And>w'. w' \<in> set (resolve_trace st ora now v w) \<Longrightarrow> recoverable st u h c w'"
    and "under_way st u h c {StateFinalizing} us (resolve_one st ora now v w)"
    and "up_id v = up_id u \<Longrightarrow> finished st u h c (resolve_one st ora now v w)"
proof -
  let ?S = "{StateFinalizing}" and ?w = "resolve_one st ora now v w"
  have v: "find_upload (w_db w) (up_id v) = Some v" "up_state v = StateFinalizing" "store_ok (w_db w)"
    using way by (simp_all add: under_way_def visiting_def)
  have rec: "recoverable st u h c w" "others_ok u (w_db w)" "visiting ?S (v # us) w" using way by (simp_all add: under_way_def)
  have touch: "touches (up_id v) (w_db w) (w_db ?w)"
    by (rule touches_resolve [OF store_okD(2) [OF v(3)] v(1,2)])
  have vis: "visiting ?S us ?w" by (rule resolve_visit [OF rec(3) id(1)])
  then have ok: "store_ok (w_db ?w)" by (simp add: visiting_def)
  have "(\<forall>w' \<in> set (resolve_trace st ora now v w). recoverable st u h c w') \<and> recoverable st u h c ?w \<and>
      (up_id v = up_id u \<longrightarrow> finished st u h c ?w)"
  proof (cases "up_id v = up_id u")
    case True
    with recoverable_row(2) [OF rec(1), of v] v(1,2) have "v = u" "commit_ready u (w_db w)" "content_at st u c (w_fs w)" by auto
    with resolve_unfinished [of u w h base c ora, folded st_def] sha calm id show ?thesis by (simp add: recoverable_def)
  next
    case False
    note diff = others_apart [OF rec(2) v(3,1) False]
    note other = recoverable_other [of base, folded st_def, OF rec(1) diff(1)]
    have "recoverable st u h c w'" if "w' \<in> set (resolve_trace st ora now v w)" for w'
      using resolve_one_write [OF that]
    proof
      assume "w_db w' = w_db w"
      then show ?thesis
        by (intro other [OF resolve_trace_elsewhere [OF that]]) (simp_all add: v(3) touches_same adds_only_refl)
    next
      assume "w_db w' = w_db ?w"
      then show ?thesis
        using diff(2) v(2) ok touch resolve_adds
        by (intro other [OF resolve_trace_elsewhere [OF that]]) (simp_all add: active_states_def)
    qed
    moreover have "recoverable st u h c ?w"
      using diff(2) v(2) by (intro other [OF resolve_elsewhere ok touch resolve_adds]) (simp add: active_states_def)
    ultimately show ?thesis using False by simp
  qed
  then show "\<And>w'. w' \<in> set (resolve_trace st ora now v w) \<Longrightarrow> recoverable st u h c w'"
    and "under_way st u h c ?S us ?w" and "up_id v = up_id u \<Longrightarrow> finished st u h c ?w"
    using vis others_ok_advances [OF rec(2)] touch by (simp_all add: under_way_def touches_def)
qed

text \<open>The identifiers drawn from the visit \<open>n\<close> on are new.\<close>

definition new_ids :: "(nat \<Rightarrow> outside) \<Rightarrow> nat \<Rightarrow> database \<Rightarrow> bool" where
  "new_ids final n db \<longleftrightarrow> inj (\<lambda>k. uuid (final k) 0) \<and>
     (\<forall>k \<ge> n. uuid (final k) 0 \<noteq> [] \<and> uuid (final k) 0 \<notin> nr_id ` set (nodes db))"

lemma new_ids_step:
  assumes "new_ids final n db" and "adds_only v (uuid (final n) 0) db db'"
  shows "new_ids final (Suc n) db'"
proof -
  from assms(2) obtain ns where "nodes db' = nodes db @ ns" "\<forall>r \<in> set ns. nr_id r = uuid (final n) 0"
    by (auto simp: adds_only_def)
  then have ids: "nr_id ` set (nodes db') \<subseteq> nr_id ` set (nodes db) \<union> {uuid (final n) 0}" by auto
  have "uuid (final k) 0 \<noteq> [] \<and> uuid (final k) 0 \<notin> nr_id ` set (nodes db')" if "Suc n \<le> k" for k
  proof -
    have "uuid (final k) 0 \<noteq> uuid (final n) 0" using assms(1) that by (auto simp: new_ids_def dest: injD)
    moreover have "uuid (final k) 0 \<noteq> [] \<and> uuid (final k) 0 \<notin> nr_id ` set (nodes db)"
      using assms(1) that by (simp add: new_ids_def)
    ultimately show ?thesis using ids by blast
  qed
  with assms(1) show ?thesis by (simp add: new_ids_def)
qed

lemma expire_loop_under_way:
  fixes base defines "st \<equiv> storage_at base"
  assumes "under_way st u h c {StateCreated, StateReceiving} us w"
  shows "\<And>w'. w' \<in> set (trace_all (\<lambda>k. expire_trace st (stale k) now) n us w) \<Longrightarrow> recoverable st u h c w'"
    and "recoverable st u h c (visit_all (\<lambda>k. expire_one st (stale k) now) n us w) \<and>
      others_ok u (w_db (visit_all (\<lambda>k. expire_one st (stale k) now) n us w)) \<and>
      store_ok (w_db (visit_all (\<lambda>k. expire_one st (stale k) now) n us w)) \<and>
      nodes (w_db (visit_all (\<lambda>k. expire_one st (stale k) now) n us w)) = nodes (w_db w)"
proof -
  have "(\<forall>w' \<in> set (trace_all (\<lambda>k. expire_trace st (stale k) now) n us w). recoverable st u h c w') \<and>
      recoverable st u h c (visit_all (\<lambda>k. expire_one st (stale k) now) n us w) \<and>
      others_ok u (w_db (visit_all (\<lambda>k. expire_one st (stale k) now) n us w)) \<and>
      store_ok (w_db (visit_all (\<lambda>k. expire_one st (stale k) now) n us w)) \<and>
      nodes (w_db (visit_all (\<lambda>k. expire_one st (stale k) now) n us w)) = nodes (w_db w)"
    using assms(2)
  proof (induction us arbitrary: n w)
    case (Cons v us)
    note v = expire_under_way [of base, folded st_def, OF Cons.prems]
    from Cons.IH [OF v(2)] v(1) show ?case
      by (auto simp: expire_trace_ends expire_one_files)
  qed (simp add: under_way_def visiting_def)
  then show "\<And>w'. w' \<in> set (trace_all (\<lambda>k. expire_trace st (stale k) now) n us w) \<Longrightarrow> recoverable st u h c w'"
    and "recoverable st u h c (visit_all (\<lambda>k. expire_one st (stale k) now) n us w) \<and>
      others_ok u (w_db (visit_all (\<lambda>k. expire_one st (stale k) now) n us w)) \<and>
      store_ok (w_db (visit_all (\<lambda>k. expire_one st (stale k) now) n us w)) \<and>
      nodes (w_db (visit_all (\<lambda>k. expire_one st (stale k) now) n us w)) = nodes (w_db w)" by blast+
qed

lemma resolve_loop_under_way:
  fixes base defines "st \<equiv> storage_at base"
  assumes "under_way st u h c {StateFinalizing} us w" and sha: "up_sha u = Some h"
    and calm: "\<And>k. quiet (final k)" and "new_ids final n (w_db w)"
  shows "\<And>w'. w' \<in> set (trace_all (\<lambda>k. resolve_trace st (final k) now) n us w) \<Longrightarrow>
      recoverable st u h c w' \<and> others_ok u (w_db w') \<and> store_ok (w_db w')"
    and "finished st u h c w \<or> up_id u \<in> up_id ` set us \<Longrightarrow>
      finished st u h c (visit_all (\<lambda>k. resolve_one st (final k) now) n us w)"
proof -
  have "(\<forall>w' \<in> set (trace_all (\<lambda>k. resolve_trace st (final k) now) n us w).
      recoverable st u h c w' \<and> others_ok u (w_db w') \<and> store_ok (w_db w')) \<and>
    (finished st u h c w \<or> up_id u \<in> up_id ` set us \<longrightarrow>
      finished st u h c (visit_all (\<lambda>k. resolve_one st (final k) now) n us w))"
    using assms(2,5)
  proof (induction us arbitrary: n w)
    case (Cons v us)
    have id: "uuid (final n) 0 \<noteq> []" "uuid (final n) 0 \<notin> nr_id ` set (nodes (w_db w))"
      using Cons.prems(2) by (simp_all add: new_ids_def)
    let ?w = "resolve_one st (final n) now v w"
    note v = resolve_under_way [of base, folded st_def, OF Cons.prems(1) sha calm id]
    note rest = Cons.IH [OF v(2) new_ids_step [OF Cons.prems(2) resolve_adds]]
    have w: "others_ok u (w_db w)" "store_ok (w_db w)" using Cons.prems(1) by (simp_all add: under_way_def visiting_def)
    have w1: "others_ok u (w_db ?w)" "store_ok (w_db ?w)" using v(2) [of now] by (simp_all add: under_way_def visiting_def)
    have first: "recoverable st u h c w' \<and> others_ok u (w_db w') \<and> store_ok (w_db w')"
      if "w' \<in> set (resolve_trace st (final n) now v w)" for w'
      using resolve_one_write [OF that] v(1) [OF that] w w1 by auto
    have "finished st u h c ?w \<or> up_id u \<in> up_id ` set us"
      if "finished st u h c w \<or> up_id u \<in> up_id ` set (v # us)"
    proof (cases "up_id v = up_id u")
      case False
      have "finished st u h c ?w" if "finished st u h c w"
      proof -
        have "\<not> commit_ready u (w_db ?w)"
        proof
          assume "commit_ready u (w_db ?w)"
          then have "find_upload (w_db ?w) (up_id u) = Some u" "up_state u = StateFinalizing" by (simp_all add: commit_ready_def)
          moreover have "touches (up_id v) (w_db w) (w_db ?w)"
            using Cons.prems(1) by (intro touches_resolve) (auto simp: under_way_def visiting_def store_okD)
          ultimately have "find_upload (w_db w) (up_id u) = Some u" using False by (auto simp: touches_def)
          with that \<open>up_state u = StateFinalizing\<close> show False by (auto simp: finished_def)
        qed
        with v(2) [of now] show ?thesis by (auto simp: under_way_def recoverable_def)
      qed
      with that False show ?thesis by auto
    qed (use v(3) in blast)
    with rest first show ?case by (auto simp: resolve_trace_ends)
  qed (simp add: under_way_def)
  then show "\<And>w'. w' \<in> set (trace_all (\<lambda>k. resolve_trace st (final k) now) n us w) \<Longrightarrow>
      recoverable st u h c w' \<and> others_ok u (w_db w') \<and> store_ok (w_db w')"
    and "finished st u h c w \<or> up_id u \<in> up_id ` set us \<Longrightarrow>
      finished st u h c (visit_all (\<lambda>k. resolve_one st (final k) now) n us w)" by blast+
qed

section \<open>Reconciliation\<close>

text \<open>A reconciliation on a working system, crashed somewhere.\<close>

inductive crashed_reconcile :: "storage \<Rightarrow> world \<Rightarrow> world \<Rightarrow> bool" for st where
  "w' \<in> set (reconcile_trace st ora stale final w) \<Longrightarrow> quiet ora \<Longrightarrow> (\<And>k. quiet (final k)) \<Longrightarrow> new_ids final 0 (w_db w) \<Longrightarrow>
   crashed_reconcile st w w'"

lemma reconcile_under_way:
  fixes base defines "st \<equiv> storage_at base"
  assumes rec: "recoverable st u h c w" "others_ok u (w_db w)" "store_ok (w_db w)" and sha: "up_sha u = Some h"
    and calm: "quiet ora" "\<And>k. quiet (final k)" and ids: "new_ids final 0 (w_db w)"
  shows "\<And>w'. w' \<in> set (reconcile_trace st ora stale final w) \<Longrightarrow>
      recoverable st u h c w' \<and> others_ok u (w_db w') \<and> store_ok (w_db w')"
    and "finished st u h c (snd (reconcile st ora stale final w))"
proof -
  define now where "now = secs (clock ora 0)"
  define t1 where "t1 = trace_all (\<lambda>k. expire_trace st (stale k) now) 0 (stale_uploads now (w_db w)) w"
  define w1 where "w1 = visit_all (\<lambda>k. expire_one st (stale k) now) 0 (stale_uploads now (w_db w)) w"
  have way: "under_way st u h c {StateCreated, StateReceiving} (stale_uploads now (w_db w)) w"
    using rec visiting_stale [OF rec(3)] by (simp add: under_way_def)
  note loop1 = expire_loop_under_way [of base, folded st_def, OF way, where now = now and stale = stale and n = 0]
  have w1: "recoverable st u h c w1" "others_ok u (w_db w1)" "store_ok (w_db w1)" "nodes (w_db w1) = nodes (w_db w)"
    using loop1(2) by (simp_all add: w1_def)
  have "new_ids final 0 (w_db w1)" using ids by (simp add: new_ids_def w1(4))
  moreover have way1: "under_way st u h c {StateFinalizing} (finalizing_uploads (w_db w1)) w1"
    using w1 visiting_finalizing [OF w1(3)] by (simp add: under_way_def)
  ultimately have loop2: "\<And>w'. w' \<in> set (trace_all (\<lambda>k. resolve_trace st (final k) now) 0 (finalizing_uploads (w_db w1)) w1) \<Longrightarrow>
      recoverable st u h c w' \<and> others_ok u (w_db w') \<and> store_ok (w_db w')"
    "finished st u h c w1 \<or> up_id u \<in> up_id ` set (finalizing_uploads (w_db w1)) \<Longrightarrow>
      finished st u h c (visit_all (\<lambda>k. resolve_one st (final k) now) 0 (finalizing_uploads (w_db w1)) w1)"
    using resolve_loop_under_way [of base, folded st_def, where final = final, OF way1 sha calm(2)] by blast+
  have trace: "reconcile_trace st ora stale final w =
      t1 @ trace_all (\<lambda>k. resolve_trace st (final k) now) 0 (finalizing_uploads (w_db w1)) w1"
    using calm(1) by (simp add: reconcile_trace_def Let_def t1_def now_def w1_def expiry.loop_ends)
  have stale: "others_ok u (w_db w') \<and> store_ok (w_db w')" if "w' \<in> set t1" for w'
  proof -
    from expiry.crashed_loop [OF that [unfolded t1_def]] obtain j where
      w': "w_db w' = w_db (visit_all (\<lambda>k. expire_one st (stale k) now) 0 (take j (stale_uploads now (w_db w))) w)" by blast
    have "under_way st u h c {StateCreated, StateReceiving} (take j (stale_uploads now (w_db w))) w"
      using way visiting_take by (auto simp: under_way_def)
    from expire_loop_under_way(2) [of base, folded st_def, OF this] w' show ?thesis by simp
  qed
  show "recoverable st u h c w' \<and> others_ok u (w_db w') \<and> store_ok (w_db w')"
    if "w' \<in> set (reconcile_trace st ora stale final w)" for w'
    using that loop1(1) loop2(1) stale unfolding trace by (auto simp: t1_def)
  have "finished st u h c w1 \<or> up_id u \<in> up_id ` set (finalizing_uploads (w_db w1))"
  proof (cases "finished st u h c w1")
    case False
    with w1(1) have "commit_ready u (w_db w1)" by (simp add: recoverable_def)
    then have "u \<in> set (finalizing_uploads (w_db w1))"
      using find_upload_iff [OF store_okD(2) [OF w1(3)], of "up_id u" u]
      by (simp add: commit_ready_def finalizing_uploads_rows(2) [OF store_okD(2) [OF w1(3)]])
    then show ?thesis by blast
  qed simp
  from loop2(2) [OF this] show "finished st u h c (snd (reconcile st ora stale final w))"
    using calm(1) by (simp add: reconcile_def Let_def now_def w1_def)
qed

lemma crashed_reconciles:
  fixes base defines "st \<equiv> storage_at base"
  assumes "(crashed_reconcile st)\<^sup>*\<^sup>* w w'" and "recoverable st u h c w" "others_ok u (w_db w)" "store_ok (w_db w)" "up_sha u = Some h"
  shows "recoverable st u h c w' \<and> others_ok u (w_db w') \<and> store_ok (w_db w')"
  using assms(2)
proof (induction rule: rtranclp_induct)
  case (step v v')
  from step(2) obtain ora stale final where "v' \<in> set (reconcile_trace st ora stale final v)" "quiet ora" "\<And>k. quiet (final k)"
    "new_ids final 0 (w_db v)" by (auto elim: crashed_reconcile.cases)
  with reconcile_under_way(1) [of base, folded st_def] step.IH assms(6) show ?case by blast
qed (use assms in simp)

end
