(* ===== verification/Crash_Props.thy ===== *)
theory Crash_Props
  imports Crash_Recovery
begin

text \<open>
  The crash properties of uploads: what a crash during the last chunk becomes, what a crash during
  a chunk or a creation leaves behind, and the invariants of the store across crashes.
\<close>

section \<open>The last chunk\<close>

lemma movable_append: "movable st u (os_append p bs fs) = movable st u fs"
proof -
  have "fs_files (os_append p bs fs) q = None \<longleftrightarrow> fs_files fs q = None" "fs_dirs (os_append p bs fs) = fs_dirs fs" for q
    by (simp_all add: os_append_def)
  then show ?thesis by (simp only: movable_iff)
qed

text \<open>Where the process can stop while it handles the chunk that completes an upload.\<close>

lemma last_chunk_worlds:
  fixes base defines "st \<equiv> storage_at base"
  assumes calm: "quiet ora" and ok: "store_ok (w_db w)"
    and u: "find_upload (w_db w) i = Some u" "up_state u \<in> {StateCreated, StateReceiving}" "clock ora 0 \<le> up_expires u * 1000000000"
    and body: "st_error b = None" "up_received u + int (length (st_bytes b)) = up_expected u"
    and c: "staged st (w_fs w) (up_staging u) = Some c" "stored st (w_fs w) (up_final u) = None" "movable st u (w_fs w)"
    and fresh: "uuid ora 0 \<noteq> []" "uuid ora 0 \<notin> nr_id ` set (nodes (w_db w))"
      "\<not> sibling_conflict (w_db w) (up_parent u) (up_name_key u)" "up_final u \<notin> fr_key ` set (file_objects (w_db w))"
    and crash: "w1 \<in> set (chunk_trace sha detect st ora i (up_received u) b w)"
  defines "h \<equiv> hex_encode (sha (c @ st_bytes b))"
  defines "x \<equiv> mark_finalizing h (secs (clock ora 2)) (verified_row ora u)"
  shows "(w_db w1 = w_db w \<and> (\<exists>bs. prefix bs (st_bytes b) \<and> staged st (w_fs w1) (up_staging u) = Some (c @ bs))) \<or>
    find_upload (w_db w1) i = Some (verified_row ora u) \<and> staged st (w_fs w1) (up_staging u) = Some (c @ st_bytes b) \<or>
    recoverable st x h (c @ st_bytes b) w1"
proof -
  obtain p where p: "staging_path st (up_staging u) = Inr p" "fs_files (w_fs w) p = Some c"
    using c(1) by (auto simp: staged_Some)
  have app: "staged st (os_append p bs (w_fs w)) (up_staging u) = Some (c @ bs)"
    "stored st (os_append p bs (w_fs w)) (up_final u) = None" for bs
    using p c(2) contents(1,4) [of base "up_staging u" p "w_fs w"]
    unfolding st_def [symmetric] by (simp_all add: os_append_Some)
  note row = found_row_ok [OF ok u(1)]
  have id: "up_id u = i" using u(1) ok by (simp add: find_upload_iff store_okD)
  have exp: "wrap64 (up_expected u) = up_expected u"
    using row by (intro wrap64_id) (simp add: row_ok_def in_int64_def)
  let ?f = "mark_received (up_expected u) StateVerifying (secs (clock ora 1))"
  let ?u1 = "u\<lparr>up_received := up_expected u, up_state := StateVerifying\<rparr>"
  define db1 where "db1 = (w_db w)\<lparr>uploads := update_where (\<lambda>v. up_id v = i) ?f (uploads (w_db w))\<rparr>"
  define w2 where "w2 = w\<lparr>w_fs := os_append p (st_bytes b) (w_fs w), w_db := db1\<rparr>"
  have a: "update_upload None i ?f (w_db w) = Inr db1"
    unfolding db1_def using row store_okD(2) [OF ok]
    by (intro update_upload_calm) (auto simp: mark_received_def uploads_ok_def row_ok_def)
  have tables: "nodes db1 = nodes (w_db w)" "file_objects db1 = file_objects (w_db w)" by (simp_all add: db1_def)
  have v: "find_upload db1 i = Some (verified_row ora u)"
    using find_after_update [OF a] u(1) by (simp add: verified_row_def mark_received_def)
  have "store_ok db1"
  proof (rule store_ok_advance [OF ok update_upload_advances [OF a store_okD(2) [OF ok] u(1)]])
    show "row_step\<^sup>*\<^sup>* u (?f u)" using row_step.verify [of u] u(2) row by (simp add: row_ok_def r_into_rtranclp)
    show "files_ok db1" using store_okD(1) [OF ok] by (simp add: files_ok_def tables)
  qed (simp add: tables)
  have trace: "chunk_trace sha detect st ora i (up_received u) b w =
      map (\<lambda>bs. w\<lparr>w_fs := os_append p bs (w_fs w)\<rparr>) (prefixes (st_bytes b)) @ w2 # finalize_trace sha detect st ora ?u1 w2"
    using calm u p a body exp
    by (simp add: chunk_trace_def get_upload_def open_staging_for_append_def os_open_def Let_def not_less w2_def)
  from crash [unfolded trace] consider (part) bs where "prefix bs (st_bytes b)" "w1 = w\<lparr>w_fs := os_append p bs (w_fs w)\<rparr>"
    | (counted) "w1 = w2" | (final) "w1 \<in> set (finalize_trace sha detect st ora ?u1 w2)" by auto
  then show ?thesis
  proof cases
    case part
    with app show ?thesis by auto
  next
    case counted
    with v app show ?thesis by (simp add: w2_def)
  next
    case final
    have "movable st ?u1 (w_fs w2)" using c(3) movable_append [of st u] by (simp add: w2_def movable_def)
    with final calm app fresh \<open>store_ok db1\<close> v id
    have "commit_ready x (w_db w1) \<and> content_at st x (c @ st_bytes b) (w_fs w1) \<or> finished st x h (c @ st_bytes b) w1"
      unfolding x_def h_def st_def
      by (intro finalize_crash_worlds [of ora base w2 ?u1 "c @ st_bytes b"])
        (simp_all add: w2_def verified_row_def mark_received_def tables sibling_conflict_def)
    then show ?thesis by (simp add: recoverable_def)
  qed
qed

text \<open>In every world of a chunk the staging file has only grown by a part of the chunk, until it is moved.\<close>

lemma move_staged:
  assumes "move_staging_to_object (storage_at base) f1 f2 k obj fs = (r, fs')"
  shows "staged (storage_at base) fs' k \<in> {staged (storage_at base) fs k, None}"
proof (cases r)
  case (Inl e)
  from move_staging_failed [OF assms [unfolded Inl]] have "staged (storage_at base) fs' = staged (storage_at base) fs" by (rule staged_files)
  then show ?thesis by simp
next
  case (Inr x)
  from move_staging_contents [OF assms [unfolded Inr]] show ?thesis by auto
qed

lemma finalize_trace_staged:
  assumes "w' \<in> set (finalize_trace sha detect (storage_at base) ora u w)"
  shows "staged (storage_at base) (w_fs w') (up_staging u) \<in> {staged (storage_at base) (w_fs w) (up_staging u), None}"
proof -
  from finalize_crash_fault [OF assms] obtain ora' res where fin: "finalize_upload sha detect (storage_at base) ora' u w = (res, w')"
    by (metis prod.collapse)
  then show ?thesis
  proof (cases rule: finalize_cases)
    case (late e p content db1 fs1)
    show ?thesis
      using move_staged [OF surjective_pairing, of base "fs_fails ora' 5" "fs_fails ora' 6" "up_staging u" "up_final u" "w_fs w"]
      by (simp only: late world.simps)
  next
    case (complete p content db1 fs1 db2)
    from move_staged [OF complete(5)] show ?thesis by (simp only: complete(7) world.simps)
  qed simp
qed

lemma chunk_trace_cases:
  assumes "w' \<in> set (chunk_trace sha detect st ora i offset b w)" and "find_upload (w_db w) i = Some u"
  obtains p where "open_staging_for_append st (fs_fails ora 0) (up_staging u) (w_fs w) = Inr p"
    "(\<exists>bs. prefix bs (st_bytes b) \<and> w_fs w' = os_append p bs (w_fs w)) \<or>
     (\<exists>u1 w2. up_staging u1 = up_staging u \<and> w_fs w2 = os_append p (st_bytes b) (w_fs w) \<and> w' \<in> set (finalize_trace sha detect st ora u1 w2))"
proof -
  have u: "get_upload (db_fails ora 0) (w_db w) i = Inr u"
    using assms by (cases "db_fails ora 0") (simp_all add: chunk_trace_def get_upload_def)
  have guard: "\<not> (up_state u \<noteq> StateCreated \<and> up_state u \<noteq> StateReceiving)" "\<not> up_expires u * 1000000000 < clock ora 0" "offset = up_received u"
    using assms(1) u by (simp_all add: chunk_trace_def split: if_splits)
  obtain p where p: "open_staging_for_append st (fs_fails ora 0) (up_staging u) (w_fs w) = Inr p"
    using assms(1) u guard by (cases "open_staging_for_append st (fs_fails ora 0) (up_staging u) (w_fs w)") (auto simp: chunk_trace_def)
  let ?w1 = "w\<lparr>w_fs := os_append p (st_bytes b) (w_fs w)\<rparr>"
  define n where "n = wrap64 (up_received u + int (length (st_bytes b)))"
  define s where "s = (if n = up_expected u then StateVerifying else StateReceiving)"
  define r where "r = update_upload (db_fails ora 1) i (mark_received n s (secs (clock ora 1))) (w_db w)"
  have trace: "chunk_trace sha detect st ora i offset b w =
      map (\<lambda>bs. w\<lparr>w_fs := os_append p bs (w_fs w)\<rparr>) (prefixes (st_bytes b)) @
      (if st_error b \<noteq> None \<or> up_expected u < n then []
       else case r of Inl _ \<Rightarrow> [] | Inr db1 \<Rightarrow> ?w1\<lparr>w_db := db1\<rparr> # (if s = StateVerifying
         then finalize_trace sha detect st ora (u\<lparr>up_received := n, up_state := s\<rparr>) (?w1\<lparr>w_db := db1\<rparr>) else []))"
    unfolding n_def s_def r_def using u guard p by (simp add: chunk_trace_def Let_def split: sum.split)
  have "w' \<in> set (map (\<lambda>bs. w\<lparr>w_fs := os_append p bs (w_fs w)\<rparr>) (prefixes (st_bytes b))) \<or>
      (\<exists>db1. w' = ?w1\<lparr>w_db := db1\<rparr> \<or> w' \<in> set (finalize_trace sha detect st ora (u\<lparr>up_received := n, up_state := s\<rparr>) (?w1\<lparr>w_db := db1\<rparr>)))"
    using assms(1) unfolding trace by (cases r) (auto split: if_splits)
  then have "(\<exists>bs. prefix bs (st_bytes b) \<and> w_fs w' = os_append p bs (w_fs w)) \<or>
     (\<exists>u1 w2. up_staging u1 = up_staging u \<and> w_fs w2 = os_append p (st_bytes b) (w_fs w) \<and> w' \<in> set (finalize_trace sha detect st ora u1 w2))"
  proof (elim disjE exE)
    fix db1 assume "w' \<in> set (finalize_trace sha detect st ora (u\<lparr>up_received := n, up_state := s\<rparr>) (?w1\<lparr>w_db := db1\<rparr>))"
    then show ?thesis
      by (intro disjI2 exI [of _ "u\<lparr>up_received := n, up_state := s\<rparr>"] exI [of _ "?w1\<lparr>w_db := db1\<rparr>"]) simp
  qed auto
  with p that show ?thesis by blast
qed

lemma chunk_crash_staged:
  assumes "w' \<in> set (chunk_trace sha detect (storage_at base) ora i offset b w)"
    and "find_upload (w_db w) i = Some u" "staged (storage_at base) (w_fs w) (up_staging u) = Some c"
  shows "\<exists>bs. prefix bs (st_bytes b) \<and> staged (storage_at base) (w_fs w') (up_staging u) \<in> {Some (c @ bs), None}"
proof -
  let ?st = "storage_at base"
  from chunk_trace_cases [OF assms(1,2)] obtain p where
    p: "open_staging_for_append ?st (fs_fails ora 0) (up_staging u) (w_fs w) = Inr p" and
    w': "(\<exists>bs. prefix bs (st_bytes b) \<and> w_fs w' = os_append p bs (w_fs w)) \<or>
     (\<exists>u1 w2. up_staging u1 = up_staging u \<and> w_fs w2 = os_append p (st_bytes b) (w_fs w) \<and> w' \<in> set (finalize_trace sha detect ?st ora u1 w2))"
    by blast
  have app: "staged ?st (os_append p bs (w_fs w)) (up_staging u) = Some (c @ bs)" for bs
    using append_contents [OF p] assms(3) by (metis fun_upd_same option.inject)
  from w' show ?thesis
  proof (elim disjE exE conjE)
    fix u1 w2 assume "up_staging u1 = up_staging u" "w_fs w2 = os_append p (st_bytes b) (w_fs w)" "w' \<in> set (finalize_trace sha detect ?st ora u1 w2)"
    with finalize_trace_staged [OF this(3)] app show ?thesis by (intro exI [of _ "st_bytes b"]) simp
  qed (use app in auto)
qed

section \<open>The properties\<close>

interpretation crashing_store: invariant_system
  "\<lambda>w. \<exists>t. w_db w = init_db t"
  "\<lambda>w w'. store_step P env cfg st sha detect w w' \<or> crash_step P env cfg st sha detect w w'" "\<lambda>w. store_ok (w_db w)"
  for P env cfg st sha detect
  by unfold_locales (auto simp: init_store_ok store_step_ok crash_step_ok)

interpretation crashing_quota: invariant_system
  "\<lambda>w. \<exists>t. w_db w = init_db t"
  "\<lambda>w w'. store_step quiet env cfg st sha detect w w' \<or> crash_step quiet env cfg st sha detect w w'" "quota_ok cfg"
  for env cfg st sha detect
  by unfold_locales (auto intro: init_quota_ok quota_step crash_step_quota)

text \<open>
  C3: The process may stop at any point while it handles the chunk that completes an upload, and
  again at any point of any number of reconciliations after it: once the commit had begun (the upload
  is finalizing or complete), a reconciliation that runs to its end leaves the upload complete with no
  reservation, its content (what was staged, then the chunk) as the object of its key, nothing
  staged, and exactly one file object of that key, with the upload's size and the SHA-256 of that
  content, under a node of the upload's name in its folder.
\<close>

theorem crashed_completion_recovers:
  assumes calm: "quiet ora" and ok: "store_ok (w_db w)" and others: "others_ok u (w_db w)"
    and u: "find_upload (w_db w) i = Some u" "up_state u \<in> {StateCreated, StateReceiving}" "clock ora 0 \<le> up_expires u * 1000000000"
    and body: "st_error b = None" "up_received u + int (length (st_bytes b)) = up_expected u"
    and c: "staged (storage_at base) (w_fs w) (up_staging u) = Some c" "stored (storage_at base) (w_fs w) (up_final u) = None"
      "movable (storage_at base) u (w_fs w)"
    and fresh: "uuid ora 0 \<noteq> []" "uuid ora 0 \<notin> nr_id ` set (nodes (w_db w))"
      "\<not> sibling_conflict (w_db w) (up_parent u) (up_name_key u)" "up_final u \<notin> fr_key ` set (file_objects (w_db w))"
    and crash: "w1 \<in> set (chunk_trace sha detect (storage_at base) ora i (up_received u) b w)"
      "find_upload (w_db w1) i = Some v" "up_state v \<in> {StateFinalizing, StateComplete}"
    and again: "(crashed_reconcile (storage_at base))\<^sup>*\<^sup>* w1 w2"
    and last: "reconcile (storage_at base) ora' stale final w2 = (res, w3)" "quiet ora'" "\<And>k. quiet (final k)"
      "new_ids final 0 (w_db w2)"
  shows "stored (storage_at base) (w_fs w3) (up_final u) = Some (c @ st_bytes b) \<and>
    staged (storage_at base) (w_fs w3) (up_staging u) = None \<and>
    (\<exists>v f r. find_upload (w_db w3) i = Some v \<and> up_state v = StateComplete \<and> up_reserved v = 0 \<and>
       filter (\<lambda>f. fr_key f = up_final u) (file_objects (w_db w3)) = [f] \<and>
       fr_size f = up_expected u \<and> fr_sha f = Some (hex_encode (sha (c @ st_bytes b))) \<and>
       r \<in> set (nodes (w_db w3)) \<and> nr_id r = fr_node f \<and> nr_kind r = KindFile \<and>
       nr_parent r = Some (up_parent u) \<and> nr_name r = up_name u)"
proof -
  define h where "h = hex_encode (sha (c @ st_bytes b))"
  define x where "x = mark_finalizing h (secs (clock ora 2)) (verified_row ora u)"
  have id: "up_id u = i" using u(1) ok by (simp add: find_upload_iff store_okD)
  have keys: "up_id x = i" "up_staging x = up_staging u" "up_final x = up_final u" "up_parent x = up_parent u"
    "up_name x = up_name u" "up_name_key x = up_name_key u" "up_expected x = up_expected u" "up_sha x = Some h"
    by (simp_all add: x_def mark_finalizing_def verified_row_def mark_received_def id)
  have "up_state u \<notin> {StateFinalizing, StateComplete}" "up_state (verified_row ora u) = StateVerifying"
    using u(2) by (auto simp: verified_row_def mark_received_def)
  with last_chunk_worlds [OF calm ok u body c fresh crash(1), folded h_def, folded x_def] u(1) crash(2,3) have
    "recoverable (storage_at base) x h (c @ st_bytes b) w1" by auto
  moreover have "store_ok (w_db w1) \<and> others_ok x (w_db w1)"
  proof -
    obtain ora1 b1 where b1: "uuid ora1 = uuid ora" "length (st_bytes b1) \<le> length (st_bytes b)"
      "snd (write_chunk sha detect (storage_at base) ora1 i (up_received u) b1 w) = w1"
      using chunk_crash_fault [OF crash(1)] by blast
    have len: "int (length (st_bytes b1)) < 2 ^ 63"
      using b1(2) body(2) found_row_ok [OF ok u(1)] by (simp add: row_ok_def)
    have run: "write_chunk sha detect (storage_at base) ora1 i (up_received u) b1 w =
        (fst (write_chunk sha detect (storage_at base) ora1 i (up_received u) b1 w), w1)"
      using b1(3) by (simp add: prod_eq_iff)
    have "store_ok (w_db w1)" using write_chunk_ok [OF run ok _ len] b1(1) fresh(1) by simp
    moreover have "others_ok u (w_db w1)"
      by (rule others_ok_advances [OF others write_chunk_advances [OF run store_okD(2) [OF ok] len]])
    ultimately show ?thesis by (simp add: others_ok_def keys id)
  qed
  ultimately have w2: "recoverable (storage_at base) x h (c @ st_bytes b) w2 \<and> others_ok x (w_db w2) \<and> store_ok (w_db w2)"
    using crashed_reconciles [OF again, of x h] keys(8) by blast
  have "finished (storage_at base) x h (c @ st_bytes b) (snd (reconcile (storage_at base) ora' stale final w2))"
    by (rule reconcile_under_way(2) [OF _ _ _ keys(8) last(2-4)]) (use w2 in blast)+
  then show ?thesis using last(1) by (simp add: finished_def keys h_def)
qed

text \<open>
  C38: A crash in the middle of a chunk (or a chunk refused after its bytes were written) leaves part of
  its bytes in the staging file, while the received count stays: when the client then resumes at
  that count, the upload completes with an object that contains the partial chunk and the resumed
  one, and is longer than the size recorded for it.
\<close>

theorem interrupted_chunk_corrupts:
  assumes crash: "w1 \<in> set (chunk_trace sha detect (storage_at base) ora1 i off1 b1 w)" "w_db w1 = w_db w"
    and second: "write_chunk sha detect (storage_at base) ora2 i off2 b2 w1 = (Inr v, w2)" "up_state v = StateComplete"
    and ok: "uploads_ok (w_db w)" and len: "int (length (st_bytes b2)) < 2 ^ 63"
    and u: "find_upload (w_db w) i = Some u" "staged (storage_at base) (w_fs w) (up_staging u) = Some c" "int (length c) = up_received u"
  shows "\<exists>bs f. staged (storage_at base) (w_fs w1) (up_staging u) = Some (c @ bs) \<and> off2 = up_received u \<and>
    stored (storage_at base) (w_fs w2) (up_final u) = Some (c @ bs @ st_bytes b2) \<and>
    f \<in> set (file_objects (w_db w2)) \<and> fr_key f = up_final u \<and>
    fr_size f + int (length bs) = int (length (c @ bs @ st_bytes b2))"
proof -
  from completion_effect [OF second] ok crash(2) len obtain u' c' mime now j where
    *: "find_upload (w_db w) i = Some u'" "off2 = up_received u'" "staged (storage_at base) (w_fs w1) (up_staging u') = Some c'"
      "stored (storage_at base) (w_fs w2) (up_final u') = Some (c' @ st_bytes b2)"
      "upload_file j u' mime (hex_encode (sha (c' @ st_bytes b2))) now \<in> set (file_objects (w_db w2))"
      "up_received u' + int (length (st_bytes b2)) = up_expected u'" by auto
  with u(1) have u': "u' = u" by simp
  have "prefix c c'"
    using chunk_crash_staged [OF crash(1) u(1,2)] *(3) by (auto simp: u')
  then obtain bs where "c' = c @ bs" by (rule prefixE)
  with * u u' show ?thesis
    by (intro exI [of _ bs] exI [of _ "upload_file j u mime (hex_encode (sha (c' @ st_bytes b2))) now"]) (simp add: upload_file_def)
qed

text \<open>
  C4: In every state that node operations, uploads and reconciliation can reach from the migrated
  database, whatever fails on the way and wherever the process crashes inside an upload operation,
  the nodes form a well-formed tree, every file object belongs to a node and no two share a storage key,
  upload ids are distinct, the received bytes of an upload never exceed its size, an upload holds a
  reservation of exactly its size while it runs and none once it has ended, and its target
  folder still exists.
\<close>

theorem store_survives_crashes:
  assumes "(\<lambda>w w'. store_step P env cfg st sha detect w w' \<or> crash_step P env cfg st sha detect w w')\<^sup>*\<^sup>* w0 w"
    and "w_db w0 = init_db t"
  shows "tree_ok (nodes (w_db w)) \<and> distinct (map fr_key (file_objects (w_db w))) \<and>
    (\<forall>f \<in> set (file_objects (w_db w)). fr_node f \<in> nr_id ` set (nodes (w_db w))) \<and>
    distinct (map up_id (uploads (w_db w))) \<and>
    (\<forall>u \<in> set (uploads (w_db w)). 0 \<le> up_received u \<and> up_received u \<le> up_expected u \<and>
       up_reserved u = (if up_state u \<in> active_states then up_expected u else 0) \<and>
       (\<exists>q \<in> set (nodes (w_db w)). nr_id q = up_parent u \<and> nr_kind q = KindFolder))"
proof -
  have "store_ok (w_db w)"
    by (rule crashing_store.reachable_inv [OF _ assms(1)]) (use assms(2) in blast)
  then show ?thesis
    by (simp add: store_ok_def files_ok_def uploads_ok_def row_ok_def upload_folders_ok_def)
qed

text \<open>
  C5: With a database and a file system that answer, stored bytes plus reserved bytes never exceed
  the configured maximum, in any state reachable from the migrated database, also when the process
  crashes inside upload operations, as long as the limits are not so large that the int64 sum can
  overflow.
\<close>

theorem quota_survives_crashes:
  assumes "(\<lambda>w w'. store_step quiet env cfg st sha detect w w' \<or> crash_step quiet env cfg st sha detect w w')\<^sup>*\<^sup>* w0 w"
    and "w_db w0 = init_db t"
    and "0 \<le> MaxStorageBytes cfg" and "MaxStorageBytes cfg + MaxFileBytes cfg < 2 ^ 63"
  shows "stored_bytes (w_db w) + reserved_bytes (w_db w) \<le> MaxStorageBytes cfg"
proof -
  have "quota_ok cfg w"
    by (rule crashing_quota.reachable_inv [OF _ assms(1)]) (use assms(2) in blast)
  with assms(3,4) show ?thesis by (simp add: quota_ok_def limits_ok_def used_bytes_def)
qed

text \<open>Visits leave the staging files of other keys alone.\<close>

lemma elsewhere_other_key:
  assumes "elsewhere (storage_at base) v fs fs'" and "k \<noteq> up_staging v"
  shows "staged (storage_at base) fs' k = staged (storage_at base) fs k"
proof (cases "staging_path (storage_at base) k")
  case (Inr p)
  have "object_path (storage_at base) (up_final v) \<noteq> Inr p" "staging_path (storage_at base) (up_staging v) \<noteq> Inr p"
    using Inr assms(2) staging_object_differ staging_path_inj by blast+
  with assms(1) Inr show ?thesis by (auto simp: staged_def elsewhere_def)
qed (simp add: staged_def)

lemma visits_other_key:
  assumes "\<And>j v w. elsewhere (storage_at base) v (w_fs w) (w_fs (f j v w))" and "k \<notin> up_staging ` set us"
  shows "staged (storage_at base) (w_fs (visit_all f n us w)) k = staged (storage_at base) (w_fs w) k"
  using assms(2) by (induction us arbitrary: n w) (auto simp: elsewhere_other_key [OF assms(1)])


section \<open>A small crash\<close>

text \<open>The small upload, stopped right after phase A.\<close>

definition demo_crashed :: world where
  "demo_crashed = \<lparr>w_db = (init_db 0)\<lparr>uploads := [mark_finalizing (hex_encode ''ab'') 5 (mark_received 3 StateVerifying 5 demo_up)]\<rparr>,
     w_fs = os_append ''/d/staging/uploads/aabb'' ''abc'' (w_fs demo_w1)\<rparr>"

lemma demo_crash: "demo_crashed \<in> set (chunk_trace toy_sha toy_detect demo_st demo_ora ''u'' 0 (body ''abc'') demo_w1)"
proof -
  let ?p = "''/d/staging/uploads/aabb''"
  have "wrap64 3 = 3" by (simp add: wrap64_id in_int64_def)
  moreover have u: "up_staging demo_up = ''aabb''" "up_final demo_up = ''ccdd''" "up_state demo_up = StateCreated" "up_expires demo_up = 3605"
    "up_received demo_up = 0" "up_expected demo_up = 3" "up_id demo_up = ''u''" by (simp_all add: demo_up_def)
  moreover have "update_upload None ''u'' (mark_received 3 StateVerifying 5) (w_db demo_w1) =
      Inr ((init_db 0)\<lparr>uploads := [mark_received 3 StateVerifying 5 demo_up]\<rparr>)"
    by (simp add: update_upload_def demo_w1_def u mark_received_def) (simp add: demo_up_def)
  moreover have "update_upload None ''u'' (mark_finalizing (hex_encode ''ab'') 5) ((init_db 0)\<lparr>uploads := [mark_received 3 StateVerifying 5 demo_up]\<rparr>) =
      Inr (w_db demo_crashed)"
    by (simp add: update_upload_def demo_crashed_def mark_defs demo_up_def)
  moreover have "fs_files (w_fs demo_w1) ?p = Some []" "staging_path demo_st ''aabb'' = Inr ?p"
    by (simp_all add: demo_w1_def demo_paths)
  moreover have "demo_crashed = \<lparr>w_db = w_db demo_crashed, w_fs = os_append ?p ''abc'' (w_fs demo_w1)\<rparr>" by (simp add: demo_crashed_def)
  ultimately show ?thesis
    by (simp add: chunk_trace_def get_upload_def demo_w1_facts body_def Let_def secs_def finalize_trace_def os_open_def os_append_def toy_sha_def)
qed

definition demo_visits :: "nat \<Rightarrow> outside" where
  "demo_visits k = demo_ora\<lparr>uuid := (\<lambda>_. replicate (Suc k) CHR ''z'')\<rparr>"

theorem crashed_completion_recovers_witness:
  "\<exists>res w3. reconcile demo_st demo_ora demo_visits demo_visits demo_crashed = (res, w3) \<and>
     stored demo_st (w_fs w3) ''ccdd'' = Some ''abc'' \<and>
     (\<exists>v. find_upload (w_db w3) ''u'' = Some v \<and> up_state v = StateComplete)"
proof -
  obtain res w3 where step: "reconcile demo_st demo_ora demo_visits demo_visits demo_crashed = (res, w3)" by fastforce
  have quiet: "quiet (demo_visits k)" for k by (simp add: demo_visits_def quiet_def)
  have ids: "new_ids demo_visits 0 (w_db demo_crashed)"
    by (auto simp: new_ids_def demo_visits_def demo_crashed_def init_db_def system_row_def root_id_def trash_root_id_def inj_def
        Cons_replicate_eq replicate_eq_replicate)
  have "up_received demo_up = 0" by (simp add: demo_up_def)
  then have crash: "demo_crashed \<in> set (chunk_trace toy_sha toy_detect demo_st demo_ora ''u'' (up_received demo_up) (body ''abc'') demo_w1)"
    using demo_crash by (simp only:)
  have found: "find_upload (w_db demo_crashed) ''u'' = Some (mark_finalizing (hex_encode ''ab'') 5 (mark_received 3 StateVerifying 5 demo_up))"
    "up_state (mark_finalizing (hex_encode ''ab'') 5 (mark_received 3 StateVerifying 5 demo_up)) \<in> {StateFinalizing, StateComplete}"
    by (simp_all add: demo_crashed_def find_upload_def mark_defs demo_up_def)
  have "movable demo_st demo_up (w_fs demo_w1)"
    by (simp add: movable_def move_staging_to_object_def demo_paths demo_dirs os_mkdir_all_def os_rename_def os_open_def
        demo_w1_def demo_up_def demo_fs_def)
  then have "stored demo_st (w_fs w3) (up_final demo_up) = Some ([] @ st_bytes (body ''abc'')) \<and>
    staged demo_st (w_fs w3) (up_staging demo_up) = None \<and>
    (\<exists>v f r. find_upload (w_db w3) ''u'' = Some v \<and> up_state v = StateComplete \<and> up_reserved v = 0 \<and>
       filter (\<lambda>f. fr_key f = up_final demo_up) (file_objects (w_db w3)) = [f] \<and>
       fr_size f = up_expected demo_up \<and> fr_sha f = Some (hex_encode (toy_sha ([] @ st_bytes (body ''abc'')))) \<and>
       r \<in> set (nodes (w_db w3)) \<and> nr_id r = fr_node f \<and> nr_kind r = KindFile \<and>
       nr_parent r = Some (up_parent demo_up) \<and> nr_name r = up_name demo_up)"
    using demo_files demo_w1_facts quiet ids
    by (intro crashed_completion_recovers [OF _ _ _ _ _ _ _ _ _ _ _ _ _ _ _ crash found rtranclp.rtrancl_refl step])
      (simp_all add: body_def, simp_all add: demo_up_def demo_w1_def init_db_def system_row_def root_id_def
        trash_root_id_def sibling_conflict_def others_ok_def stored_def demo_paths demo_crashed_def mark_defs find_upload_def)
  with step show ?thesis by (auto simp: body_def demo_up_def)
qed


theorem interrupted_chunk_corrupts_witness:
  "\<exists>v w2. write_chunk toy_sha toy_detect demo_st demo_ora ''u'' 0 (body ''abc'')
       (demo_w1\<lparr>w_fs := os_append ''/d/staging/uploads/aabb'' ''xxxx'' (w_fs demo_w1)\<rparr>) = (Inr v, w2) \<and>
     stored demo_st (w_fs w2) ''ccdd'' = Some ''xxxxabc'' \<and> (\<exists>f \<in> set (file_objects (w_db w2)). fr_size f = 3)"
proof -
  let ?w1 = "demo_w1\<lparr>w_fs := os_append ''/d/staging/uploads/aabb'' ''xxxx'' (w_fs demo_w1)\<rparr>"
  from demo_completion [of "''xxxx''"] obtain v w2 where
    v: "write_chunk toy_sha toy_detect demo_st demo_ora ''u'' 0 (body ''abc'') ?w1 = (Inr v, w2)" "up_state v = StateComplete"
    by (auto simp: demo_complete_state)
  have "chunk_trace toy_sha toy_detect demo_st demo_ora ''u'' 0 (body ''xxxxx'') demo_w1 =
      map (\<lambda>bs. demo_w1\<lparr>w_fs := os_append ''/d/staging/uploads/aabb'' bs (w_fs demo_w1)\<rparr>) (prefixes ''xxxxx'')"
    using wrap64_id [of 5]
    by (simp add: chunk_trace_def get_upload_def demo_w1_facts body_def Let_def in_int64_def)
      (simp add: demo_up_def demo_w1_facts)
  then have crash: "?w1 \<in> set (chunk_trace toy_sha toy_detect demo_st demo_ora ''u'' 0 (body ''xxxxx'') demo_w1)" by simp
  have u: "staged demo_st (w_fs demo_w1) (up_staging demo_up) = Some []" "int (length []) = up_received demo_up"
    using demo_w1_facts(4) by (simp_all add: demo_up_def)
  have staged: "staged demo_st (w_fs ?w1) (up_staging demo_up) = Some ''xxxx''"
    by (simp add: staged_def demo_up_def demo_paths os_append_def demo_w1_def)
  have "w_db ?w1 = w_db demo_w1" "int (length (st_bytes (body ''abc''))) < 2 ^ 63" by (simp_all add: body_def)
  from interrupted_chunk_corrupts [OF crash this(1) v demo_w1_facts(2) this(2) demo_w1_facts(1) u] staged obtain f where
    "stored demo_st (w_fs w2) (up_final demo_up) = Some (''xxxx'' @ st_bytes (body ''abc''))" "f \<in> set (file_objects (w_db w2))"
    "fr_size f + int (length ''xxxx'') = int (length (''xxxx'' @ st_bytes (body ''abc'')))" by auto
  with v(1) show ?thesis by (auto simp: body_def demo_up_def)
qed

lemma demo_crash_run:
  "(\<lambda>w w'. store_step quiet plain_text demo_cfg demo_st toy_sha toy_detect w w' \<or>
     crash_step quiet plain_text demo_cfg demo_st toy_sha toy_detect w w')\<^sup>*\<^sup>* demo_w0 demo_crashed"
proof (rule converse_rtranclp_into_rtranclp)
  show "store_step quiet plain_text demo_cfg demo_st toy_sha toy_detect demo_w0 demo_w1 \<or>
      crash_step quiet plain_text demo_cfg demo_st toy_sha toy_detect demo_w0 demo_w1"
    by (rule disjI1, rule store_step.create [OF demo_create]) (simp_all add: in_int64_def)
  have "crash_step quiet plain_text demo_cfg demo_st toy_sha toy_detect demo_w1 demo_crashed"
    by (rule crash_step.crash_chunk [OF demo_crash]) (simp_all add: body_def)
  then show "(\<lambda>w w'. store_step quiet plain_text demo_cfg demo_st toy_sha toy_detect w w' \<or>
      crash_step quiet plain_text demo_cfg demo_st toy_sha toy_detect w w')\<^sup>*\<^sup>* demo_w1 demo_crashed"
    by (intro r_into_rtranclp) simp
qed

theorem store_survives_crashes_witness:
  "\<exists>u. uploads (w_db demo_crashed) = [u] \<and> up_state u = StateFinalizing \<and> up_reserved u = 3"
proof -
  have "w_db demo_w0 = init_db 0" by (simp add: demo_w0_def)
  from store_survives_crashes [OF demo_crash_run this] show ?thesis
    by (simp add: demo_crashed_def mark_defs demo_up_def active_states_def)
qed

theorem quota_survives_crashes_witness:
  "stored_bytes (w_db demo_crashed) + reserved_bytes (w_db demo_crashed) \<le> 100"
proof -
  have "w_db demo_w0 = init_db 0" by (simp add: demo_w0_def)
  from quota_survives_crashes [OF demo_crash_run this] show ?thesis by (simp add: demo_cfg_def)
qed

end
