(* ===== verification/Files_Laws.thy ===== *)
theory Files_Laws
  imports Files_Props
begin

text \<open>
  Further properties of the node service: what a failed call leaves behind, how constraint
  failures are reported, the system folders, and what a purge deletes and when it fails.
\<close>

section \<open>Constraint errors\<close>

text \<open>The hand-written substring search finds a non-empty contiguous part.\<close>

lemma contains_any_iff:
  "contains_any s subs \<longleftrightarrow> (\<exists>sub \<in> set subs. sub \<noteq> [] \<and> sublist sub s)"
proof -
  have upto: "list_ex P [0..<Suc k] \<longleftrightarrow> (\<exists>i \<le> k. P i)" for P k
    by (auto simp: list_ex_iff less_Suc_eq_le simp del: upt_Suc)
  have eq: "(0 < length sub \<and> length sub \<le> length s \<and>
      list_ex (\<lambda>i. take (length sub) (drop i s) = sub) [0..<Suc (length s - length sub)]) \<longleftrightarrow>
      sub \<noteq> [] \<and> sublist sub s" for sub
    unfolding takeWhile_sublist_split upto length_greater_0_conv
    by (simp only: ex_simps simp_thms conj_left_commute)
  show ?thesis unfolding contains_any_def eq by (simp only: list_ex_iff)
qed

lemma constraint_error_iff:
  "is_constraint_error f \<longleftrightarrow> sublist ''constraint failed'' (fault_text f)"
proof -
  have "sublist ''constraint failed'' (''UNIQUE constraint failed'' :: string)"
    by (simp add: sublist_code)
  then show ?thesis
    by (auto simp: is_constraint_error_def contains_any_iff intro: sublist_order.order_trans)
qed

text \<open>Every constraint failure of SQLite counts as a name clash, whichever constraint it was.\<close>

lemma constraint_faults [simp]:
  "is_constraint_error (UniqueFault c)" "is_constraint_error ForeignKeyFault" "is_constraint_error (CheckFault e)"
proof -
  have "sublist ''constraint failed'' (''UNIQUE constraint failed: '' :: string)"
    and fk: "sublist ''constraint failed'' (''FOREIGN KEY constraint failed'' :: string)"
    and "sublist ''constraint failed'' (''CHECK constraint failed: '' :: string)"
    by (simp_all add: sublist_code)
  then show "is_constraint_error (UniqueFault c)" "is_constraint_error (CheckFault e)"
    unfolding constraint_error_iff fault_text.simps by (blast intro: sublist_append_rightI sublist_order.order_trans)+
  from fk show "is_constraint_error ForeignKeyFault" by (simp add: constraint_error_iff)
qed

text \<open>
  A failed statement is reported as a name clash (ErrAlreadyExists) exactly when its text
  contains "constraint failed", so every constraint of the schema is reported this way, a
  missing parent folder included.
\<close>

theorem constraint_failures_mean_exists:
  "(is_constraint_error (ExternalFault m) \<longleftrightarrow> sublist ''constraint failed'' m) \<and>
   is_constraint_error (UniqueFault c) \<and> is_constraint_error ForeignKeyFault \<and> is_constraint_error (CheckFault e)"
  by (simp add: constraint_error_iff [of "ExternalFault m"])

section \<open>Failed calls\<close>

lemma get_node_present:
  "i \<in> nr_id ` set (nodes db) \<Longrightarrow> \<exists>n. get_node None db i = Inr n"
  using lookup_by_ex [of i nr_id "nodes db"] by (auto simp: get_node_def find_node_def split: option.split)

lemma quiet_create: "quiet ora \<Longrightarrow> create_folder env ora parent name db = (Inl e, db') \<Longrightarrow> db' = db"
  using get_node_present [of "uuid ora 0" db']
  by (auto simp: create_folder_def insert_node_Inr new_node_def split: sum.splits prod.splits)

lemma quiet_rename: "quiet ora \<Longrightarrow> rename_node env ora i name db = (Inl e, db') \<Longrightarrow> db' = db"
proof -
  assume calm: "quiet ora" and step: "rename_node env ora i name db = (Inl e, db')"
  have "i \<in> nr_id ` set (nodes db2)" if "get_node None db i = Inr n"
      "update_nodes None P (rename_row d k t) db = Inr db2" for n P d k t db2
    using that rename_key.key_set_update [of P d k t "nodes db"]
    by (auto simp: get_node_Inr update_nodes_Inr dest!: find_nodeD)
  with get_node_present [of i db'] calm step show ?thesis
    by (fastforce simp: rename_node_def split: sum.splits prod.splits if_splits)
qed

lemma quiet_move: "quiet ora \<Longrightarrow> move_node ora i p db = Some (Inl e, db') \<Longrightarrow> db' = db"
proof -
  assume calm: "quiet ora" and step: "move_node ora i p db = Some (Inl e, db')"
  have "i \<in> nr_id ` set (nodes db2)" if "get_node None db i = Inr n"
      "update_nodes None P (move_row q t) db = Inr db2" for n P q t db2
    using that move_key.key_set_update [of P q t "nodes db"]
    by (auto simp: get_node_Inr update_nodes_Inr dest!: find_nodeD)
  with get_node_present [of i db'] calm step show ?thesis
    by (fastforce simp: move_node_def split: sum.splits option.splits if_splits)
qed

lemma quiet_trash: "trash_node ora i db = Some (Inl e, db') \<Longrightarrow> db' = db"
  by (auto simp: trash_node_def split: sum.splits if_splits option.splits)

lemma quiet_restore:
  assumes ok: "tree_ok (nodes db)" and calm: "quiet ora" and step: "restore_node ora i db = Some (Inl e, db')"
  shows "db' = db"
proof (rule ccontr)
  assume "db' \<noteq> db"
  then obtain r p where r: "find_node db i = Some r" and
    db': "db' = db\<lparr>nodes := map (retag (nodes db) i (restore_row p (secs (clock ora 0))) None) (nodes db)\<rparr>" and
    res: "Inl e = get_node None db' i"
    using restore_node_effect [OF step ok] calm by (metis quiet_db)
  from r have "i \<in> nr_id ` set (nodes db')"
    by (auto simp: db' image_image retag_id restore_row_def dest!: find_nodeD)
  from get_node_present [OF this] res show False by auto
qed

lemma quiet_purge: "purge_node ora i db = Some (Inl e, db') \<Longrightarrow> db' = db"
  by (auto simp: purge_node_def split: sum.splits if_splits option.splits)

lemma quiet_backup: "toggle_backup ora i sel db = (Inl e, db') \<Longrightarrow> db' = db"
  by (auto simp: toggle_backup_def update_files_Inr filter_empty_conv update_where_none split: sum.splits if_splits)

text \<open>
  C36: On a well-formed tree, with a database that answers, an operation that reports an error
  has changed nothing.
\<close>

theorem errors_change_nothing:
  assumes "tree_ok (nodes db)" and "quiet ora"
  shows "(create_folder env ora parent name db = (Inl e, db') \<longrightarrow> db' = db) \<and>
    (rename_node env ora i name db = (Inl e, db') \<longrightarrow> db' = db) \<and>
    (move_node ora i p db = Some (Inl e, db') \<longrightarrow> db' = db) \<and>
    (trash_node ora i db = Some (Inl e, db') \<longrightarrow> db' = db) \<and>
    (restore_node ora i db = Some (Inl e, db') \<longrightarrow> db' = db) \<and>
    (purge_node ora i db = Some (Inl e, db') \<longrightarrow> db' = db) \<and>
    (toggle_backup ora i sel db = (Inl e, db') \<longrightarrow> db' = db)"
  using quiet_create [OF assms(2)] quiet_rename [OF assms(2)] quiet_move [OF assms(2)] quiet_trash
    quiet_restore [OF assms] quiet_purge quiet_backup by metis

theorem errors_change_nothing_witness:
  "\<exists>e db'. create_folder plain_text calm (Some ''a'') ''b'' demo_db = (Inl e, db') \<and> e = ErrAlreadyExists \<and> db' = demo_db"
proof -
  have "normalize_name plain_text ''b'' = Inr (''b'', ''b'')" by code_simp
  then have "fst (create_folder plain_text calm (Some ''a'') ''b'' demo_db) = Inl ErrAlreadyExists"
    by (simp add: create_folder_def target_parent_def eval_db insert_node_def demo_rows check_folder_def)
  then obtain db' where eq: "create_folder plain_text calm (Some ''a'') ''b'' demo_db = (Inl ErrAlreadyExists, db')"
    by (metis prod.collapse)
  with errors_change_nothing [OF demo_tree_ok calm_simps(5), of plain_text "Some ''a''" "''b''" ErrAlreadyExists db' "[]" "[]" False]
  show ?thesis by blast
qed

section \<open>Purging\<close>

lemma delete_each_append:
  "delete_each (xs @ ys) db = (case delete_each xs db of Inl f \<Rightarrow> Inl f | Inr db1 \<Rightarrow> delete_each ys db1)"
  by (induction xs arbitrary: db) (auto split: sum.split)

lemma delete_each_fault: "delete_each is db = Inl f \<Longrightarrow> f = ForeignKeyFault"
  by (induction "is" arbitrary: db) (auto simp: delete_node_def Let_def split: sum.splits if_splits)

text \<open>A row of a table that refers to a node and survives its deletion stops the statement.\<close>

lemma delete_each_stops:
  assumes "(\<exists>s \<in> set (nodes db). nr_id s \<notin> set xs \<and> nr_id s \<noteq> i \<and> nr_parent s = Some i) \<or>
      (\<exists>u \<in> set (uploads db). up_parent u = i)"
  shows "delete_each (xs @ i # ys) db = Inl ForeignKeyFault"
proof (cases "delete_each xs db")
  case (Inl f)
  then show ?thesis using delete_each_fault [OF Inl] by (simp add: delete_each_append)
next
  case (Inr db1)
  from delete_each_rows [OF Inr] assms have "delete_node i db1 = Inl ForeignKeyFault"
    by (auto simp: delete_node_def Let_def list_ex_iff)
  with Inr show ?thesis by (simp add: delete_each_append)
qed

lemma purge_node_calm:
  assumes "quiet ora" and "find_node db i = Some r" "\<not> nr_system r" "nr_trashed r \<noteq> None"
    and "subtree (nodes db) i = Some ids"
  shows "purge_node ora i db =
     (case delete_each (map nr_id (filter (\<lambda>r. nr_id r \<in> set ids) (nodes db))) db of
        Inl f \<Rightarrow> Some (Inl (Wrap ''failed to delete node subtree'' (DbErr f)), db)
      | Inr db' \<Rightarrow> Some (Inr (List.map_filter (\<lambda>d. map_option fr_key (find_file db d)) ids), db'))"
  using assms by (simp add: purge_node_def get_node_def subtree_keys_def delete_subtree_def delete_nodes_def
    split: sum.split)

text \<open>
  C39: PurgeNode cannot delete a trashed folder when one of its children was inserted after it
  (the usual case: a folder is created before its contents), or when an upload was ever
  started in it: the single DELETE visits the rows in rowid order and the references with ON
  DELETE RESTRICT stop it, so the call fails and nothing is deleted.
\<close>

theorem purge_of_used_folder_fails:
  assumes ok: "tree_ok (nodes db)" and calm: "quiet ora"
    and rows: "nodes db = before @ r # after" and r: "nr_id r = i" "\<not> nr_system r" "nr_trashed r \<noteq> None"
    and used: "(\<exists>s \<in> set after. nr_parent s = Some i) \<or> (\<exists>u \<in> set (uploads db). up_parent u = i)"
  shows "purge_node ora i db = Some (Inl (Wrap ''failed to delete node subtree'' (DbErr ForeignKeyFault)), db)"
proof -
  obtain ids where ids: "subtree (nodes db) i = Some ids"
    using subtree_total [OF tree_okD(3) [OF ok]] by blast
  let ?P = "\<lambda>s. nr_id s \<in> set ids"
  have "i \<in> set ids" using subtree_eq [OF ids] by simp
  with r(1) have "map nr_id (filter ?P (nodes db)) =
      map nr_id (filter ?P before) @ i # map nr_id (filter ?P after)"
    by (simp add: rows)
  moreover have "delete_each (map nr_id (filter ?P before) @ i # map nr_id (filter ?P after)) db = Inl ForeignKeyFault"
  proof (rule delete_each_stops)
    have dist: "distinct (map nr_id (before @ r # after))" using tree_okD(1) [OF ok] by (simp only: rows)
    show "(\<exists>s \<in> set (nodes db). nr_id s \<notin> set (map nr_id (filter ?P before)) \<and> nr_id s \<noteq> i \<and> nr_parent s = Some i) \<or>
      (\<exists>u \<in> set (uploads db). up_parent u = i)"
      using used
    proof
      assume "\<exists>s \<in> set after. nr_parent s = Some i"
      then obtain s where s: "s \<in> set after" "nr_parent s = Some i" by blast
      with dist r(1) have "nr_id s \<notin> nr_id ` set before" "nr_id s \<noteq> i" by (auto simp: image_iff)
      with s show ?thesis unfolding rows by (intro disjI1 bexI [of _ s]) auto
    qed blast
  qed
  moreover have "find_node db i = Some r"
    using r(1) ok by (simp add: find_node_iff rows)
  ultimately show ?thesis using purge_node_calm [OF calm _ r(2,3) ids] by simp
qed


theorem purge_of_used_folder_fails_witness:
  "\<exists>db1. trash_node calm ''a'' demo_db = Some (Inr (), db1) \<and>
     purge_node calm ''a'' db1 = Some (Inl (Wrap ''failed to delete node subtree'' (DbErr ForeignKeyFault)), db1)"
proof -
  let ?a = "trash_row 5 (new_node ''a'' root_id KindFolder ''A'' ''a'' 1)"
  let ?b = "set_trashed (Some 5) (new_node ''b'' ''a'' KindFolder ''B'' ''b'' 1)"
  let ?f = "set_trashed (Some 5) (new_node ''f'' ''b'' KindFile ''F'' ''f'' 1)"
  let ?db1 = "demo_db\<lparr>nodes := nodes (init_db 0) @ [?a, ?b, ?f]\<rparr>"
  have "tree_ok (nodes ?db1)"
    using trash_node_ok [OF demo_trash demo_files_ok] by blast
  from purge_of_used_folder_fails [OF this calm_simps(5), of "nodes (init_db 0)" ?a "[?b, ?f]" "''a''"]
  have "purge_node calm ''a'' ?db1 = Some (Inl (Wrap ''failed to delete node subtree'' (DbErr ForeignKeyFault)), ?db1)"
    by (simp add: trash_row_def set_trashed_def new_node_def)
  with demo_trash show ?thesis by blast
qed

text \<open>The file of the small tree in the trash.\<close>

definition trashed_file :: node_row where
  "trashed_file = trash_row 5 (new_node ''f'' ''b'' KindFile ''F'' ''f'' 1)"

definition kept_rows :: "node_row list" where
  "kept_rows = nodes (init_db 0) @ [new_node ''a'' root_id KindFolder ''A'' ''a'' 1, new_node ''b'' ''a'' KindFolder ''B'' ''b'' 1]"

lemma demo_trash_file: "trash_node calm ''f'' demo_db = Some (Inr (), demo_db\<lparr>nodes := kept_rows @ [trashed_file]\<rparr>)"
  by (simp add: trash_node_def eval_db demo_rows trash_row_def kept_rows_def trashed_file_def)

lemma demo_purge_file:
  "purge_node calm ''f'' (demo_db\<lparr>nodes := kept_rows @ [trashed_file]\<rparr>) =
     Some (Inr [''k0k0''], demo_db\<lparr>nodes := kept_rows, file_objects := []\<rparr>)"
proof -
  have ids: "subtree (kept_rows @ [trashed_file]) ''f'' = Some [''f'']"
    by (simp add: subtree_def children_def demo_rows trash_row_def kept_rows_def trashed_file_def)
  show ?thesis
    using purge_node_calm [OF calm_simps(5) _ _ _ , of "demo_db\<lparr>nodes := kept_rows @ [trashed_file]\<rparr>" "''f''" trashed_file "[''f'']"] ids
    by (simp add: demo_rows trash_row_def find_node_def find_file_def delete_node_def Let_def List.map_filter_def
        kept_rows_def trashed_file_def)
qed


section \<open>The system folders\<close>

lemma update_where_keeps: "r \<in> set rows \<Longrightarrow> \<not> P r \<Longrightarrow> r \<in> set (update_where P f rows)"
  by (force simp: set_update_where)

lemma retag_keeps_system:
  assumes "tree_ok rows" and "r \<in> set rows" and "nr_id r \<in> system_ids" and "i \<notin> system_ids"
  shows "r \<in> set (map (retag rows i f t) rows)"
proof -
  have "nr_id r \<noteq> i" using assms by auto
  with system_not_below [OF assms(1,3)] have "retag rows i f t r = r" by (simp add: retag_def)
  with assms(2) show ?thesis by force
qed

text \<open>
  No operation of the node service ever changes or deletes the rows of the root and of
  the trash folder.
\<close>

theorem system_rows_kept:
  assumes step: "files_step db db'" and ok: "files_ok db"
    and r: "r \<in> set (nodes db)" "nr_id r \<in> system_ids"
  shows "r \<in> set (nodes db')"
proof -
  from ok have tree: "tree_ok (nodes db)" by auto
  have other: "nr_id r \<noteq> i" if "get_node flt db i = Inr n" "\<not> n_system n" for flt i n
    using that tree r(2) by (auto simp: get_node_Inr dest!: find_nodeD not_system)
  note keep = update_where_keeps [OF r(1)]
  from step show ?thesis
  proof cases
    case (create env ora parent name res)
    then show ?thesis using r(1)
      by (auto simp: create_folder_def insert_node_Inr split: sum.splits prod.splits)
  next
    case (rename env ora i name res)
    then have "db' = db \<or> nr_id r \<noteq> i \<and> (\<exists>f. nodes db' = update_where (\<lambda>s. nr_id s = i) f (nodes db))"
      by (auto simp: rename_node_def update_nodes_Inr dest: other split: sum.splits prod.splits if_splits)
    then show ?thesis using keep r(1) by metis
  next
    case (move ora i p res)
    then have "db' = db \<or> nr_id r \<noteq> i \<and> (\<exists>f. nodes db' = update_where (\<lambda>s. nr_id s = i) f (nodes db))"
      by (auto simp: move_node_def update_nodes_Inr dest: other split: sum.splits option.splits if_splits)
    then show ?thesis using keep r(1) by metis
  next
    case (trash ora i res)
    show ?thesis
    proof (cases res)
      case (Inl e)
      with trash quiet_trash r(1) show ?thesis by metis
    next
      case (Inr u)
      note eff = trash_node_effect [OF trash [unfolded Inr] tree]
      from retag_keeps_system [OF tree r eff(2)] eff(1) show ?thesis by simp
    qed
  next
    case (restore ora i res)
    show ?thesis
    proof (cases "db' = db")
      case False
      from restore_node_effect [OF restore tree disjI1 [OF False]] obtain q p where
        q: "find_node db i = Some q" "nr_trashed q \<noteq> None" and
        eff: "db' = db\<lparr>nodes := map (retag (nodes db) i (restore_row p (secs (clock ora 0))) None) (nodes db)\<rparr>"
        by metis
      from q tree system_row_exists [OF tree] have "i \<notin> system_ids"
        by (metis find_node_iff option.inject)
      from retag_keeps_system [OF tree r this] eff show ?thesis by simp
    qed (use r in simp)
  next
    case (purge ora i keys)
    show ?thesis
    proof (cases "db' = db")
      case False
      with purge obtain n ids where n: "get_node (db_fails ora 0) db i = Inr n" "\<not> n_system n"
        and ids: "subtree (nodes db) i = Some ids" "delete_nodes None ids db = Inr db'"
        by (auto simp: purge_node_def delete_subtree_def split: sum.splits if_splits option.splits)
      from n tree have "i \<notin> system_ids" by (auto simp: get_node_Inr dest!: find_nodeD not_system)
      from subtree_not_system [OF tree this ids(1)] r(2) have "nr_id r \<notin> set ids" by auto
      with ids(2) r(1) show ?thesis by (auto simp: delete_nodes_def dest!: delete_each_rows)
    qed (use r in simp)
  next
    case (backup ora i sel res)
    then show ?thesis using r(1)
      by (auto simp: toggle_backup_def update_files_Inr split: sum.splits if_splits)
  qed
qed

theorem system_rows_kept_witness:
  "\<exists>db'. trash_node calm ''a'' demo_db = Some (Inr (), db') \<and> system_row trash_root_id ''Trash'' ''trash'' 0 \<in> set (nodes db')"
proof -
  have "system_row trash_root_id ''Trash'' ''trash'' 0 \<in> set (nodes demo_db)"
    by (simp add: demo_db_def init_db_def)
  from system_rows_kept [OF files_step.trash [OF demo_trash] demo_files_ok this] demo_trash show ?thesis
    by (auto simp: system_row_def)
qed

section \<open>Names\<close>

lemma clash_refused:
  assumes "r \<in> set rows" "nr_trashed r = None" "nr_trashed s = None"
    and "nr_parent r = nr_parent s" "nr_name_key r = nr_name_key s"
  shows "\<not> siblings_unique (rows @ [s])"
  using assms by (auto simp: siblings_unique_append clashes_def)

text \<open>
  A folder is not created beside an active sibling with the same name key: the call
  reports ErrAlreadyExists and changes nothing.
\<close>

theorem duplicate_name_refused:
  assumes calm: "quiet ora" and name: "normalize_name env name = Inr (disp, key)"
    and p: "find_node db (target_parent parent) = Some p" "nr_kind p = KindFolder" "nr_trashed p = None"
    and r: "r \<in> set (nodes db)" "nr_parent r = Some (target_parent parent)" "nr_name_key r = key" "nr_trashed r = None"
  shows "create_folder env ora parent name db = (Inl ErrAlreadyExists, db)"
proof -
  let ?s = "new_node (uuid ora 0) (target_parent parent) KindFolder disp key (secs (clock ora 0))"
  have "\<not> siblings_unique (nodes db @ [?s])"
    by (rule clash_refused [OF r(1,4)]) (simp_all add: new_node_def r)
  then have "\<exists>f. insert_node None ?s db = Inl f \<and> is_constraint_error f"
    by (auto simp: insert_node_def check_nodes_def)
  with assms show ?thesis
    by (auto simp: create_folder_def get_node_def check_folder_def)
qed

theorem duplicate_name_refused_witness:
  "create_folder plain_text calm (Some ''a'') ''B'' demo_db = (Inl ErrAlreadyExists, demo_db)"
proof -
  have "normalize_name plain_text ''B'' = Inr (''B'', ''b'')" by code_simp
  from duplicate_name_refused [OF calm_simps(5) this, of demo_db "Some ''a''"
      "new_node ''a'' root_id KindFolder ''A'' ''a'' 1" "new_node ''b'' ''a'' KindFolder ''B'' ''b'' 1"]
  show ?thesis by (simp add: target_parent_def find_node_def demo_rows)
qed

text \<open>
  An accepted name has between 1 and 255 bytes, contains none of / \ NUL CR LF and is neither
  "." nor ".." before Unicode normalisation, which leaves ASCII alone: so an accepted ASCII name is
  stored trimmed, its key is its lower-case form, and normalising the stored name again changes nothing.
\<close>

theorem normalize_name_ascii:
  assumes name: "normalize_name env name = Inr (disp, key)" and ascii: "is_ascii name"
    and nfc: "\<And>s. is_ascii s \<Longrightarrow> nfc env s = s"
  shows "disp = trim_space name \<and> key = map ascii_lower disp \<and> disp \<noteq> [] \<and> length disp \<le> 255 \<and>
    set disp \<inter> set bad_name_bytes = {} \<and> disp \<noteq> ''.'' \<and> disp \<noteq> ''..'' \<and>
    normalize_name env disp = Inr (disp, key)"
proof -
  have a: "is_ascii (trim_space name)"
    using ascii set_trim_space [of name] by (auto simp: is_ascii_def list_all_iff)
  from name nfc [OF a] a show ?thesis
    by (auto simp: normalize_name_def Let_def contains_any_byte_def list_ex_iff trim_space_idem go_to_lower_def
        split: if_splits)
qed

theorem normalize_name_ascii_witness:
  "normalize_name plain_text '' Read Me'' = Inr (''Read Me'', ''read me'') \<and>
   normalize_name plain_text ''Read Me'' = Inr (''Read Me'', ''read me'')"
proof -
  have n: "normalize_name plain_text '' Read Me'' = Inr (''Read Me'', ''read me'')" by code_simp
  have "is_ascii '' Read Me''" by code_simp
  from normalize_name_ascii [OF n this] n show ?thesis by (simp add: plain_text_def)
qed

end
