(* ===== verification/Races.thy ===== *)
theory Races
  imports Files_Laws Upload_Inv
begin

text \<open>
  Node operations that run at the same time. The services take no lock around a node operation:
  two requests interleave between their database calls, and a pool of connections runs them.
  A statement is atomic and so is a transaction (SQLite has one writer at a time and readers see
  committed states), so a request is a thread with a program counter here, and a step of a set
  of threads is one call of one of them. The theory shows that a thread that runs alone is the
  operation of \<open>Files\<close>, what every interleaving keeps, and what two moves can break.
\<close>

section \<open>Threads\<close>

text \<open>\<open>OpCommit\<close> is phase C of an upload that completes, \<open>OpRecover\<close> the same in a reconciliation.\<close>

datatype (discs_sels) node_op =
    OpCreate "string option" string
  | OpRename string string
  | OpMove string string
  | OpTrash string
  | OpRestore string
  | OpPurge string
  | OpBackup string bool
  | OpCommit upload_row string string
  | OpRecover upload_row

datatype answer = AnsNode "err + node" | AnsUnit "err + unit" | AnsKeys "err + string list"

text \<open>Where a thread stands: the call it makes next, with what it has read so far.\<close>

datatype pc =
    PcStart
  | PcInsert string string
  | PcRename string string
  | PcTarget
  | PcWalk nat string
  | PcMove nat
  | PcTrash node_kind
  | PcTarget_of node
  | PcRestore node string
  | PcPurge
  | PcReread nat string
  | PcAnswer answer

record thread =
  th_op :: node_op
  th_out :: outside
  th_pc :: pc

section \<open>Transactions\<close>

definition trash_tx :: "outside \<Rightarrow> string \<Rightarrow> node_kind \<Rightarrow> database \<Rightarrow> ((err + unit) \<times> database) option" where
  "trash_tx ora i kind db =
     (case tx_call (db_fails ora 1) of
        Inl f \<Rightarrow> Some (Inl (DbErr f), db)
      | Inr _ \<Rightarrow>
          (case update_nodes (db_fails ora 2) (\<lambda>r. nr_id r = i) (trash_row (secs (clock ora 0))) db of
             Inl f \<Rightarrow> Some (Inl (Wrap ''failed to trash node'' (DbErr f)), db)
           | Inr db1 \<Rightarrow>
               (case (if kind = KindFolder then cascade_trashed (db_fails ora 3) i (Some (secs (clock ora 0))) db1
                      else Some (Inr db1)) of
                  None \<Rightarrow> None
                | Some (Inl f) \<Rightarrow> Some (Inl (Wrap ''failed to cascade trashed_at'' (DbErr f)), db)
                | Some (Inr db2) \<Rightarrow>
                    (case tx_call (db_fails ora 4) of
                       Inl f \<Rightarrow> Some (Inl (DbErr f), db)
                     | Inr _ \<Rightarrow> Some (Inr (), db2)))))"

text \<open>The error of a restore, or the database it commits.\<close>

definition restore_tx :: "outside \<Rightarrow> string \<Rightarrow> node \<Rightarrow> string \<Rightarrow> database \<Rightarrow> (err + database) option" where
  "restore_tx ora i n target db =
     (case tx_call (db_fails ora 2) of
        Inl f \<Rightarrow> Some (Inl (DbErr f))
      | Inr _ \<Rightarrow>
          (case update_nodes (db_fails ora 3) (\<lambda>r. nr_id r = i) (restore_row target (secs (clock ora 0))) db of
             Inl f \<Rightarrow> Some (Inl (if is_constraint_error f then ErrAlreadyExists else Wrap ''failed to restore node'' (DbErr f)))
           | Inr db1 \<Rightarrow>
               (case (if n_kind n = KindFolder then cascade_trashed (db_fails ora 4) i None db1 else Some (Inr db1)) of
                  None \<Rightarrow> None
                | Some (Inl f) \<Rightarrow> Some (Inl (Wrap ''failed to clear trashed_at on descendants'' (DbErr f)))
                | Some (Inr db2) \<Rightarrow>
                    (case tx_call (db_fails ora 5) of Inl f \<Rightarrow> Some (Inl (DbErr f)) | Inr _ \<Rightarrow> Some (Inr db2)))))"

definition purge_tx :: "outside \<Rightarrow> string \<Rightarrow> database \<Rightarrow> ((err + string list) \<times> database) option" where
  "purge_tx ora i db =
     (case tx_call (db_fails ora 1) of
        Inl f \<Rightarrow> Some (Inl (DbErr f), db)
      | Inr _ \<Rightarrow>
          (case subtree_keys (db_fails ora 2) db i of
             None \<Rightarrow> None
           | Some keys \<Rightarrow>
               (case delete_subtree (db_fails ora 3) i db of
                  None \<Rightarrow> None
                | Some (Inl f) \<Rightarrow> Some (Inl (Wrap ''failed to delete node subtree'' (DbErr f)), db)
                | Some (Inr db') \<Rightarrow>
                    (case tx_call (db_fails ora 4) of
                       Inl f \<Rightarrow> Some (Inl (DbErr f), db)
                     | Inr _ \<Rightarrow> Some (Inr keys, db')))))"

section \<open>Steps\<close>

text \<open>The next call of an operation; \<open>None\<close> is a call that never returns, or no call left.\<close>

fun start_op :: "text_env \<Rightarrow> outside \<Rightarrow> node_op \<Rightarrow> database \<Rightarrow> (pc \<times> database) option" where
  "start_op env ora (OpCreate parent name) db =
     Some ((case normalize_name env name of
        Inl e \<Rightarrow> PcAnswer (AnsNode (Inl e))
      | Inr (disp, key) \<Rightarrow>
          (case get_node (db_fails ora 0) db (target_parent parent) of
             Inl e \<Rightarrow> PcAnswer (AnsNode (Inl e))
           | Inr p \<Rightarrow> (case check_folder p of Inl e \<Rightarrow> PcAnswer (AnsNode (Inl e)) | Inr _ \<Rightarrow> PcInsert disp key))), db)"
| "start_op env ora (OpRename i newname) db =
     Some ((case get_node (db_fails ora 0) db i of
        Inl e \<Rightarrow> PcAnswer (AnsNode (Inl e))
      | Inr n \<Rightarrow>
          if n_system n then PcAnswer (AnsNode (Inl ErrSystemNodeProtected))
          else (case normalize_name env newname of
             Inl e \<Rightarrow> PcAnswer (AnsNode (Inl e)) | Inr (disp, key) \<Rightarrow> PcRename disp key)), db)"
| "start_op env ora (OpMove i newparent) db =
     Some ((case get_node (db_fails ora 0) db i of
        Inl e \<Rightarrow> PcAnswer (AnsNode (Inl e))
      | Inr n \<Rightarrow>
          if n_system n then PcAnswer (AnsNode (Inl ErrSystemNodeProtected))
          else if i = newparent then PcAnswer (AnsNode (Inl ErrCycleDetected)) else PcTarget), db)"
| "start_op env ora (OpTrash i) db =
     Some ((case get_node (db_fails ora 0) db i of
        Inl e \<Rightarrow> PcAnswer (AnsUnit (Inl e))
      | Inr n \<Rightarrow> if n_system n then PcAnswer (AnsUnit (Inl ErrSystemNodeProtected)) else PcTrash (n_kind n)), db)"
| "start_op env ora (OpRestore i) db =
     Some ((case get_node (db_fails ora 0) db i of
        Inl e \<Rightarrow> PcAnswer (AnsNode (Inl e))
      | Inr n \<Rightarrow> if n_trashed n = None then PcAnswer (AnsNode (Inl ErrInvalidOperation)) else PcTarget_of n), db)"
| "start_op env ora (OpPurge i) db =
     Some ((case get_node (db_fails ora 0) db i of
        Inl e \<Rightarrow> PcAnswer (AnsKeys (Inl e))
      | Inr n \<Rightarrow>
          if n_system n then PcAnswer (AnsKeys (Inl ErrSystemNodeProtected))
          else if n_trashed n = None then PcAnswer (AnsKeys (Inl ErrInvalidOperation)) else PcPurge), db)"
| "start_op env ora (OpBackup i sel) db =
     (case toggle_backup ora i sel db of (res, db') \<Rightarrow> Some (PcAnswer (AnsUnit res), db'))"
| "start_op env ora (OpRecover u) db = Some (PcAnswer (AnsUnit (Inr ())), phase_c_blind ora u (secs (clock ora 0)) db)"
| "start_op env ora (OpCommit u mime hash) db =
     (case phase_c ora u mime hash (secs (clock ora 2)) db of
        Inl e \<Rightarrow> Some (PcAnswer (AnsUnit (Inl e)), db) | Inr db' \<Rightarrow> Some (PcAnswer (AnsUnit (Inr ())), db'))"

text \<open>One turn of the loop that looks for a cycle.\<close>

definition walk_turn :: "outside \<Rightarrow> string \<Rightarrow> nat \<Rightarrow> string \<Rightarrow> database \<Rightarrow> pc" where
  "walk_turn ora i k cur db =
     (if cur = i then PcAnswer (AnsNode (Inl ErrCycleDetected))
      else (case db_fails ora k of
         Some m \<Rightarrow> PcAnswer (AnsNode (Inl (Wrap ''cycle check failed'' (DbErr (ExternalFault m)))))
       | None \<Rightarrow>
           (case find_node db cur of
              None \<Rightarrow> PcMove (Suc k)
            | Some r \<Rightarrow>
                (case nr_parent r of
                   None \<Rightarrow> PcMove (Suc k)
                 | Some p \<Rightarrow> if p = [] then PcMove (Suc k) else PcWalk (Suc k) p))))"

fun next_call :: "text_env \<Rightarrow> outside \<Rightarrow> node_op \<Rightarrow> pc \<Rightarrow> database \<Rightarrow> (pc \<times> database) option" where
  "next_call env ora op PcStart db = start_op env ora op db"
| "next_call env ora (OpCreate parent name) (PcInsert disp key) db =
     (case insert_node (db_fails ora 1)
         (new_node (uuid ora 0) (target_parent parent) KindFolder disp key (secs (clock ora 0))) db of
        Inl f \<Rightarrow> Some (PcAnswer (AnsNode (Inl (if is_constraint_error f then ErrAlreadyExists
            else Wrap ''failed to insert folder'' (DbErr f)))), db)
      | Inr db' \<Rightarrow> Some (PcReread 2 (uuid ora 0), db'))"
| "next_call env ora (OpRename i newname) (PcRename disp key) db =
     (case update_nodes (db_fails ora 1) (\<lambda>r. nr_id r = i) (rename_row disp key (secs (clock ora 0))) db of
        Inl f \<Rightarrow> Some (PcAnswer (AnsNode (Inl (if is_constraint_error f then ErrAlreadyExists
            else Wrap ''failed to rename node'' (DbErr f)))), db)
      | Inr db' \<Rightarrow> Some (PcReread 2 i, db'))"
| "next_call env ora (OpMove i newparent) PcTarget db =
     Some ((case get_node (db_fails ora 1) db newparent of
        Inl e \<Rightarrow> PcAnswer (AnsNode (Inl e))
      | Inr p \<Rightarrow> (case check_folder p of Inl e \<Rightarrow> PcAnswer (AnsNode (Inl e)) | Inr _ \<Rightarrow> PcWalk 2 newparent)), db)"
| "next_call env ora (OpMove i newparent) (PcWalk k cur) db = Some (walk_turn ora i k cur db, db)"
| "next_call env ora (OpMove i newparent) (PcMove k) db =
     (case update_nodes (db_fails ora k) (\<lambda>r. nr_id r = i) (move_row newparent (secs (clock ora 0))) db of
        Inl f \<Rightarrow> Some (PcAnswer (AnsNode (Inl (if is_constraint_error f then ErrAlreadyExists
            else Wrap ''failed to move node'' (DbErr f)))), db)
      | Inr db' \<Rightarrow> Some (PcReread (Suc k) i, db'))"
| "next_call env ora (OpTrash i) (PcTrash kind) db =
     map_option (\<lambda>(res, db'). (PcAnswer (AnsUnit res), db')) (trash_tx ora i kind db)"
| "next_call env ora (OpRestore i) (PcTarget_of n) db = Some (PcRestore n (restore_target (db_fails ora 1) db n), db)"
| "next_call env ora (OpRestore i) (PcRestore n target) db =
     (case restore_tx ora i n target db of
        None \<Rightarrow> None
      | Some (Inl e) \<Rightarrow> Some (PcAnswer (AnsNode (Inl e)), db)
      | Some (Inr db') \<Rightarrow> Some (PcReread 6 i, db'))"
| "next_call env ora (OpPurge i) PcPurge db =
     map_option (\<lambda>(res, db'). (PcAnswer (AnsKeys res), db')) (purge_tx ora i db)"
| "next_call env ora op (PcReread k i) db = Some (PcAnswer (AnsNode (get_node (db_fails ora k) db i)), db)"
| "next_call env ora op pc db = None"

text \<open>A step of a set of threads: one of them makes its next call.\<close>

inductive race :: "text_env \<Rightarrow> thread list \<times> database \<Rightarrow> thread list \<times> database \<Rightarrow> bool" for env where
  "j < length ts \<Longrightarrow> ts ! j = t \<Longrightarrow> next_call env (th_out t) (th_op t) (th_pc t) db = Some (pc', db') \<Longrightarrow>
   race env (ts, db) (ts[j := t\<lparr>th_pc := pc'\<rparr>], db')"

text \<open>A thread that runs alone, to its answer.\<close>

partial_function (option) run_alone ::
  "text_env \<Rightarrow> outside \<Rightarrow> node_op \<Rightarrow> pc \<Rightarrow> database \<Rightarrow> (answer \<times> database) option" where
  "run_alone env ora op pc db =
     (case pc of
        PcAnswer a \<Rightarrow> Some (a, db)
      | _ \<Rightarrow> (case next_call env ora op pc db of None \<Rightarrow> None | Some (pc', db') \<Rightarrow> run_alone env ora op pc' db'))"

section \<open>A thread that runs alone\<close>

fun sequential :: "text_env \<Rightarrow> outside \<Rightarrow> node_op \<Rightarrow> database \<Rightarrow> (answer \<times> database) option" where
  "sequential env ora (OpCreate parent name) db = Some (map_prod AnsNode id (create_folder env ora parent name db))"
| "sequential env ora (OpRename i newname) db = Some (map_prod AnsNode id (rename_node env ora i newname db))"
| "sequential env ora (OpMove i newparent) db = map_option (map_prod AnsNode id) (move_node ora i newparent db)"
| "sequential env ora (OpTrash i) db = map_option (map_prod AnsUnit id) (trash_node ora i db)"
| "sequential env ora (OpRestore i) db = map_option (map_prod AnsNode id) (restore_node ora i db)"
| "sequential env ora (OpPurge i) db = map_option (map_prod AnsKeys id) (purge_node ora i db)"
| "sequential env ora (OpBackup i sel) db = Some (map_prod AnsUnit id (toggle_backup ora i sel db))"
| "sequential env ora (OpRecover u) db = Some (AnsUnit (Inr ()), phase_c_blind ora u (secs (clock ora 0)) db)"
| "sequential env ora (OpCommit u mime hash) db =
     (case phase_c ora u mime hash (secs (clock ora 2)) db of
        Inl e \<Rightarrow> Some (AnsUnit (Inl e), db) | Inr db' \<Rightarrow> Some (AnsUnit (Inr ()), db'))"

lemma run_answer [simp]: "run_alone env ora op (PcAnswer a) db = Some (a, db)"
  by (simp add: run_alone.simps)

lemma run_call:
  "\<not> (\<exists>a. pc = PcAnswer a) \<Longrightarrow> run_alone env ora op pc db =
     (case next_call env ora op pc db of None \<Rightarrow> None | Some (pc', db') \<Rightarrow> run_alone env ora op pc' db')"
  by (subst run_alone.simps) (cases pc; simp)

lemma run_calls [simp]:
  "run_alone env ora op PcStart db =
     (case start_op env ora op db of None \<Rightarrow> None | Some (pc', db') \<Rightarrow> run_alone env ora op pc' db')"
  "run_alone env ora op (PcReread k i) db = Some (AnsNode (get_node (db_fails ora k) db i), db)"
  by (simp_all add: run_call)

text \<open>The walk of a thread is the walk of the operation, also when it never ends.\<close>

lemma walk_unfold:
  "run_alone env ora (OpMove i q) (PcWalk k cur) db = run_alone env ora (OpMove i q) (walk_turn ora i k cur db) db"
  by (simp add: run_call)

lemma walk_alone_Some:
  assumes "move_walk ora db i k cur = Some r"
  shows "run_alone env ora (OpMove i q) (PcWalk k cur) db =
    (case r of Inl e \<Rightarrow> Some (AnsNode (Inl e), db) | Inr k' \<Rightarrow> run_alone env ora (OpMove i q) (PcMove k') db)"
proof (rule move_walk.raw_induct [where P = "\<lambda>ora db i k cur r. run_alone env ora (OpMove i q) (PcWalk k cur) db =
    (case r of Inl e \<Rightarrow> Some (AnsNode (Inl e), db) | Inr k' \<Rightarrow> run_alone env ora (OpMove i q) (PcMove k') db)", OF _ assms])
  fix walk ora db i k cur r
  assume IH: "\<And>ora db i k cur r. walk ora db i k cur = Some r \<Longrightarrow> run_alone env ora (OpMove i q) (PcWalk k cur) db =
      (case r of Inl e \<Rightarrow> Some (AnsNode (Inl e), db) | Inr k' \<Rightarrow> run_alone env ora (OpMove i q) (PcMove k') db)"
    and eq: "(if cur = i then Some (Inl ErrCycleDetected)
        else (case db_fails ora k of
           Some m \<Rightarrow> Some (Inl (Wrap ''cycle check failed'' (DbErr (ExternalFault m))))
         | None \<Rightarrow>
             (case find_node db cur of
                None \<Rightarrow> Some (Inr (Suc k))
              | Some r \<Rightarrow>
                  (case nr_parent r of
                     None \<Rightarrow> Some (Inr (Suc k))
                   | Some p \<Rightarrow> if p = [] then Some (Inr (Suc k)) else walk ora db i (Suc k) p)))) = Some r"
  show "run_alone env ora (OpMove i q) (PcWalk k cur) db =
      (case r of Inl e \<Rightarrow> Some (AnsNode (Inl e), db) | Inr k' \<Rightarrow> run_alone env ora (OpMove i q) (PcMove k') db)"
  proof (cases "cur = i \<or> db_fails ora k \<noteq> None \<or> (\<forall>s p. find_node db cur = Some s \<longrightarrow> nr_parent s = Some p \<longrightarrow> p = [])")
    case True
    then have "walk_turn ora i k cur db = (case r of Inl e \<Rightarrow> PcAnswer (AnsNode (Inl e)) | Inr k' \<Rightarrow> PcMove k')"
      using eq by (auto simp: walk_turn_def split: if_splits option.splits)
    then show ?thesis by (simp add: walk_unfold split: sum.split)
  next
    case False
    then obtain s p where p: "cur \<noteq> i" "db_fails ora k = None" "find_node db cur = Some s" "nr_parent s = Some p" "p \<noteq> []"
      by auto
    then have "walk_turn ora i k cur db = PcWalk (Suc k) p" "walk ora db i (Suc k) p = Some r"
      using eq by (simp_all add: walk_turn_def)
    with IH [of ora db i "Suc k" p r] show ?thesis by (simp add: walk_unfold)
  qed
qed

lemma walk_alone_returns:
  assumes "run_alone env ora op pc db = Some r" and "op = OpMove i q" and "pc = PcWalk k cur"
  shows "move_walk ora db i k cur \<noteq> None"
proof -
  let ?P = "\<lambda>env ora op pc db r. \<forall>i q k cur. op = OpMove i q \<longrightarrow> pc = PcWalk k cur \<longrightarrow> move_walk ora db i k cur \<noteq> None"
  have "?P env ora op pc db r"
  proof (rule run_alone.raw_induct [where P = ?P, OF _ assms(1)], intro allI impI)
    fix run env ora op pc db r i q k cur
    assume IH: "\<And>env ora op pc db r. run env ora op pc db = Some r \<Longrightarrow> ?P env ora op pc db r"
      and eq: "(case pc of PcAnswer a \<Rightarrow> Some (a, db)
        | _ \<Rightarrow> (case next_call env ora op pc db of None \<Rightarrow> None | Some (pc', db') \<Rightarrow> run env ora op pc' db')) = Some r"
      and op: "op = OpMove i q" "pc = PcWalk k cur"
    from eq op have run: "run env ora op (walk_turn ora i k cur db) db = Some r" by simp
    show "move_walk ora db i k cur \<noteq> None"
    proof (cases "\<exists>p. walk_turn ora i k cur db = PcWalk (Suc k) p")
      case True
      then obtain p where p: "walk_turn ora i k cur db = PcWalk (Suc k) p" by blast
      with IH [OF run] op have "move_walk ora db i (Suc k) p \<noteq> None" by simp
      moreover have "move_walk ora db i k cur = move_walk ora db i (Suc k) p"
        using p by (subst move_walk.simps) (auto simp: walk_turn_def split: if_splits option.splits)
      ultimately show ?thesis by simp
    next
      case False
      then show ?thesis
        by (subst move_walk.simps) (auto simp: walk_turn_def split: if_splits option.splits)
    qed
  qed
  with assms(2,3) show ?thesis by blast
qed

lemma walk_alone:
  "run_alone env ora (OpMove i q) (PcWalk k cur) db =
     (case move_walk ora db i k cur of None \<Rightarrow> None | Some (Inl e) \<Rightarrow> Some (AnsNode (Inl e), db)
      | Some (Inr k') \<Rightarrow> run_alone env ora (OpMove i q) (PcMove k') db)"
proof (cases "move_walk ora db i k cur")
  case None
  then show ?thesis using walk_alone_returns [of env ora "OpMove i q" "PcWalk k cur" db] by (cases "run_alone env ora (OpMove i q) (PcWalk k cur) db") auto
next
  case (Some r)
  from walk_alone_Some [OF this] Some show ?thesis by simp
qed


section \<open>What every interleaving keeps\<close>

text \<open>The constraints the database enforces, as far as node operations can touch them.\<close>

definition constraints_ok :: "database \<Rightarrow> bool" where
  "constraints_ok db \<longleftrightarrow>
     distinct (map nr_id (nodes db)) \<and> siblings_unique (nodes db) \<and> parents_exist (nodes db) \<and>
     distinct (map fr_node (file_objects db)) \<and> distinct (map fr_key (file_objects db)) \<and>
     (\<forall>f \<in> set (file_objects db). fr_node f \<in> nr_id ` set (nodes db))"

lemma files_ok_constraints: "files_ok db \<Longrightarrow> constraints_ok db"
  using tree_ok_parents_exist by (auto simp: files_ok_def constraints_ok_def tree_ok_def)

text \<open>Rewriting rows: ids and the system flag stay, \<open>par\<close> gives the new parents.\<close>

definition rehangs :: "(node_row \<Rightarrow> string option) \<Rightarrow> database \<Rightarrow> database \<Rightarrow> bool" where
  "rehangs par db db' \<longleftrightarrow>
     (\<exists>g. nodes db' = map g (nodes db) \<and>
        (\<forall>r. nr_id (g r) = nr_id r \<and> nr_system (g r) = nr_system r \<and> nr_parent (g r) = par r)) \<and>
     siblings_unique (nodes db') \<and> parents_exist (nodes db') \<and> file_objects db' = file_objects db"

definition adds_row :: "node_row \<Rightarrow> database \<Rightarrow> database \<Rightarrow> bool" where
  "adds_row r db db' \<longleftrightarrow> nodes db' = nodes db @ [r] \<and> nr_id r \<notin> nr_id ` set (nodes db) \<and>
     siblings_unique (nodes db') \<and> parents_exist (nodes db') \<and>
     (file_objects db' = file_objects db \<or>
      (\<exists>f. file_objects db' = file_objects db @ [f] \<and> fr_node f = nr_id r \<and> fr_key f \<notin> fr_key ` set (file_objects db)))"

definition adds_file :: "file_row \<Rightarrow> database \<Rightarrow> database \<Rightarrow> bool" where
  "adds_file f db db' \<longleftrightarrow> nodes db' = nodes db \<and> file_objects db' = file_objects db @ [f] \<and>
     fr_node f \<in> nr_id ` set (nodes db) \<and> fr_node f \<notin> fr_node ` set (file_objects db) \<and>
     fr_key f \<notin> fr_key ` set (file_objects db)"

definition deletes_rows :: "string set \<Rightarrow> database \<Rightarrow> database \<Rightarrow> bool" where
  "deletes_rows ids db db' \<longleftrightarrow>
     nodes db' = delete_where (\<lambda>r. nr_id r \<in> ids) (nodes db) \<and>
     file_objects db' = delete_where (\<lambda>f. fr_node f \<in> ids) (file_objects db) \<and> parents_exist (nodes db')"

definition same_nodes :: "database \<Rightarrow> database \<Rightarrow> bool" where
  "same_nodes db db' \<longleftrightarrow> nodes db' = nodes db \<and> map fr_node (file_objects db') = map fr_node (file_objects db) \<and>
     map fr_key (file_objects db') = map fr_key (file_objects db)"

lemma same_nodes_refl [simp]: "same_nodes db db"
  by (simp add: same_nodes_def)

lemma map_eq_in: "map f xs = map f ys \<Longrightarrow> x \<in> set xs \<Longrightarrow> \<exists>y \<in> set ys. f y = f x"
  by (metis image_iff list.set_map)

lemma same_nodes_constraints: "same_nodes db db' \<Longrightarrow> constraints_ok db \<Longrightarrow> constraints_ok db'"
  by (auto simp: same_nodes_def constraints_ok_def dest!: map_eq_in) metis

lemma rehangs_constraints: "rehangs par db db' \<Longrightarrow> constraints_ok db \<Longrightarrow> constraints_ok db'"
proof -
  assume step: "rehangs par db db'" and ok: "constraints_ok db"
  then have ids: "map nr_id (nodes db') = map nr_id (nodes db)" by (auto simp: rehangs_def)
  then have "nr_id ` set (nodes db') = nr_id ` set (nodes db)" by (metis list.set_map)
  with ids step ok show ?thesis by (simp add: constraints_ok_def rehangs_def)
qed

lemma adds_row_constraints: "adds_row r db db' \<Longrightarrow> constraints_ok db \<Longrightarrow> constraints_ok db'"
  by (auto simp: adds_row_def constraints_ok_def)

lemma adds_file_constraints: "adds_file f db db' \<Longrightarrow> constraints_ok db \<Longrightarrow> constraints_ok db'"
  by (auto simp: adds_file_def constraints_ok_def)

lemma deletes_rows_constraints:
  assumes "deletes_rows ids db db'" and "constraints_ok db"
  shows "constraints_ok db'"
proof -
  have "siblings_unique (delete_where (\<lambda>r. nr_id r \<in> ids) (nodes db))"
    using assms(2) by (auto simp: constraints_ok_def siblings_unique_iff distinct_delete_where)
  with assms show ?thesis
    by (auto simp: deletes_rows_def constraints_ok_def distinct_delete_where)
qed

text \<open>The calls that write.\<close>

lemma update_rehangs:
  assumes "update_nodes flt P f db = Inr db'"
    and "\<And>r. nr_id (f r) = nr_id r" "\<And>r. nr_system (f r) = nr_system r"
  shows "rehangs (\<lambda>r. if P r then nr_parent (f r) else nr_parent r) db db'"
  using assms by (auto simp: rehangs_def update_nodes_Inr update_where_def intro!: exI [of _ "\<lambda>r. if P r then f r else r"])

lemma rehangs_trans:
  assumes "rehangs p1 db db1" and "rehangs nr_parent db1 db'"
  shows "rehangs p1 db db'"
proof -
  from assms(1) obtain g where g: "nodes db1 = map g (nodes db)"
    "\<forall>r. nr_id (g r) = nr_id r \<and> nr_system (g r) = nr_system r \<and> nr_parent (g r) = p1 r" "file_objects db1 = file_objects db"
    by (auto simp: rehangs_def)
  from assms(2) obtain g' where g': "nodes db' = map g' (nodes db1)"
    "\<forall>r. nr_id (g' r) = nr_id r \<and> nr_system (g' r) = nr_system r \<and> nr_parent (g' r) = nr_parent r"
    "siblings_unique (nodes db')" "parents_exist (nodes db')" "file_objects db' = file_objects db1"
    unfolding rehangs_def by blast
  from g g' show ?thesis unfolding rehangs_def
    by (intro conjI exI [of _ "g' \<circ> g"]) simp_all
qed

lemma cascade_rehangs:
  assumes "cascade_trashed flt i t db = Some (Inr db')"
  shows "rehangs nr_parent db db'"
proof -
  from assms obtain ids where "update_nodes None (\<lambda>r. nr_id r \<in> set ids) (set_trashed t) db = Inr db'"
    by (auto simp: cascade_trashed_def split: option.splits)
  from update_rehangs [OF this] show ?thesis by (simp add: set_trashed_def cong: if_cong)
qed

lemma trash_tx_effect:
  assumes "trash_tx ora i kind db = Some (res, db')"
  shows "db' = db \<or> rehangs (\<lambda>r. if nr_id r = i then Some trash_root_id else nr_parent r) db db'"
proof (cases "db' = db")
  case False
  with assms obtain db1 where upd: "update_nodes (db_fails ora 2) (\<lambda>r. nr_id r = i) (trash_row (secs (clock ora 0))) db = Inr db1"
    and casc: "(if kind = KindFolder then cascade_trashed (db_fails ora 3) i (Some (secs (clock ora 0))) db1 else Some (Inr db1)) = Some (Inr db')"
    by (auto simp: trash_tx_def split: sum.splits option.splits)
  from update_rehangs [OF upd] have "rehangs (\<lambda>r. if nr_id r = i then Some trash_root_id else nr_parent r) db db1"
    by (simp add: trash_row_def cong: if_cong)
  with casc cascade_rehangs rehangs_trans show ?thesis by (metis option.inject sum.inject(2))
qed simp

lemma restore_tx_effect:
  assumes "restore_tx ora i n p db = Some (Inr db')"
  shows "rehangs (\<lambda>r. if nr_id r = i then Some p else nr_parent r) db db'"
proof -
  from assms obtain db1 where upd: "update_nodes (db_fails ora 3) (\<lambda>r. nr_id r = i) (restore_row p (secs (clock ora 0))) db = Inr db1"
    and casc: "(if n_kind n = KindFolder then cascade_trashed (db_fails ora 4) i None db1 else Some (Inr db1)) = Some (Inr db')"
    by (auto simp: restore_tx_def split: sum.splits option.splits)
  from update_rehangs [OF upd] have "rehangs (\<lambda>r. if nr_id r = i then Some p else nr_parent r) db db1"
    by (simp add: restore_row_def cong: if_cong)
  with casc cascade_rehangs rehangs_trans show ?thesis by (metis option.inject sum.inject(2))
qed

lemma delete_node_parents:
  assumes "delete_node i db = Inr db'" and "parents_exist (nodes db)"
  shows "parents_exist (nodes db')"
  unfolding parents_exist_iff
proof (intro ballI allI impI)
  fix r p assume r: "r \<in> set (nodes db')" "nr_parent r = Some p"
  from assms(1) have rows: "nodes db' = delete_where (\<lambda>r. nr_id r = i) (nodes db)"
    and free: "\<And>r. r \<in> set (nodes db') \<Longrightarrow> nr_parent r \<noteq> Some i"
    by (auto simp: delete_node_def Let_def list_ex_iff split: if_splits)
  from free r have "p \<noteq> i" by auto
  moreover have "p \<in> nr_id ` set (nodes db)" using r rows assms(2) by (auto simp: parents_exist_iff)
  ultimately show "p \<in> nr_id ` set (nodes db')" by (auto simp: rows)
qed

lemma delete_each_parents: "delete_each is db = Inr db' \<Longrightarrow> parents_exist (nodes db) \<Longrightarrow> parents_exist (nodes db')"
  by (induction "is" arbitrary: db) (auto split: sum.splits dest: delete_node_parents)

lemma purge_tx_effect:
  assumes "purge_tx ora i db = Some (res, db')" and "parents_exist (nodes db)"
  shows "db' = db \<or> (\<exists>ids del. subtree (nodes db) i = Some ids \<and> del \<subseteq> set ids \<and> deletes_rows del db db')"
proof (cases "db' = db")
  case False
  with assms(1) obtain ids where ids: "subtree (nodes db) i = Some ids" "delete_nodes None ids db = Inr db'"
    by (auto simp: purge_tx_def delete_subtree_def split: sum.splits option.splits)
  define del where "del = map nr_id (filter (\<lambda>r. nr_id r \<in> set ids) (nodes db))"
  have each: "delete_each del db = Inr db'" using ids(2) by (simp add: delete_nodes_def del_def)
  have "deletes_rows (set del) db db'"
    using delete_each_rows [OF each] delete_each_parents [OF each assms(2)] by (simp add: deletes_rows_def)
  moreover have "set del \<subseteq> set ids" by (auto simp: del_def)
  ultimately show ?thesis using ids(1) by blast
qed simp

lemma insert_adds: "insert_node flt r db = Inr db' \<Longrightarrow> adds_row r db db'"
  by (auto simp: insert_node_Inr adds_row_def)

lemma commit_adds:
  assumes "phase_c ora u mime hash now db = Inr db'"
  shows "adds_row (upload_node (uuid ora 0) u now) db db'"
  using assms
  by (rule phase_c_Inr)
    (auto simp: adds_row_def insert_node_Inr insert_file_Inr update_upload_Inr upload_file_def upload_node_def new_node_def)

text \<open>A recovery drops the errors of its statements, so each of them may be missing.\<close>

lemma recover_adds:
  assumes ok: "constraints_ok db"
  shows "same_nodes db (phase_c_blind ora u now db) \<or> adds_row (upload_node (uuid ora 0) u now) db (phase_c_blind ora u now db) \<or>
    (\<exists>f. adds_file f db (phase_c_blind ora u now db))"
proof (cases "phase_c_blind ora u now db = db")
  case False
  let ?r = "upload_node (uuid ora 0) u now"
  define f where "f = upload_file (uuid ora 0) u octet_stream (case up_sha u of None \<Rightarrow> [] | Some h \<Rightarrow> h) now"
  define db1 where "db1 = attempt (insert_node (db_fails ora 2) ?r db) db"
  define db2 where "db2 = attempt (insert_file (db_fails ora 3) f db1) db1"
  have close: "nodes (attempt (update_upload flt i g d) d) = nodes d \<and>
      file_objects (attempt (update_upload flt i g d) d) = file_objects d" for flt i g d
    by (auto simp: attempt_def update_upload_Inr split: sum.split)
  with False have rows: "nodes (phase_c_blind ora u now db) = nodes db2" "file_objects (phase_c_blind ora u now db) = file_objects db2"
    by (auto simp: phase_c_blind_def Let_def db2_def db1_def f_def split: sum.splits)
  have second: "db2 = db1 \<or> adds_file f db1 db2"
    by (auto simp: db2_def attempt_def insert_file_Inr adds_file_def split: sum.split)
  have first: "db1 = db \<or> adds_row ?r db db1 \<and> file_objects db1 = file_objects db"
    by (auto simp: db1_def attempt_def insert_node_Inr adds_row_def split: sum.split)
  have "fr_node f = nr_id ?r" by (simp add: f_def upload_file_def upload_node_def new_node_def)
  with first second rows show ?thesis
    by (auto simp: adds_row_def adds_file_def same_nodes_def)
qed simp

lemma backup_same: "toggle_backup ora i sel db = (res, db') \<Longrightarrow> same_nodes db db'"
  by (auto simp: toggle_backup_def same_nodes_def update_files_Inr backup_row_def update_where_map_same split: sum.splits if_splits)

text \<open>What a call of each operation may write.\<close>

lemma start_effect:
  assumes "start_op env ora op db = Some (pc', db')"
    and "constraints_ok db"
  shows "same_nodes db db' \<or> (\<exists>u mime hash. op = OpCommit u mime hash \<and> adds_row (upload_node (uuid ora 0) u (secs (clock ora 2))) db db') \<or>
    (\<exists>u. op = OpRecover u \<and> adds_row (upload_node (uuid ora 0) u (secs (clock ora 0))) db db') \<or> (\<exists>f. adds_file f db db')"
proof (cases op)
  case (OpRecover u)
  with assms recover_adds [OF assms(2)] show ?thesis by auto
qed (use assms in \<open>auto dest: backup_same commit_adds split: prod.splits sum.splits\<close>)

lemma call_effect:
  assumes call: "next_call env ora op pc db = Some (pc', db')" and ok: "constraints_ok db" and pc: "pc \<noteq> PcStart"
  shows "same_nodes db db' \<or>
    (\<exists>parent name disp key. op = OpCreate parent name \<and>
       adds_row (new_node (uuid ora 0) (target_parent parent) KindFolder disp key (secs (clock ora 0))) db db') \<or>
    (\<exists>i newname. op = OpRename i newname \<and> rehangs nr_parent db db') \<or>
    (\<exists>i q k. op = OpMove i q \<and> pc = PcMove k \<and> rehangs (\<lambda>r. if nr_id r = i then Some q else nr_parent r) db db') \<or>
    (\<exists>i kind. op = OpTrash i \<and> pc = PcTrash kind \<and> rehangs (\<lambda>r. if nr_id r = i then Some trash_root_id else nr_parent r) db db') \<or>
    (\<exists>i p. op = OpRestore i \<and> rehangs (\<lambda>r. if nr_id r = i then Some p else nr_parent r) db db') \<or>
    (\<exists>i ids del. op = OpPurge i \<and> pc = PcPurge \<and> subtree (nodes db) i = Some ids \<and> del \<subseteq> set ids \<and> deletes_rows del db db')"
proof (cases op)
  case (OpCreate parent name)
  with call pc show ?thesis by (cases pc) (auto dest: insert_adds split: sum.splits)
next
  case (OpRename i newname)
  have "rehangs nr_parent db db'" if "update_nodes flt P (rename_row d k t) db = Inr db'" for flt P d k t
    using update_rehangs [OF that] by (simp add: rename_row_def cong: if_cong)
  with OpRename call pc show ?thesis by (cases pc) (auto split: sum.splits)
next
  case (OpMove i q)
  have "rehangs (\<lambda>r. if nr_id r = i then Some q else nr_parent r) db db'" if "update_nodes flt (\<lambda>r. nr_id r = i) (move_row q t) db = Inr db'" for flt t
    using update_rehangs [OF that] by (simp add: move_row_def cong: if_cong)
  with OpMove call pc show ?thesis by (cases pc) (auto split: sum.splits)
next
  case (OpTrash i)
  with call pc show ?thesis by (cases pc) (auto dest: trash_tx_effect)
next
  case (OpRestore i)
  with call pc show ?thesis by (cases pc) (auto dest: restore_tx_effect split: option.splits sum.splits)
next
  case (OpPurge i)
  with call pc ok show ?thesis by (cases pc) (auto simp: constraints_ok_def dest: purge_tx_effect)
qed (use call pc in \<open>cases pc; simp\<close>)+

lemmas keeps_constraints = same_nodes_constraints rehangs_constraints adds_row_constraints adds_file_constraints deletes_rows_constraints

lemma call_constraints:
  assumes call: "next_call env ora op pc db = Some (pc', db')" and ok: "constraints_ok db"
  shows "constraints_ok db'"
proof (cases "pc = PcStart")
  case True
  with call have "start_op env ora op db = Some (pc', db')" by simp
  from start_effect [OF this ok] show ?thesis
    by (elim disjE exE conjE) (blast intro: keeps_constraints [OF _ ok])+
next
  case False
  from call_effect [OF call ok False] show ?thesis
    by (elim disjE exE conjE) (blast intro: keeps_constraints [OF _ ok])+
qed

lemma race_constraints: "race env s s' \<Longrightarrow> constraints_ok (snd s) \<Longrightarrow> constraints_ok (snd s')"
  by (auto elim!: race.cases intro: call_constraints)

interpretation racing_constraints: invariant_system "\<lambda>s. files_ok (snd s)" "race env" "\<lambda>s. constraints_ok (snd s)" for env
  by unfold_locales (auto simp: files_ok_constraints race_constraints)

end
