(* ===== verification/Race_Tree.thy ===== *)
theory Race_Tree
  imports Races
begin

text \<open>
  What the tree keeps when requests run at the same time and at most one of them moves a node:
  no node becomes its own ancestor. A move decides on what its walk has read, so the invariant
  says of a thread in its walk that it is still on the only path it could find a cycle on, and
  the steps of the other threads add no edge to that path.
\<close>

section \<open>One move at a time\<close>

definition roots_ok :: "node_row list \<Rightarrow> bool" where
  "roots_ok rows \<longleftrightarrow> (\<forall>i \<in> system_ids. i \<in> nr_id ` set rows) \<and>
     (\<forall>r \<in> set rows. (nr_system r \<longleftrightarrow> nr_id r \<in> system_ids) \<and> (nr_id r \<in> system_ids \<longrightarrow> nr_parent r = None))"

definition core_ok :: "database \<Rightarrow> bool" where
  "core_ok db \<longleftrightarrow> constraints_ok db \<and> roots_ok (nodes db) \<and> acyclic (par_rel (nodes db)) \<and> [] \<notin> nr_id ` set (nodes db)"

lemma files_ok_core: "files_ok db \<Longrightarrow> core_ok db"
proof -
  assume ok: "files_ok db"
  then have tree: "tree_ok (nodes db)" by blast
  have "roots_ok (nodes db)"
    unfolding roots_ok_def
  proof (intro conjI ballI)
    show "i \<in> nr_id ` set (nodes db)" if "i \<in> system_ids" for i
      using system_row_exists [OF tree that] by auto
    show "nr_system r \<longleftrightarrow> nr_id r \<in> system_ids" if "r \<in> set (nodes db)" for r
      using tree_okD(6) [OF tree] that by (simp add: system_ok_def)
    show "nr_id r \<in> system_ids \<longrightarrow> nr_parent r = None" if "r \<in> set (nodes db)" for r
      using tree_okD(5) [OF tree that] by (auto simp: parent_ok_def split: option.splits)
  qed
  with ok tree files_ok_constraints show ?thesis by (simp add: core_ok_def tree_ok_def)
qed

lemma root_no_parent: "roots_ok rows \<Longrightarrow> t \<in> system_ids \<Longrightarrow> (t, p) \<notin> par_rel rows"
  by (auto simp: roots_ok_def par_rel_iff)

lemma parent_in_table: "constraints_ok db \<Longrightarrow> (c, p) \<in> par_rel (nodes db) \<Longrightarrow> p \<in> nr_id ` set (nodes db)"
  by (auto simp: constraints_ok_def parents_exist_iff par_rel_iff)

lemma one_parent: "constraints_ok db \<Longrightarrow> (c, p) \<in> par_rel (nodes db) \<Longrightarrow> (c, p') \<in> par_rel (nodes db) \<Longrightarrow> p = p'"
  by (auto simp: constraints_ok_def par_rel_iff dest: key_inj)

text \<open>Edges that are new lead to the trash folder or belong to a new leaf.\<close>

definition edges_kept :: "string \<Rightarrow> node_row list \<Rightarrow> node_row list \<Rightarrow> bool" where
  "edges_kept q rows rows' \<longleftrightarrow>
     (\<forall>(x, y) \<in> par_rel rows'. (x, y) \<in> par_rel rows \<or> y = trash_root_id \<or> (x \<noteq> q \<and> (\<forall>z. (z, x) \<notin> par_rel rows')))"

lemma kept_path:
  assumes kept: "edges_kept q rows rows'" and roots: "roots_ok rows'" and i: "i \<notin> system_ids"
    and path: "(q, i) \<in> (par_rel rows')\<^sup>*"
  shows "(q, i) \<in> (par_rel rows \<inter> par_rel rows')\<^sup>*"
proof -
  have "x = q \<or> (\<exists>z. (z, x) \<in> par_rel rows') \<longrightarrow> (x, i) \<in> (par_rel rows \<inter> par_rel rows')\<^sup>*"
    if "(x, i) \<in> (par_rel rows')\<^sup>*" for x
    using that
  proof (induction rule: converse_rtrancl_induct)
    case (step x y)
    show ?case
    proof
      assume reached: "x = q \<or> (\<exists>z. (z, x) \<in> par_rel rows')"
      have "y \<noteq> trash_root_id"
      proof
        assume "y = trash_root_id"
        then have "(y, z) \<notin> par_rel rows'" for z using root_no_parent [OF roots root_in_system(2)] by simp
        with step(2) have "y = i" by (auto elim: converse_rtranclE)
        with \<open>y = trash_root_id\<close> i show False by simp
      qed
      with kept step(1) reached have "(x, y) \<in> par_rel rows" by (auto simp: edges_kept_def)
      with step(1,3) show "(x, i) \<in> (par_rel rows \<inter> par_rel rows')\<^sup>*"
        by (meson IntI converse_rtrancl_into_rtrancl)
    qed
  qed simp
  with path show ?thesis by blast
qed

text \<open>The walk is on the only path from the target to the node it looks for, if there is one.\<close>

definition on_path :: "node_row list \<Rightarrow> string \<Rightarrow> string \<Rightarrow> string \<Rightarrow> bool" where
  "on_path rows i q cur \<longleftrightarrow>
     ((q, i) \<in> (par_rel rows)\<^sup>* \<longrightarrow> (q, cur) \<in> (par_rel rows)\<^sup>* \<and> (cur, i) \<in> (par_rel rows)\<^sup>*)"

lemma between:
  assumes "(q, i) \<in> S\<^sup>*" and "S \<subseteq> R" and single: "\<And>x y z. (x, y) \<in> R \<Longrightarrow> (x, z) \<in> R \<Longrightarrow> y = z" and "acyclic R"
    and "(q, m) \<in> R\<^sup>*" "(m, i) \<in> R\<^sup>*"
  shows "(q, m) \<in> S\<^sup>* \<and> (m, i) \<in> S\<^sup>*"
  using assms(1,5)
proof (induction rule: converse_rtrancl_induct)
  case base
  have "m = i"
  proof (rule ccontr)
    assume "m \<noteq> i"
    with base assms(6) have "(i, i) \<in> R\<^sup>+" by (meson rtranclD rtrancl_trancl_trancl)
    with assms(4) show False by (auto simp: acyclic_def)
  qed
  then show ?case by simp
next
  case (step q y)
  show ?case
  proof (cases "m = q")
    case True
    with step(1,2) show ?thesis by (auto intro: converse_rtrancl_into_rtrancl)
  next
    case False
    with step.prems obtain y' where "(q, y') \<in> R" "(y', m) \<in> R\<^sup>*" by (auto elim: converse_rtranclE)
    moreover from this(1) step(1) assms(2) single have "y' = y" by blast
    ultimately show ?thesis using step(1) step.IH by (auto intro: converse_rtrancl_into_rtrancl)
  qed
qed

lemma on_path_kept:
  assumes kept: "edges_kept q (nodes db) (nodes db')" and core: "core_ok db" and roots: "roots_ok (nodes db')"
    and i: "i \<notin> system_ids" and path: "on_path (nodes db) i q cur"
  shows "on_path (nodes db') i q cur"
  unfolding on_path_def
proof
  let ?S = "par_rel (nodes db) \<inter> par_rel (nodes db')"
  assume "(q, i) \<in> (par_rel (nodes db'))\<^sup>*"
  from kept_path [OF kept roots i this] have s: "(q, i) \<in> ?S\<^sup>*" .
  then have "(q, i) \<in> (par_rel (nodes db))\<^sup>*" by (rule rtrancl_mono [THEN subsetD, rotated]) simp
  with path have "(q, cur) \<in> (par_rel (nodes db))\<^sup>*" "(cur, i) \<in> (par_rel (nodes db))\<^sup>*" by (simp_all add: on_path_def)
  moreover have "y = z" if "(x, y) \<in> par_rel (nodes db)" "(x, z) \<in> par_rel (nodes db)" for x y z
    using one_parent [of db x y z] that core by (simp add: core_ok_def)
  moreover have "acyclic (par_rel (nodes db))" using core by (simp add: core_ok_def)
  ultimately have "(q, cur) \<in> ?S\<^sup>* \<and> (cur, i) \<in> ?S\<^sup>*"
    using between [OF s, of "par_rel (nodes db)" cur] by blast
  then show "(q, cur) \<in> (par_rel (nodes db'))\<^sup>* \<and> (cur, i) \<in> (par_rel (nodes db'))\<^sup>*"
    using rtrancl_mono [of ?S "par_rel (nodes db')"] by auto
qed

lemma not_below_kept:
  assumes "edges_kept q (nodes db) (nodes db')" and "roots_ok (nodes db')" and "i \<notin> system_ids"
    and "(q, i) \<notin> (par_rel (nodes db))\<^sup>*"
  shows "(q, i) \<notin> (par_rel (nodes db'))\<^sup>*"
  using kept_path [OF assms(1-3)] assms(4) rtrancl_mono [of "par_rel (nodes db) \<inter> par_rel (nodes db')" "par_rel (nodes db)"] by auto

lemma walk_turn_ok:
  assumes core: "core_ok db" and path: "on_path (nodes db) i q cur"
  shows "case walk_turn ora i k cur db of
      PcWalk k' p \<Rightarrow> on_path (nodes db) i q p | PcMove k' \<Rightarrow> (q, i) \<notin> (par_rel (nodes db))\<^sup>* | _ \<Rightarrow> True"
proof -
  have dist: "distinct (map nr_id (nodes db))" using core by (simp add: core_ok_def constraints_ok_def)
  have next_on: "on_path (nodes db) i q p" if "cur \<noteq> i" "find_node db cur = Some r" "nr_parent r = Some p" for r p
    unfolding on_path_def
  proof
    from that have edge: "(cur, p) \<in> par_rel (nodes db)" by (auto simp: par_rel_iff dest: find_nodeD)
    assume "(q, i) \<in> (par_rel (nodes db))\<^sup>*"
    with path have *: "(q, cur) \<in> (par_rel (nodes db))\<^sup>*" "(cur, i) \<in> (par_rel (nodes db))\<^sup>*" by (simp_all add: on_path_def)
    with that(1) obtain p' where "(cur, p') \<in> par_rel (nodes db)" "(p', i) \<in> (par_rel (nodes db))\<^sup>*"
      by (auto elim: converse_rtranclE)
    with one_parent [OF _ edge this(1)] core * edge show "(q, p) \<in> (par_rel (nodes db))\<^sup>* \<and> (p, i) \<in> (par_rel (nodes db))\<^sup>*"
      by (auto simp: core_ok_def intro: rtrancl_into_rtrancl)
  qed
  have stop: "(q, i) \<notin> (par_rel (nodes db))\<^sup>*"
    if "cur \<noteq> i" "\<And>r p. find_node db cur = Some r \<Longrightarrow> nr_parent r = Some p \<Longrightarrow> p = []"
  proof
    assume "(q, i) \<in> (par_rel (nodes db))\<^sup>*"
    with path that(1) obtain p where p: "(cur, p) \<in> par_rel (nodes db)"
      by (auto simp: on_path_def elim: converse_rtranclE)
    then obtain r where "r \<in> set (nodes db)" "nr_id r = cur" "nr_parent r = Some p" by (auto simp: par_rel_iff)
    then have "find_node db cur = Some r" using dist by (simp add: find_node_def lookup_by_eq_Some)
    with that(2) \<open>nr_parent r = Some p\<close> have "p = []" by blast
    with parent_in_table [OF _ p] core show False by (simp add: core_ok_def)
  qed
  show ?thesis
  proof (cases "cur = i \<or> db_fails ora k \<noteq> None \<or> (\<exists>r p. find_node db cur = Some r \<and> nr_parent r = Some p \<and> p \<noteq> [])")
    case True
    then show ?thesis using next_on by (auto simp: walk_turn_def split: option.split)
  next
    case False
    then have "walk_turn ora i k cur db = PcMove (Suc k)"
      by (auto simp: walk_turn_def split: option.split)
    moreover have "(q, i) \<notin> (par_rel (nodes db))\<^sup>*" using False by (intro stop) auto
    ultimately show ?thesis by simp
  qed
qed

text \<open>Each kind of write keeps the core and, except a move, the edges.\<close>

lemma core_same:
  assumes "same_nodes db db'" and "core_ok db"
  shows "core_ok db' \<and> edges_kept q (nodes db) (nodes db')"
  using assms same_nodes_constraints [OF assms(1)] by (auto simp: core_ok_def same_nodes_def edges_kept_def)

lemma core_rehang:
  assumes step: "rehangs (\<lambda>r. if nr_id r = i then Some p else nr_parent r) db db'" and core: "core_ok db"
    and i: "i \<notin> system_ids" and no: "(p, i) \<notin> (par_rel (nodes db))\<^sup>*"
  shows "core_ok db' \<and> (p = trash_root_id \<longrightarrow> edges_kept q (nodes db) (nodes db'))"
proof -
  from step obtain g where g: "nodes db' = map g (nodes db)"
    "\<And>r. nr_id (g r) = nr_id r" "\<And>r. nr_system (g r) = nr_system r"
    "\<And>r. nr_parent (g r) = (if nr_id r = i then Some p else nr_parent r)"
    unfolding rehangs_def by blast
  have edges: "par_rel (nodes db') \<subseteq> insert (i, p) (par_rel (nodes db))"
    by (auto simp: g(1) par_rel_iff g(2,4) split: if_splits)
  have "acyclic (par_rel (nodes db'))"
    unfolding g(1) using core by (intro acyclic_reparent [OF _ no g(2)]) (simp_all add: core_ok_def g(4))
  moreover have "roots_ok (nodes db')"
    using core i by (auto simp: core_ok_def roots_ok_def g image_image)
  moreover have "[] \<notin> nr_id ` set (nodes db')" using core by (auto simp: core_ok_def g image_image)
  ultimately show ?thesis
    using rehangs_constraints [OF step] core edges by (auto simp: core_ok_def edges_kept_def)
qed

lemma core_rehang_same:
  assumes step: "rehangs nr_parent db db'" and core: "core_ok db"
  shows "core_ok db' \<and> edges_kept q (nodes db) (nodes db')"
proof -
  from step obtain g where g: "nodes db' = map g (nodes db)"
    "\<And>r. nr_id (g r) = nr_id r" "\<And>r. nr_system (g r) = nr_system r" "\<And>r. nr_parent (g r) = nr_parent r"
    unfolding rehangs_def by blast
  have rel: "par_rel (nodes db') = par_rel (nodes db)" unfolding g(1) by (rule par_rel_map [OF g(2,4)])
  have "roots_ok (nodes db')" using core by (auto simp: core_ok_def roots_ok_def g image_image)
  moreover have "[] \<notin> nr_id ` set (nodes db')" using core by (auto simp: core_ok_def g image_image)
  ultimately show ?thesis
    using rehangs_constraints [OF step] core rel by (auto simp: core_ok_def edges_kept_def)
qed

lemma core_add:
  assumes step: "adds_row r db db'" and core: "core_ok db"
    and r: "nr_parent r = Some p" "nr_id r \<notin> {[], p}" "\<not> nr_system r"
  shows "core_ok db' \<and> (nr_id r \<noteq> q \<longrightarrow> edges_kept q (nodes db) (nodes db'))"
proof -
  have new: "nodes db' = nodes db @ [r]" "nr_id r \<notin> nr_id ` set (nodes db)" using step by (simp_all add: adds_row_def)
  have rel: "par_rel (nodes db') = insert (nr_id r, p) (par_rel (nodes db))"
    using r(1) by (auto simp: new par_rel_def)
  have leaf: "(z, nr_id r) \<notin> par_rel (nodes db)" for z
    using core new(2) parent_in_table by (auto simp: core_ok_def)
  have "(p, nr_id r) \<notin> (par_rel (nodes db))\<^sup>*"
  proof
    assume "(p, nr_id r) \<in> (par_rel (nodes db))\<^sup>*"
    then show False using leaf r(2) by (auto elim: rtranclE)
  qed
  then have "acyclic (par_rel (nodes db'))" using core by (simp add: rel acyclic_insert core_ok_def)
  moreover have "nr_id r \<notin> system_ids" using core new(2) by (auto simp: core_ok_def roots_ok_def)
  then have "roots_ok (nodes db')" using core r(3) by (auto simp: core_ok_def roots_ok_def new)
  moreover have "[] \<notin> nr_id ` set (nodes db')" using core r(2) by (auto simp: core_ok_def new)
  moreover have "edges_kept q (nodes db) (nodes db')" if "nr_id r \<noteq> q"
    using leaf r(2) that by (auto simp: edges_kept_def rel)
  ultimately show ?thesis using adds_row_constraints [OF step] core by (simp add: core_ok_def)
qed

lemma core_add_file: "adds_file f db db' \<Longrightarrow> core_ok db \<Longrightarrow> core_ok db' \<and> edges_kept q (nodes db) (nodes db')"
  using adds_file_constraints by (auto simp: core_ok_def edges_kept_def adds_file_def)

lemma core_delete:
  assumes step: "deletes_rows del db db'" and core: "core_ok db" and del: "del \<inter> system_ids = {}"
  shows "core_ok db' \<and> edges_kept q (nodes db) (nodes db')"
proof -
  have rows: "nodes db' = delete_where (\<lambda>r. nr_id r \<in> del) (nodes db)" using step by (simp add: deletes_rows_def)
  have sub: "par_rel (nodes db') \<subseteq> par_rel (nodes db)" by (auto simp: rows par_rel_def)
  then have "acyclic (par_rel (nodes db'))" using core by (auto simp: core_ok_def intro: acyclic_subset)
  moreover have "roots_ok (nodes db')"
    using core del by (fastforce simp: core_ok_def roots_ok_def rows)
  moreover have "[] \<notin> nr_id ` set (nodes db')" using core by (auto simp: core_ok_def rows)
  ultimately show ?thesis
    using deletes_rows_constraints [OF step] core sub by (auto simp: core_ok_def edges_kept_def)
qed

text \<open>What a thread has established before its next call.\<close>

definition thread_ok :: "node_row list \<Rightarrow> thread \<Rightarrow> bool" where
  "thread_ok rows t \<longleftrightarrow>
     (case th_op t of
        OpMove i q \<Rightarrow>
          (case th_pc t of
             PcTarget \<Rightarrow> i \<notin> system_ids
           | PcWalk k cur \<Rightarrow> i \<notin> system_ids \<and> on_path rows i q cur
           | PcMove k \<Rightarrow> i \<notin> system_ids \<and> (q, i) \<notin> (par_rel rows)\<^sup>*
           | _ \<Rightarrow> True)
      | OpTrash i \<Rightarrow> (\<forall>kind. th_pc t = PcTrash kind \<longrightarrow> i \<notin> system_ids)
      | OpPurge i \<Rightarrow> (th_pc t = PcPurge \<longrightarrow> i \<notin> system_ids)
      | _ \<Rightarrow> True)"

definition targets :: "thread list \<Rightarrow> string set" where
  "targets ts = {q. \<exists>t \<in> set ts. \<exists>i. th_op t = OpMove i q}"

lemma targets_image: "targets ts = {q. \<exists>op \<in> th_op ` set ts. \<exists>i. op = OpMove i q}"
  by (auto simp: targets_def)

lemma targets_ops: "map th_op ts = map th_op ts' \<Longrightarrow> targets ts = targets ts'"
  by (simp only: targets_image list.set_map [symmetric])

text \<open>Fresh ids name none of the nodes that the requests name.\<close>

definition fresh_uuids :: "thread list \<Rightarrow> bool" where
  "fresh_uuids ts \<longleftrightarrow>
     (\<forall>t \<in> set ts.
        case th_op t of
          OpCreate parent name \<Rightarrow> uuid (th_out t) 0 \<notin> {[], target_parent parent} \<union> targets ts
        | OpCommit u mime hash \<Rightarrow> uuid (th_out t) 0 \<notin> {[], up_parent u} \<union> targets ts
        | OpRecover u \<Rightarrow> uuid (th_out t) 0 \<notin> {[], up_parent u} \<union> targets ts
        | _ \<Rightarrow> True)"

text \<open>At most one thread moves a node and none restores one.\<close>

definition one_move :: "thread list \<Rightarrow> bool" where
  "one_move ts \<longleftrightarrow> (\<forall>t \<in> set ts. \<not> is_OpRestore (th_op t)) \<and>
     (\<forall>j k. j < length ts \<longrightarrow> k < length ts \<longrightarrow> is_OpMove (th_op (ts ! j)) \<longrightarrow> is_OpMove (th_op (ts ! k)) \<longrightarrow> j = k)"

lemma not_system_row:
  assumes "core_ok db" and "get_node flt db i = Inr n" and "\<not> n_system n"
  shows "i \<notin> system_ids"
  using assms by (auto simp: get_node_Inr core_ok_def roots_ok_def dest!: find_nodeD)

lemma subtree_no_system:
  assumes "core_ok db" and "i \<notin> system_ids" and "subtree (nodes db) i = Some ids"
  shows "set ids \<inter> system_ids = {}"
proof -
  have "(d, i) \<notin> (par_rel (nodes db))\<^sup>*" if "d \<in> system_ids" for d
  proof
    assume "(d, i) \<in> (par_rel (nodes db))\<^sup>*"
    with root_no_parent [of "nodes db" d] that assms(1) have "d = i" by (auto simp: core_ok_def elim: converse_rtranclE)
    with that assms(2) show False by simp
  qed
  with subtree_eq [OF assms(3)] show ?thesis by auto
qed

text \<open>One call of a thread.\<close>

lemma call_core:
  assumes call: "next_call env (th_out t) (th_op t) (th_pc t) db = Some (pc', db')"
    and core: "core_ok db" and t: "thread_ok (nodes db) t" "\<not> is_OpRestore (th_op t)"
    and new: "fresh_uuids ts" "t \<in> set ts"
  shows "core_ok db'" and "\<not> is_OpMove (th_op t) \<Longrightarrow> q \<in> targets ts \<Longrightarrow> edges_kept q (nodes db) (nodes db')"
proof -
  let ?ok = "core_ok db' \<and> (\<not> is_OpMove (th_op t) \<longrightarrow> q \<in> targets ts \<longrightarrow> edges_kept q (nodes db) (nodes db'))"
  note new_t = new(1) [unfolded fresh_uuids_def, rule_format, OF new(2)]
  have constraints: "constraints_ok db" using core by (simp add: core_ok_def)
  have ?ok
  proof (cases "th_pc t = PcStart")
    case True
    with call have "start_op env (th_out t) (th_op t) db = Some (pc', db')" by simp
    from start_effect [OF this constraints] show ?thesis
    proof (elim disjE exE conjE)
      assume "same_nodes db db'"
      from core_same [OF this core] show ?thesis by blast
    next
      fix u mime hash assume op: "th_op t = OpCommit u mime hash"
        and add: "adds_row (upload_node (uuid (th_out t) 0) u (secs (clock (th_out t) 2))) db db'"
      with op new_t core_add [OF add core, of "up_parent u" q] show ?thesis by (auto simp: upload_node_def new_node_def)
    next
      fix u assume op: "th_op t = OpRecover u"
        and add: "adds_row (upload_node (uuid (th_out t) 0) u (secs (clock (th_out t) 0))) db db'"
      with op new_t core_add [OF add core, of "up_parent u" q] show ?thesis by (auto simp: upload_node_def new_node_def)
    next
      fix f assume "adds_file f db db'"
      from core_add_file [OF this core] show ?thesis by blast
    qed
  next
    case False
    from call_effect [OF call constraints False] show ?thesis
    proof (elim disjE exE conjE)
      assume "same_nodes db db'"
      from core_same [OF this core] show ?thesis by blast
    next
      fix parent name disp key assume op: "th_op t = OpCreate parent name"
        and add: "adds_row (new_node (uuid (th_out t) 0) (target_parent parent) KindFolder disp key (secs (clock (th_out t) 0))) db db'"
      with op new_t core_add [OF add core, of "target_parent parent" q] show ?thesis by (auto simp: new_node_def)
    next
      fix i newname assume "rehangs nr_parent db db'"
      from core_rehang_same [OF this core] show ?thesis by blast
    next
      fix i p k assume op: "th_op t = OpMove i p" "th_pc t = PcMove k"
        and step: "rehangs (\<lambda>r. if nr_id r = i then Some p else nr_parent r) db db'"
      with t(1) core_rehang [OF step core] show ?thesis by (simp add: thread_ok_def)
    next
      fix i kind assume op: "th_op t = OpTrash i" "th_pc t = PcTrash kind"
        and step: "rehangs (\<lambda>r. if nr_id r = i then Some trash_root_id else nr_parent r) db db'"
      with t(1) have i: "i \<notin> system_ids" by (simp add: thread_ok_def)
      have "(trash_root_id, i) \<notin> (par_rel (nodes db))\<^sup>*"
        using i core root_no_parent [of "nodes db" trash_root_id] by (auto simp: core_ok_def elim: converse_rtranclE)
      from core_rehang [OF step core i this] show ?thesis by blast
    next
      fix i p assume "th_op t = OpRestore i"
      with t(2) show ?thesis by simp
    next
      fix i ids del assume op: "th_op t = OpPurge i" "th_pc t = PcPurge"
        and del: "subtree (nodes db) i = Some ids" "del \<subseteq> set ids" "deletes_rows del db db'"
      with t(1) have "i \<notin> system_ids" by (simp add: thread_ok_def)
      from subtree_no_system [OF core this del(1)] del(2) have "del \<inter> system_ids = {}" by blast
      from core_delete [OF del(3) core this] show ?thesis by blast
    qed
  qed
  then show "core_ok db'" and "\<not> is_OpMove (th_op t) \<Longrightarrow> q \<in> targets ts \<Longrightarrow> edges_kept q (nodes db) (nodes db')" by blast+
qed

lemma call_thread:
  assumes call: "next_call env (th_out t) (th_op t) (th_pc t) db = Some (pc', db')"
    and core: "core_ok db" and t: "thread_ok (nodes db) t"
  shows "thread_ok (nodes db') (t\<lparr>th_pc := pc'\<rparr>)"
proof (cases "th_op t")
  case (OpMove i q)
  show ?thesis
  proof (cases "th_pc t")
    case PcStart
    with OpMove call not_system_row [OF core] show ?thesis
      by (auto simp: thread_ok_def split: sum.splits)
  next
    case PcTarget
    with OpMove call t show ?thesis
      by (auto simp: thread_ok_def on_path_def split: sum.splits)
  next
    case (PcWalk k cur)
    with OpMove call t have turn: "pc' = walk_turn (th_out t) i k cur db" "db' = db" and path: "i \<notin> system_ids" "on_path (nodes db) i q cur"
      by (auto simp: thread_ok_def)
    with walk_turn_ok [OF core path(2), of "th_out t" k] OpMove show ?thesis
      by (auto simp: thread_ok_def split: pc.splits)
  next
    case (PcMove k)
    with OpMove call show ?thesis by (auto simp: thread_ok_def split: sum.splits)
  qed (use OpMove call in \<open>auto simp: thread_ok_def\<close>)
next
  case (OpTrash i)
  with call not_system_row [OF core] show ?thesis
    by (cases "th_pc t") (auto simp: thread_ok_def split: sum.splits if_splits)
next
  case (OpPurge i)
  with call not_system_row [OF core] show ?thesis
    by (cases "th_pc t") (auto simp: thread_ok_def split: sum.splits if_splits)
qed (simp_all add: thread_ok_def)

text \<open>The invariant of the races with one move.\<close>

definition race_ok :: "thread list \<times> database \<Rightarrow> bool" where
  "race_ok s \<longleftrightarrow> core_ok (snd s) \<and> one_move (fst s) \<and> fresh_uuids (fst s) \<and> (\<forall>t \<in> set (fst s). thread_ok (nodes (snd s)) t)"

lemma race_keeps_ops: "race env s s' \<Longrightarrow> map th_op (fst s') = map th_op (fst s) \<and> map th_out (fst s') = map th_out (fst s)"
  by (auto elim!: race.cases simp: map_update list_update_same_conv)

lemma thread_ok_other:
  assumes "thread_ok (nodes db) t" and "core_ok db" "core_ok db'"
    and "\<And>i q. th_op t = OpMove i q \<Longrightarrow> edges_kept q (nodes db) (nodes db')"
  shows "thread_ok (nodes db') t"
proof (cases "th_op t")
  case (OpMove i q)
  note kept = assms(4) [OF OpMove]
  have roots: "roots_ok (nodes db')" using assms(3) by (simp add: core_ok_def)
  show ?thesis
    using assms(1) OpMove on_path_kept [OF kept assms(2) roots] not_below_kept [OF kept roots]
    by (cases "th_pc t") (simp_all add: thread_ok_def)
qed (use assms(1) in \<open>simp_all add: thread_ok_def\<close>)

lemma race_ok_step:
  assumes "race env s s'" and "race_ok s"
  shows "race_ok s'"
  using assms(1)
proof cases
  case (1 j ts t db pc' db')
  let ?t = "t\<lparr>th_pc := pc'\<rparr>" and ?ts = "ts[j := t\<lparr>th_pc := pc'\<rparr>]"
  have ok: "core_ok db" "one_move ts" "fresh_uuids ts" "\<And>u. u \<in> set ts \<Longrightarrow> thread_ok (nodes db) u"
    using assms(2) 1(1) by (auto simp: race_ok_def)
  have t: "t \<in> set ts" using 1(3,4) by auto
  then have restore: "\<not> is_OpRestore (th_op t)" using ok(2) by (simp add: one_move_def)
  note call = call_core [OF 1(5) ok(1) ok(4) [OF t] restore ok(3) t]
  have ops: "map th_op ?ts = map th_op ts" "map th_out ?ts = map th_out ts"
    using 1(3,4) by (auto simp: map_update list_update_same_conv)
  have nth_op: "th_op (?ts ! k) = th_op (ts ! k) \<and> th_out (?ts ! k) = th_out (ts ! k)" if "k < length ts" for k
    using that 1(4) by (cases "k = j") auto
  have old_op: "\<exists>v \<in> set ts. th_op v = th_op u \<and> th_out v = th_out u" if "u \<in> set ?ts" for u
    using that nth_op by (metis in_set_conv_nth length_list_update)
  have "one_move ?ts"
    unfolding one_move_def
  proof (intro conjI ballI allI impI)
    show "\<not> is_OpRestore (th_op u)" if "u \<in> set ?ts" for u
      using old_op [OF that] ok(2) by (auto simp: one_move_def)
    show "k = l" if "k < length ?ts" "l < length ?ts" "is_OpMove (th_op (?ts ! k))" "is_OpMove (th_op (?ts ! l))" for k l
      using that nth_op ok(2) by (auto simp: one_move_def)
  qed
  moreover have "targets ?ts = targets ts"
    using ops(1) by (rule targets_ops)
  then have "fresh_uuids ?ts"
    using ok(3) old_op unfolding fresh_uuids_def by metis
  moreover have "thread_ok (nodes db') u" if u: "u \<in> set ?ts" for u
  proof -
    from u obtain k where k: "k < length ts" "?ts ! k = u" by (auto simp: in_set_conv_nth)
    show ?thesis
    proof (cases "k = j")
      case True
      with k call_thread [OF 1(5) ok(1) ok(4) [OF t]] 1(4) show ?thesis by simp
    next
      case False
      with k have u: "u = ts ! k" "u \<in> set ts" by auto
      show ?thesis
      proof (rule thread_ok_other [OF ok(4) [OF u(2)] ok(1) call(1)])
        fix i q assume q: "th_op u = OpMove i q"
        then have "\<not> is_OpMove (th_op t)"
          using ok(2) False k(1) 1(3,4) u(1) by (auto simp: one_move_def)
        moreover have "q \<in> targets ts" using q u(2) by (auto simp: targets_def)
        ultimately show "edges_kept q (nodes db) (nodes db')" by (rule call(2))
      qed
    qed
  qed
  ultimately show ?thesis using call(1) 1(2) by (simp add: race_ok_def)
qed

end
