(* ===== verification/Race_Props.thy ===== *)
theory Race_Props
  imports Race_Tree Files_Laws
begin

text \<open>
  The properties of requests that run at the same time: what every interleaving keeps, what
  moves one at a time keep, and the cycle that two moves at once leave behind.
\<close>

section \<open>Reachable states\<close>

text \<open>Requests that have just come in, on a well-formed database.\<close>

definition requests_in :: "thread list \<times> database \<Rightarrow> bool" where
  "requests_in s \<longleftrightarrow> files_ok (snd s) \<and> (\<forall>t \<in> set (fst s). th_pc t = PcStart)"

lemma race_ok_start: "requests_in s \<Longrightarrow> one_move (fst s) \<Longrightarrow> fresh_uuids (fst s) \<Longrightarrow> race_ok s"
  by (auto simp: requests_in_def race_ok_def files_ok_core thread_ok_def split: node_op.split)

interpretation one_move_race: invariant_system
  "\<lambda>s. requests_in s \<and> one_move (fst s) \<and> fresh_uuids (fst s)" "race env" race_ok for env
  by unfold_locales (auto simp: race_ok_start intro: race_ok_step)

lemma move_walk_returns:
  assumes "acyclic (par_rel (nodes db))"
  shows "move_walk ora db i k cur \<noteq> None"
proof (induction cur arbitrary: k rule: wf_induct_rule [OF wf_par_rel_converse [OF assms]])
  case (1 cur)
  have "\<exists>r. move_walk ora db i (Suc k) p = Some r" if "find_node db cur = Some r" "nr_parent r = Some p" for r p
    using 1 [of p "Suc k"] that by (auto simp: par_rel_iff dest: find_nodeD)
  then show ?case
    by (subst move_walk.simps) (auto split: option.split)
qed


text \<open>
  C6: As long as at most one of the requests that run at the same time moves a node and none restores one,
  no interleaving makes a node its own ancestor, so every walk up and every query over a subtree still
  returns.
\<close>

theorem one_move_keeps_tree:
  assumes "files_ok db" and "\<forall>t \<in> set ts. th_pc t = PcStart" and "one_move ts" and "fresh_uuids ts"
    and "(race env)\<^sup>*\<^sup>* (ts, db) (ts', db')"
  shows "acyclic (par_rel (nodes db')) \<and> subtree (nodes db') i \<noteq> None \<and> move_walk ora db' i k cur \<noteq> None"
proof -
  have "race_ok (ts', db')"
    using assms(1-4) by (intro one_move_race.reachable_inv [OF _ assms(5)]) (simp add: requests_in_def)
  then have acyc: "acyclic (par_rel (nodes db'))" by (simp add: race_ok_def core_ok_def)
  with subtree_total [OF acyc, of i] move_walk_returns [OF acyc] show ?thesis by auto
qed

section \<open>Two moves\<close>

definition start_thread :: "outside \<Rightarrow> node_op \<Rightarrow> thread" where
  "start_thread ora op = \<lparr>th_op = op, th_out = ora, th_pc = PcStart\<rparr>"

text \<open>The reads of a move that is alone: it stands before its update.\<close>

lemma race_one:
  "j < length ts \<Longrightarrow> next_call env (th_out (ts ! j)) (th_op (ts ! j)) (th_pc (ts ! j)) db = Some (pc', db') \<Longrightarrow>
   race env (ts, db) (ts[j := (ts ! j)\<lparr>th_pc := pc'\<rparr>], db')"
  by (auto intro: race.intros)

lemma walk_steps:
  assumes "move_walk ora db i k cur = Some (Inr k')"
    and "ts ! j = \<lparr>th_op = OpMove i q, th_out = ora, th_pc = PcWalk k cur\<rparr>" and "j < length ts"
  shows "(race env)\<^sup>*\<^sup>* (ts, db) (ts[j := \<lparr>th_op = OpMove i q, th_out = ora, th_pc = PcMove k'\<rparr>], db)"
proof -
  let ?P = "\<lambda>ora db i k cur (r :: err + nat). \<forall>k' ts. r = Inr k' \<longrightarrow> j < length ts \<longrightarrow>
      ts ! j = \<lparr>th_op = OpMove i q, th_out = ora, th_pc = PcWalk k cur\<rparr> \<longrightarrow>
      (race env)\<^sup>*\<^sup>* (ts, db) (ts[j := \<lparr>th_op = OpMove i q, th_out = ora, th_pc = PcMove k'\<rparr>], db)"
  have "?P ora db i k cur (Inr k')"
  proof (rule move_walk.raw_induct [where P = ?P, OF _ assms(1)], intro allI impI)
    fix walk ora db i k cur r k' ts
    assume IH: "\<And>ora db i k cur r. walk ora db i k cur = Some r \<Longrightarrow> ?P ora db i k cur r"
      and eq: "(if cur = i then Some (Inl ErrCycleDetected)
        else (case db_fails ora k of
           Some m \<Rightarrow> Some (Inl (Wrap ''cycle check failed'' (DbErr (ExternalFault m))))
         | None \<Rightarrow>
             (case find_node db cur of
                None \<Rightarrow> Some (Inr (Suc k))
              | Some r \<Rightarrow>
                  (case nr_parent r of
                     None \<Rightarrow> Some (Inr (Suc k))
                   | Some p \<Rightarrow> if p = [] then Some (Inr (Suc k)) else walk ora db i (Suc k) p)))) = Some r"
      and r: "r = Inr k'" and j: "j < length ts"
      and t: "ts ! j = \<lparr>th_op = OpMove i q, th_out = ora, th_pc = PcWalk k cur\<rparr>"
    let ?t = "\<lambda>pc. \<lparr>th_op = OpMove i q, th_out = ora, th_pc = pc\<rparr>"
    have turn: "race env (ts, db) (ts[j := ?t (walk_turn ora i k cur db)], db)"
      using race_one [OF j, of env db "walk_turn ora i k cur db" db] t by simp
    show "(race env)\<^sup>*\<^sup>* (ts, db) (ts[j := ?t (PcMove k')], db)"
    proof (cases "\<exists>p. walk_turn ora i k cur db = PcWalk (Suc k) p")
      case True
      then obtain p where p: "walk_turn ora i k cur db = PcWalk (Suc k) p" by blast
      with eq have "walk ora db i (Suc k) p = Some r"
        by (auto simp: walk_turn_def split: if_splits option.splits)
      from IH [OF this, rule_format, of k' "ts[j := ?t (PcWalk (Suc k) p)]"] r j
      have "(race env)\<^sup>*\<^sup>* (ts[j := ?t (PcWalk (Suc k) p)], db) (ts[j := ?t (PcMove k')], db)" by simp
      with turn p show ?thesis by (simp add: converse_rtranclp_into_rtranclp)
    next
      case False
      with eq r have "walk_turn ora i k cur db = PcMove k'"
        by (auto simp: walk_turn_def split: if_splits option.splits)
      with turn show ?thesis by auto
    qed
  qed
  with assms(2,3) show ?thesis by blast
qed

lemma move_reads:
  assumes ok: "tree_ok (nodes db)" and calm: "quiet ora" and j: "j < length ts" "ts ! j = start_thread ora (OpMove i q)"
    and r: "find_node db i = Some r" "\<not> nr_system r"
    and p: "find_node db q = Some p" "nr_kind p = KindFolder" "nr_trashed p = None"
    and no: "(q, i) \<notin> (par_rel (nodes db))\<^sup>*"
  obtains k where "(race env)\<^sup>*\<^sup>* (ts, db) (ts[j := (start_thread ora (OpMove i q))\<lparr>th_pc := PcMove k\<rparr>], db)"
proof -
  let ?t = "\<lambda>pc. (start_thread ora (OpMove i q))\<lparr>th_pc := pc\<rparr>"
  from walk_clear [OF ok calm no, of 2] obtain k where walk: "move_walk ora db i 2 q = Some (Inr k)" by blast
  have "i \<noteq> q" using no by auto
  then have "race env (ts, db) (ts[j := ?t PcTarget], db)"
    using race_one [OF j(1), of env db PcTarget db] j(2) r calm by (simp add: start_thread_def get_node_def)
  moreover have "race env (ts[j := ?t PcTarget], db) (ts[j := ?t (PcWalk 2 q)], db)"
    using race_one [of j "ts[j := ?t PcTarget]" env db "PcWalk 2 q" db] j(1) p calm
    by (simp add: start_thread_def get_node_def check_folder_def)
  moreover have "(race env)\<^sup>*\<^sup>* (ts[j := ?t (PcWalk 2 q)], db) (ts[j := ?t (PcMove k)], db)"
    using walk_steps [OF walk, of "ts[j := ?t (PcWalk 2 q)]" j q env] j(1) by (simp add: start_thread_def)
  ultimately have "(race env)\<^sup>*\<^sup>* (ts, db) (ts[j := ?t (PcMove k)], db)"
    by (meson converse_rtranclp_into_rtranclp)
  then show ?thesis by (rule that)
qed

text \<open>The update of a move: it succeeds when the name is free among the active children of the target.\<close>

definition name_free :: "node_row list \<Rightarrow> string \<Rightarrow> string \<Rightarrow> bool" where
  "name_free rows i q \<longleftrightarrow>
     (\<forall>c \<in> set rows. \<forall>r \<in> set rows. nr_id r = i \<longrightarrow> nr_id c \<noteq> i \<longrightarrow> nr_parent c = Some q \<longrightarrow> nr_trashed c = None \<longrightarrow>
        nr_name_key c \<noteq> nr_name_key r)"

abbreviation moved :: "string \<Rightarrow> string \<Rightarrow> int \<Rightarrow> node_row list \<Rightarrow> node_row list" where
  "moved i q t rows \<equiv> update_where (\<lambda>r. nr_id r = i) (move_row q t) rows"

lemma moved_fields [simp]:
  "nr_id (move_row q t r) = nr_id r" "nr_name_key (move_row q t r) = nr_name_key r"
  "nr_trashed (move_row q t r) = nr_trashed r" "nr_parent (move_row q t r) = Some q"
  by (simp_all add: move_row_def)

lemma moved_ids [simp]: "map nr_id (moved i q t rows) = map nr_id rows" "nr_id ` set (moved i q t rows) = nr_id ` set rows"
proof -
  show "map nr_id (moved i q t rows) = map nr_id rows" by (simp add: update_where_def)
  then show "nr_id ` set (moved i q t rows) = nr_id ` set rows" by (metis list.set_map)
qed

lemma moved_siblings:
  assumes "distinct (map nr_id rows)" and "siblings_unique rows" and "name_free rows i q"
  shows "siblings_unique (moved i q t rows)"
proof -
  let ?g = "\<lambda>r. if nr_id r = i then move_row q t r else r"
  have old: "\<not> clashes r s" if "r \<in> set rows" "s \<in> set rows" "nr_id r \<noteq> nr_id s" for r s
    using assms(1,2) that by (simp add: siblings_unique_iff)
  have "\<not> clashes (?g r) (?g s)" if rs: "r \<in> set rows" "s \<in> set rows" "nr_id r \<noteq> nr_id s" for r s
  proof -
    have free: "nr_name_key c \<noteq> nr_name_key d"
      if "c \<in> set rows" "d \<in> set rows" "nr_id d = i" "nr_id c \<noteq> i" "nr_parent c = Some q" "nr_trashed c = None" for c d
      using assms(3) that by (simp add: name_free_def)
    show ?thesis using old [OF rs] free [of r s] free [of s r] rs by (auto simp: clashes_def)
  qed
  moreover have "nr_id (?g r) = nr_id r" for r by simp
  ultimately have no: "\<forall>r \<in> set rows. \<forall>s \<in> set rows. nr_id (?g r) \<noteq> nr_id (?g s) \<longrightarrow> \<not> clashes (?g r) (?g s)"
    by (metis (no_types, lifting))
  have dist: "distinct (map nr_id (moved i q t rows))" using assms(1) by simp
  have "set (moved i q t rows) = ?g ` set rows" by (simp only: update_where_def list.set_map)
  with no show ?thesis unfolding siblings_unique_iff [OF dist] by (simp only: ball_simps)
qed

lemma moved_parents: "parents_exist rows \<Longrightarrow> q \<in> nr_id ` set rows \<Longrightarrow> parents_exist (moved i q t rows)"
  unfolding parents_exist_iff moved_ids by (auto simp: update_where_def)

lemma in_moved:
  "r \<in> set (moved i q t rows) \<Longrightarrow> \<exists>r0 \<in> set rows. nr_id r = nr_id r0 \<and> nr_name_key r = nr_name_key r0 \<and>
     nr_trashed r = nr_trashed r0 \<and> nr_parent r = (if nr_id r0 = i then Some q else nr_parent r0)"
  by (auto simp: update_where_def)

lemma moved_name_free:
  assumes "name_free rows y x" and "x \<noteq> y"
  shows "name_free (moved x y t rows) y x"
  unfolding name_free_def
proof (intro ballI impI)
  fix c r assume c: "c \<in> set (moved x y t rows)" "nr_id c \<noteq> y" "nr_parent c = Some x" "nr_trashed c = None"
    and r: "r \<in> set (moved x y t rows)" "nr_id r = y"
  from in_moved [OF c(1)] c assms(2) obtain c0 where c0: "c0 \<in> set rows" "nr_id c0 \<noteq> y" "nr_parent c0 = Some x"
    "nr_trashed c0 = None" "nr_name_key c = nr_name_key c0" by (auto split: if_splits)
  from in_moved [OF r(1)] r obtain r0 where "r0 \<in> set rows" "nr_id r0 = y" "nr_name_key r = nr_name_key r0" by auto
  with assms(1) c0 show "nr_name_key c \<noteq> nr_name_key r" by (simp add: name_free_def)
qed

lemma move_writes:
  assumes ok: "distinct (map nr_id (nodes db))" "siblings_unique (nodes db)" "parents_exist (nodes db)"
    and calm: "quiet ora" and j: "j < length ts" "ts ! j = (start_thread ora (OpMove i q))\<lparr>th_pc := PcMove k\<rparr>"
    and i: "i \<in> nr_id ` set (nodes db)" and q: "q \<in> nr_id ` set (nodes db)" and free: "name_free (nodes db) i q"
  obtains n where "(race env)\<^sup>*\<^sup>* (ts, db)
    (ts[j := (start_thread ora (OpMove i q))\<lparr>th_pc := PcAnswer (AnsNode (Inr n))\<rparr>],
     db\<lparr>nodes := moved i q (secs (clock ora 0)) (nodes db)\<rparr>)"
proof -
  let ?t = "\<lambda>pc. (start_thread ora (OpMove i q))\<lparr>th_pc := pc\<rparr>"
  let ?db = "db\<lparr>nodes := moved i q (secs (clock ora 0)) (nodes db)\<rparr>"
  have "update_nodes None (\<lambda>r. nr_id r = i) (move_row q (secs (clock ora 0))) db = Inr ?db"
    using ok moved_siblings [OF ok(1,2) free] moved_parents [OF ok(3) q] by (simp add: update_nodes_Inr)
  then have "race env (ts, db) (ts[j := ?t (PcReread (Suc k) i)], ?db)"
    using race_one [OF j(1), of env db "PcReread (Suc k) i" ?db] j(2) calm by (simp add: start_thread_def)
  moreover obtain n where n: "get_node None ?db i = Inr n"
  proof -
    from i have "i \<in> nr_id ` set (nodes ?db)" by simp
    then have "find_node ?db i \<noteq> None" by (auto simp: find_node_def lookup_by_None_iff)
    then show ?thesis using that by (auto simp: get_node_def)
  qed
  then have "race env (ts[j := ?t (PcReread (Suc k) i)], ?db) (ts[j := ?t (PcAnswer (AnsNode (Inr n)))], ?db)"
    using race_one [of j "ts[j := ?t (PcReread (Suc k) i)]" env ?db "PcAnswer (AnsNode (Inr n))" ?db] j(1) calm
    by (simp add: start_thread_def)
  ultimately show ?thesis by (intro that [of n]) (meson converse_rtranclp_into_rtranclp rtranclp.rtrancl_refl)
qed

lemma subtree_cycle: "(x, x) \<in> (par_rel rows)\<^sup>+ \<Longrightarrow> subtree rows x = None"
  unfolding subtree_def by (rule cte_run_cycle) simp

text \<open>A walk that enters a cycle without the node it looks for never leaves it.\<close>

lemma move_walk_cycle:
  assumes rows: "find_node db x = Some r" "nr_parent r = Some y" "find_node db y = Some s" "nr_parent s = Some x"
    and names: "x \<noteq> []" "y \<noteq> []" and calm: "quiet ora" and out: "i \<noteq> x" "i \<noteq> y" and cur: "cur = x \<or> cur = y"
  shows "move_walk ora db i k cur = None"
proof (cases "move_walk ora db i k cur")
  case (Some res)
  let ?P = "\<lambda>ora db' i' k cur (res :: err + nat). db' = db \<longrightarrow> quiet ora \<longrightarrow> i' = i \<longrightarrow> cur \<noteq> x \<and> cur \<noteq> y"
  have "?P ora db i k cur res"
  proof (rule move_walk.raw_induct [where P = ?P, OF _ Some], intro impI)
    fix walk ora db' i' k cur and res :: "err + nat"
    assume IH: "\<And>ora db i k cur res. walk ora db i k cur = Some res \<Longrightarrow> ?P ora db i k cur res"
      and eq: "(if cur = i' then Some (Inl ErrCycleDetected)
        else (case db_fails ora k of
           Some m \<Rightarrow> Some (Inl (Wrap ''cycle check failed'' (DbErr (ExternalFault m))))
         | None \<Rightarrow>
             (case find_node db' cur of
                None \<Rightarrow> Some (Inr (Suc k))
              | Some r \<Rightarrow>
                  (case nr_parent r of
                     None \<Rightarrow> Some (Inr (Suc k))
                   | Some p \<Rightarrow> if p = [] then Some (Inr (Suc k)) else walk ora db' i' (Suc k) p)))) = Some res"
      and here: "db' = db" "quiet ora" "i' = i"
    show "cur \<noteq> x \<and> cur \<noteq> y"
    proof (rule ccontr)
      assume "\<not> (cur \<noteq> x \<and> cur \<noteq> y)"
      then have "walk ora db' i' (Suc k) x = Some res \<or> walk ora db' i' (Suc k) y = Some res"
        using eq here rows names out by auto
      with IH here show False by blast
    qed
  qed
  with calm cur show ?thesis by blast
qed simp


text \<open>
  C7: Two moves at the same time can make a cycle: when two active folders lie side by side and each is
  moved into the other, both requests can pass the cycle check before either writes. Both then report
  success, each folder is its own ancestor, the query over either subtree never returns, and neither does
  any later request that moves another node into one of them.
\<close>

theorem concurrent_moves_cycle:
  assumes ok: "tree_ok (nodes db)" and calm: "quiet ora1" "quiet ora2"
    and x: "find_node db x = Some r" "\<not> nr_system r" "nr_kind r = KindFolder" "nr_trashed r = None"
    and y: "find_node db y = Some s" "\<not> nr_system s" "nr_kind s = KindFolder" "nr_trashed s = None"
    and apart: "(x, y) \<notin> (par_rel (nodes db))\<^sup>*" "(y, x) \<notin> (par_rel (nodes db))\<^sup>*"
    and free: "name_free (nodes db) x y" "name_free (nodes db) y x"
  shows "\<exists>ts n m db'. (race env)\<^sup>*\<^sup>* ([start_thread ora1 (OpMove x y), start_thread ora2 (OpMove y x)], db) (ts, db') \<and>
    map th_pc ts = [PcAnswer (AnsNode (Inr n)), PcAnswer (AnsNode (Inr m))] \<and>
    {(x, y), (y, x)} \<subseteq> par_rel (nodes db') \<and> subtree (nodes db') x = None \<and> subtree (nodes db') y = None \<and>
    (\<forall>ora i k. quiet ora \<longrightarrow> i \<noteq> x \<longrightarrow> i \<noteq> y \<longrightarrow> move_walk ora db' i k x = None \<and> move_walk ora db' i k y = None)"
proof -
  let ?at1 = "\<lambda>pc. (start_thread ora1 (OpMove x y))\<lparr>th_pc := pc\<rparr>" and ?at2 = "\<lambda>pc. (start_thread ora2 (OpMove y x))\<lparr>th_pc := pc\<rparr>"
  let ?rows1 = "moved x y (secs (clock ora1 0)) (nodes db)"
  let ?rows2 = "moved y x (secs (clock ora2 0)) ?rows1"
  let ?db1 = "db\<lparr>nodes := ?rows1\<rparr>" and ?db2 = "db\<lparr>nodes := ?rows2\<rparr>"
  note tree = tree_okD(1,4) [OF ok] tree_ok_parents_exist [OF ok]
  have ids: "x \<in> nr_id ` set (nodes db)" "y \<in> nr_id ` set (nodes db)" using x(1) y(1) by (auto dest!: find_nodeD)
  have xy: "x \<noteq> y" using apart by auto
  have tree1: "distinct (map nr_id ?rows1)" "siblings_unique ?rows1" "parents_exist ?rows1"
    using tree moved_siblings [OF tree(1,2) free(1)] moved_parents [OF tree(3) ids(2)] by simp_all
  let ?s0 = "[start_thread ora1 (OpMove x y), start_thread ora2 (OpMove y x)]"
  obtain k1 where "(race env)\<^sup>*\<^sup>* (?s0, db) ([?at1 (PcMove k1), ?at2 PcStart], db)"
    by (rule move_reads [where ora = ora1 and db = db and j = 0 and ts = ?s0 and i = x and q = y and env = env, OF ok calm(1) _ _ x(1,2) y(1,3,4) apart(2)]) (simp_all add: start_thread_def)
  moreover obtain k2 where "(race env)\<^sup>*\<^sup>* ([?at1 (PcMove k1), ?at2 PcStart], db) ([?at1 (PcMove k1), ?at2 (PcMove k2)], db)"
    by (rule move_reads [where ora = ora2 and db = db and j = 1 and ts = "[?at1 (PcMove k1), ?at2 PcStart]" and i = y and q = x and env = env, OF ok calm(2) _ _ y(1,2) x(1,3,4) apart(1)])
      (simp_all add: start_thread_def)
  moreover obtain n where "(race env)\<^sup>*\<^sup>* ([?at1 (PcMove k1), ?at2 (PcMove k2)], db)
      ([?at1 (PcAnswer (AnsNode (Inr n))), ?at2 (PcMove k2)], ?db1)"
    by (rule move_writes [where ora = ora1 and db = db and j = 0 and ts = "[?at1 (PcMove k1), ?at2 (PcMove k2)]" and i = x and q = y and k = k1 and env = env, OF tree calm(1) _ _ ids free(1)]) simp_all
  moreover obtain m where "(race env)\<^sup>*\<^sup>* ([?at1 (PcAnswer (AnsNode (Inr n))), ?at2 (PcMove k2)], ?db1)
      ([?at1 (PcAnswer (AnsNode (Inr n))), ?at2 (PcAnswer (AnsNode (Inr m)))], ?db2)"
    by (rule move_writes [where db = ?db1 and ora = ora2 and j = 1 and ts = "[?at1 (PcAnswer (AnsNode (Inr n))), ?at2 (PcMove k2)]" and i = y
      and q = x and k = k2 and env = env])
      (use tree1 calm ids moved_name_free [OF free(2) xy] in simp_all)
  ultimately have run: "(race env)\<^sup>*\<^sup>* (?s0, db) ([?at1 (PcAnswer (AnsNode (Inr n))), ?at2 (PcAnswer (AnsNode (Inr m)))], ?db2)"
    by (meson rtranclp_trans)
  have rows: "r \<in> set (nodes db)" "nr_id r = x" "s \<in> set (nodes db)" "nr_id s = y" using x(1) y(1) by (auto dest!: find_nodeD)
  define r' where "r' = move_row y (secs (clock ora1 0)) r"
  define s' where "s' = move_row x (secs (clock ora2 0)) s"
  have "r' \<in> set ?rows2" "s' \<in> set ?rows2" using rows xy by (auto simp: update_where_def r'_def s'_def)
  moreover have fields: "nr_id r' = x" "nr_parent r' = Some y" "nr_id s' = y" "nr_parent s' = Some x"
    using rows by (simp_all add: r'_def s'_def)
  moreover have "distinct (map nr_id ?rows2)" using tree(1) by simp
  ultimately have found: "find_node ?db2 x = Some r'" "find_node ?db2 y = Some s'"
    by (auto simp: find_node_def lookup_by_eq_Some)
  with fields have edges: "{(x, y), (y, x)} \<subseteq> par_rel (nodes ?db2)" by (auto simp: par_rel_iff dest!: find_nodeD)
  then have loops: "(x, x) \<in> (par_rel (nodes ?db2))\<^sup>+" "(y, y) \<in> (par_rel (nodes ?db2))\<^sup>+" by auto
  note hang = loops [THEN subtree_cycle]
  have "x \<noteq> []" "y \<noteq> []" using tree_okD(2) [OF ok] ids by metis+
  with move_walk_cycle [OF found(1) fields(2) found(2) fields(4)]
  have "\<forall>ora i k. quiet ora \<longrightarrow> i \<noteq> x \<longrightarrow> i \<noteq> y \<longrightarrow> move_walk ora ?db2 i k x = None \<and> move_walk ora ?db2 i k y = None"
    by blast
  with run edges hang show ?thesis
    by (intro exI [of _ "[?at1 (PcAnswer (AnsNode (Inr n))), ?at2 (PcAnswer (AnsNode (Inr m)))]"] exI [of _ n] exI [of _ m]
        exI [of _ ?db2] conjI) simp_all
qed

section \<open>Witnesses\<close>

lemma trash_node_tx:
  "trash_node ora i db =
     (case get_node (db_fails ora 0) db i of
        Inl e \<Rightarrow> Some (Inl e, db)
      | Inr n \<Rightarrow> if n_system n then Some (Inl ErrSystemNodeProtected, db) else trash_tx ora i (n_kind n) db)"
  unfolding trash_node_def trash_tx_def ..

lemma demo_race:
  "\<exists>db'. (race env)\<^sup>*\<^sup>* ([start_thread calm (OpMove ''b'' root_id), start_thread calm (OpTrash ''a'')], demo_db)
     ([start_thread calm (OpMove ''b'' root_id), (start_thread calm (OpTrash ''a''))\<lparr>th_pc := PcAnswer (AnsUnit (Inr ()))\<rparr>], db') \<and>
     trash_node calm ''a'' demo_db = Some (Inr (), db')"
proof -
  let ?t1 = "start_thread calm (OpMove ''b'' root_id)" and ?t2 = "\<lambda>pc. (start_thread calm (OpTrash ''a''))\<lparr>th_pc := pc\<rparr>"
  obtain db' where trash: "trash_node calm ''a'' demo_db = Some (Inr (), db')" using demo_trash by blast
  have a: "find_node demo_db ''a'' = Some (new_node ''a'' root_id KindFolder ''A'' ''a'' 1)"
    by (simp add: find_node_def demo_rows)
  have fields: "\<not> n_system (scan_row demo_db (new_node ''a'' root_id KindFolder ''A'' ''a'' 1))"
    "n_kind (scan_row demo_db (new_node ''a'' root_id KindFolder ''A'' ''a'' 1)) = KindFolder"
    by (simp_all add: new_node_def)
  have tx: "trash_tx calm ''a'' KindFolder demo_db = Some (Inr (), db')"
    using trash unfolding trash_node_tx by (simp only: get_node_def a fields calm_simps option.case sum.case if_False)
  have "race env ([?t1, ?t2 PcStart], demo_db) ([?t1, ?t2 (PcTrash KindFolder)], demo_db)"
    using race_one [of 1 "[?t1, ?t2 PcStart]" env demo_db "PcTrash KindFolder" demo_db] a fields
    by (simp add: start_thread_def get_node_def)
  moreover have "race env ([?t1, ?t2 (PcTrash KindFolder)], demo_db) ([?t1, ?t2 (PcAnswer (AnsUnit (Inr ())))], db')"
    using race_one [of 1 "[?t1, ?t2 (PcTrash KindFolder)]" env demo_db "PcAnswer (AnsUnit (Inr ()))" db'] tx
    by (simp add: start_thread_def)
  ultimately have "(race env)\<^sup>*\<^sup>* ([?t1, ?t2 PcStart], demo_db) ([?t1, ?t2 (PcAnswer (AnsUnit (Inr ())))], db')"
    by (meson converse_rtranclp_into_rtranclp rtranclp.rtrancl_refl)
  with trash show ?thesis by (intro exI [of _ db']) (simp add: start_thread_def)
qed


theorem one_move_keeps_tree_witness:
  "\<exists>ts db'. (race plain_text)\<^sup>*\<^sup>* ([start_thread calm (OpMove ''b'' root_id), start_thread calm (OpTrash ''a'')], demo_db) (ts, db') \<and>
     trash_node calm ''a'' demo_db = Some (Inr (), db') \<and> acyclic (par_rel (nodes db')) \<and> subtree (nodes db') trash_root_id \<noteq> None"
proof -
  from demo_race [of plain_text] obtain ts db' where
    run: "(race plain_text)\<^sup>*\<^sup>* ([start_thread calm (OpMove ''b'' root_id), start_thread calm (OpTrash ''a'')], demo_db) (ts, db')"
    and trash: "trash_node calm ''a'' demo_db = Some (Inr (), db')" by blast
  have "one_move [start_thread calm (OpMove ''b'' root_id), start_thread calm (OpTrash ''a'')]"
    "fresh_uuids [start_thread calm (OpMove ''b'' root_id), start_thread calm (OpTrash ''a'')]"
    by (auto simp: one_move_def fresh_uuids_def start_thread_def less_Suc_eq)
  from one_move_keeps_tree [OF demo_files_ok _ this run, of trash_root_id calm 0 root_id] run trash
  show ?thesis by (auto simp: start_thread_def)
qed

text \<open>Two folders side by side in the root.\<close>

definition side_db :: database where
  "side_db = (init_db 0)\<lparr>
     nodes := nodes (init_db 0) @
       [new_node ''a'' root_id KindFolder ''A'' ''a'' 1, new_node ''b'' root_id KindFolder ''B'' ''b'' 1]\<rparr>"

lemmas side_rows = side_db_def init_db_def system_row_def new_node_def root_id_def trash_root_id_def

lemma side_tree_ok: "tree_ok (nodes side_db)"
proof -
  have "acyclic (par_rel (nodes side_db))"
    by (rule acyclic_depth [where depth = "\<lambda>x :: string. if x = ''a'' \<or> x = ''b'' then 1 else (0 :: nat)"])
      (auto simp: side_rows split: if_splits)
  moreover have "siblings_unique (nodes side_db)"
    by (simp add: side_rows clashes_def)
  moreover have "system_ok (nodes side_db)" "\<forall>r \<in> set (nodes side_db). parent_ok (nodes side_db) r"
    by (simp_all add: side_rows system_ok_def parent_ok_def system_ids_def)
  ultimately show ?thesis by (simp add: tree_ok_def) (simp add: side_rows)
qed

theorem concurrent_moves_cycle_witness:
  "tree_ok (nodes side_db) \<and>
   (\<exists>ts db'. (race plain_text)\<^sup>*\<^sup>* ([start_thread calm (OpMove ''a'' ''b''), start_thread calm (OpMove ''b'' ''a'')], side_db) (ts, db') \<and>
     subtree (nodes db') ''a'' = None \<and> move_walk calm db' ''c'' 2 ''b'' = None)"
proof -
  have rel: "par_rel (nodes side_db) = {(''a'', root_id), (''b'', root_id)}"
    by (auto simp: par_rel_iff side_rows)
  have apart: "(''a'', ''b'') \<notin> (par_rel (nodes side_db))\<^sup>*" "(''b'', ''a'') \<notin> (par_rel (nodes side_db))\<^sup>*"
    by (auto simp: rel root_id_def elim: converse_rtranclE)
  have find: "find_node side_db ''a'' = Some (new_node ''a'' root_id KindFolder ''A'' ''a'' 1)"
    "find_node side_db ''b'' = Some (new_node ''b'' root_id KindFolder ''B'' ''b'' 1)"
    by (simp_all add: find_node_def side_rows)
  have free: "name_free (nodes side_db) ''a'' ''b''" "name_free (nodes side_db) ''b'' ''a''"
    by (simp_all add: name_free_def side_rows)
  from concurrent_moves_cycle [OF side_tree_ok calm_simps(5) calm_simps(5) find(1) _ _ _ find(2) _ _ _ apart free, of plain_text]
  have "\<exists>ts n m db'. (race plain_text)\<^sup>*\<^sup>* ([start_thread calm (OpMove ''a'' ''b''), start_thread calm (OpMove ''b'' ''a'')], side_db) (ts, db') \<and>
    map th_pc ts = [PcAnswer (AnsNode (Inr n)), PcAnswer (AnsNode (Inr m))] \<and>
    {(''a'', ''b''), (''b'', ''a'')} \<subseteq> par_rel (nodes db') \<and> subtree (nodes db') ''a'' = None \<and> subtree (nodes db') ''b'' = None \<and>
    (\<forall>ora i k. quiet ora \<longrightarrow> i \<noteq> ''a'' \<longrightarrow> i \<noteq> ''b'' \<longrightarrow> move_walk ora db' i k ''a'' = None \<and> move_walk ora db' i k ''b'' = None)"
    by (simp add: new_node_def)
  then obtain ts db' where run: "(race plain_text)\<^sup>*\<^sup>* ([start_thread calm (OpMove ''a'' ''b''), start_thread calm (OpMove ''b'' ''a'')], side_db) (ts, db')"
    and hang: "subtree (nodes db') ''a'' = None"
    and walk: "\<And>ora i k. quiet ora \<Longrightarrow> i \<noteq> ''a'' \<Longrightarrow> i \<noteq> ''b'' \<Longrightarrow> move_walk ora db' i k ''b'' = None" by blast
  from walk [of calm "''c''" 2] have "move_walk calm db' ''c'' 2 ''b'' = None" by simp
  with side_tree_ok run hang show ?thesis by blast
qed

end
