(* ===== verification/Audit_Log.thy ===== *)
theory Audit_Log
  imports Schema
begin

text \<open>
  The package \<open>internal/audit\<close>. \<open>Record\<close> prepares a row and inserts it from a goroutine of its own,
  with errors dropped: preparing the row and inserting it are separate steps of the model.
\<close>

text \<open>The metadata of an event; its JSON text is a parameter. A nil map is \<open>None\<close>.\<close>

datatype meta_value = MetaText string | MetaInt int | MetaBool bool | MetaTextPtr "string option"

type_synonym metadata = "(string \<times> meta_value) list option"

record audit_env =
  ae_sha :: "string \<Rightarrow> string"
  ae_marshal :: "metadata \<Rightarrow> string option"

definition audit_record ::
  "audit_env \<Rightarrow> outside \<Rightarrow> string \<Rightarrow> string \<Rightarrow> string \<Rightarrow> string \<Rightarrow> string \<Rightarrow> string \<Rightarrow> string \<Rightarrow> metadata \<Rightarrow> audit_row" where
  "audit_record env ora req actor action objtype objid outcome ip meta =
     \<lparr>au_id = uuid ora 0, au_created = secs (clock ora 0), au_request = req,
      au_actor = (if actor \<noteq> [] then hex_encode (ae_sha env actor) else []), au_action = action,
      au_object_type = objtype, au_object_id = objid, au_outcome = outcome, au_ip = ip,
      au_metadata = (case ae_marshal env meta of None \<Rightarrow> ''{}'' | Some s \<Rightarrow> s)\<rparr>"

definition audit_outcomes :: "string set" where
  "audit_outcomes = {''success'', ''denied'', ''error''}"

definition insert_audit :: "string option \<Rightarrow> audit_row \<Rightarrow> database \<Rightarrow> db_fault + database" where
  "insert_audit flt r db = exec flt
     (if au_id r \<in> au_id ` set (audit_events db) then Inl (UniqueFault ''audit_events.id'')
      else if au_outcome r \<notin> audit_outcomes then Inl (CheckFault ''outcome IN (...)'')
      else Inr (db\<lparr>audit_events := audit_events db @ [r]\<rparr>))"

text \<open>The goroutine's statement; its error is dropped.\<close>

definition flush_audit :: "string option \<Rightarrow> audit_row \<Rightarrow> database \<Rightarrow> database" where
  "flush_audit flt r db = (case insert_audit flt r db of Inl _ \<Rightarrow> db | Inr db' \<Rightarrow> db')"

lemma flush_audit_rest: "(flush_audit flt r db)\<lparr>audit_events := audit_events db\<rparr> = db"
  by (auto simp: flush_audit_def insert_audit_def exec_def split: option.split)

lemma flush_audit_tables [simp]:
  "nodes (flush_audit flt r db) = nodes db" "file_objects (flush_audit flt r db) = file_objects db"
  "uploads (flush_audit flt r db) = uploads db" "shares (flush_audit flt r db) = shares db"
  by (auto simp: flush_audit_def insert_audit_def exec_def split: option.split)

end
