(* ===== verification/Go_Base64.thy ===== *)
theory Go_Base64
  imports Go_Text
begin

text \<open>
  Go's \<open>encoding/base64\<close>: the standard and the URL alphabet (\<open>url\<close>), with padding or without
  (\<open>pad\<close>). Decoding gives the bytes \<open>DecodeString\<close> returns and whether it returned no error;
  on an error the bytes decoded so far are returned too, and some callers use them.
\<close>

definition b64_char :: "bool \<Rightarrow> nat \<Rightarrow> char" where
  "b64_char url n =
     (if n < 26 then char_of (65 + n)
      else if n < 52 then char_of (71 + n)
      else if n < 62 then char_of (n - 4)
      else if n = 62 then (if url then CHR ''-'' else CHR ''+'')
      else (if url then CHR ''_'' else CHR ''/''))"

definition b64_val :: "bool \<Rightarrow> char \<Rightarrow> nat option" where
  "b64_val url c =
     (let n = of_char c :: nat
      in if 65 \<le> n \<and> n \<le> 90 then Some (n - 65)
         else if 97 \<le> n \<and> n \<le> 122 then Some (n - 71)
         else if 48 \<le> n \<and> n \<le> 57 then Some (n + 4)
         else if c = (if url then CHR ''-'' else CHR ''+'') then Some 62
         else if c = (if url then CHR ''_'' else CHR ''/'') then Some 63
         else None)"

fun b64_encode :: "bool \<Rightarrow> bool \<Rightarrow> string \<Rightarrow> string" where
  "b64_encode url pad [] = []"
| "b64_encode url pad [a] =
     [b64_char url (of_char a div 4), b64_char url (of_char a mod 4 * 16)] @
     (if pad then ''=='' else [])"
| "b64_encode url pad [a, b] =
     [b64_char url (of_char a div 4), b64_char url (of_char a mod 4 * 16 + of_char b div 16),
      b64_char url (of_char b mod 16 * 4)] @ (if pad then ''='' else [])"
| "b64_encode url pad (a # b # c # r) =
     [b64_char url (of_char a div 4), b64_char url (of_char a mod 4 * 16 + of_char b div 16),
      b64_char url (of_char b mod 16 * 4 + of_char c div 64), b64_char url (of_char c mod 64)] @
     b64_encode url pad r"

text \<open>The bytes of two, three and four sextets; surplus bits of the last one are dropped.\<close>

definition byte_one :: "nat \<Rightarrow> nat \<Rightarrow> char" where "byte_one v w = char_of (v * 4 + w div 16)"
definition byte_two :: "nat \<Rightarrow> nat \<Rightarrow> char" where "byte_two v w = char_of (v mod 16 * 16 + w div 4)"
definition byte_three :: "nat \<Rightarrow> nat \<Rightarrow> char" where "byte_three v w = char_of (v mod 4 * 64 + w)"

fun b64_quanta :: "bool \<Rightarrow> bool \<Rightarrow> string \<Rightarrow> string \<times> bool" where
  "b64_quanta url pad [] = ([], True)"
| "b64_quanta url pad [p] = ([], False)"
| "b64_quanta url pad [p, q] =
     (case (b64_val url p, b64_val url q) of
        (Some v, Some w) \<Rightarrow> if pad then ([], False) else ([byte_one v w], True)
      | _ \<Rightarrow> ([], False))"
| "b64_quanta url pad [p, q, r] =
     (case (b64_val url p, b64_val url q, b64_val url r) of
        (Some v, Some w, Some x) \<Rightarrow> if pad then ([], False) else ([byte_one v w, byte_two w x], True)
      | _ \<Rightarrow> ([], False))"
| "b64_quanta url pad (p # q # r # s # rest) =
     (case (b64_val url p, b64_val url q) of
        (Some v, Some w) \<Rightarrow>
          (case b64_val url r of
             None \<Rightarrow> if pad \<and> r = CHR ''='' \<and> s = CHR ''='' then ([byte_one v w], rest = []) else ([], False)
           | Some x \<Rightarrow>
               (case b64_val url s of
                  None \<Rightarrow> if pad \<and> s = CHR ''='' then ([byte_one v w, byte_two w x], rest = []) else ([], False)
                | Some y \<Rightarrow>
                    (case b64_quanta url pad rest of
                       (bs, ok) \<Rightarrow> (byte_one v w # byte_two w x # byte_three x y # bs, ok))))
      | _ \<Rightarrow> ([], False))"

definition b64_decode :: "bool \<Rightarrow> bool \<Rightarrow> string \<Rightarrow> string \<times> bool" where
  "b64_decode url pad s = b64_quanta url pad (filter (\<lambda>c. c \<noteq> CHR 0x0A \<and> c \<noteq> CHR 0x0D) s)"

section \<open>Encoding and decoding\<close>

lemma b64_sextet:
  assumes "n < 64"
  shows "b64_val url (b64_char url n) = Some n" "b64_char url n \<notin> {CHR 0x0A, CHR 0x0D, CHR ''='', CHR ''$''}"
proof -
  have "b64_val url (b64_char url n) = Some n \<and> b64_char url n \<notin> {CHR 0x0A, CHR 0x0D, CHR ''='', CHR ''$''}"
  proof (cases "n < 62")
    case True
    have code: "(of_char (b64_char url n) :: nat) = (if n < 26 then 65 + n else if n < 52 then 71 + n else n - 4)"
      using True by (simp add: b64_char_def of_char_of take_bit_eq_mod)
    with True have "b64_val url (b64_char url n) = Some n" by (auto simp: b64_val_def Let_def)
    moreover have "(of_char (b64_char url n) :: nat) \<notin> {10, 13, 61, 36}" using True by (auto simp: code)
    ultimately show ?thesis by auto
  next
    case False
    with assms have "n = 62 \<or> n = 63" by linarith
    then show ?thesis by (auto simp: b64_char_def b64_val_def)
  qed
  then show "b64_val url (b64_char url n) = Some n" "b64_char url n \<notin> {CHR 0x0A, CHR 0x0D, CHR ''='', CHR ''$''}"
    by blast+
qed

lemma of_char_parts:
  fixes a :: char
  shows "(of_char a :: nat) div 4 < 64" "(of_char a :: nat) div 16 < 16" "(of_char a :: nat) div 64 < 4"
  using nat_of_char_less_256 [of a] by (simp_all add: less_mult_imp_div_less)

lemma b64_bounds:
  fixes a b :: char
  shows "(of_char a :: nat) mod 4 * 16 < 64" "(of_char a :: nat) mod 4 * 16 + of_char b div 16 < 64"
    "(of_char a :: nat) mod 16 * 4 < 64" "(of_char a :: nat) mod 16 * 4 + of_char b div 64 < 64"
  using of_char_parts [of b] mod_less_divisor [of 4 "of_char a :: nat"] mod_less_divisor [of 16 "of_char a :: nat"]
  by linarith+

lemmas b64_char_simps = b64_sextet b64_bounds of_char_parts

lemma b64_encode_plain: "c \<in> set (b64_encode url False s) \<Longrightarrow> c \<notin> {CHR 0x0A, CHR 0x0D, CHR ''='', CHR ''$''}"
proof (induction url "False" s rule: b64_encode.induct)
  case (2 url a)
  then show ?case using b64_sextet(2) b64_bounds of_char_parts by auto
next
  case (3 url a b)
  then show ?case using b64_sextet(2) b64_bounds of_char_parts by auto
next
  case (4 url a b c' r)
  have "(of_char c' :: nat) mod 64 < 64" by simp
  with 4 show ?case using b64_sextet(2) b64_bounds of_char_parts by auto
qed simp

lemma byte_back:
  fixes a b c :: char
  shows "byte_one (of_char a div 4) (of_char a mod 4 * 16) = a"
    "byte_one (of_char a div 4) (of_char a mod 4 * 16 + of_char b div 16) = a"
    "byte_two (of_char a mod 4 * 16 + of_char b div 16) (of_char b mod 16 * 4) = b"
    "byte_two (of_char a mod 4 * 16 + of_char b div 16) (of_char b mod 16 * 4 + of_char c div 64) = b"
    "byte_three (of_char b mod 16 * 4 + of_char c div 64) (of_char c mod 64) = c"
  using of_char_parts [of b] of_char_parts [of c]
  by (simp_all add: byte_one_def byte_two_def byte_three_def)

lemma b64_quanta_encode: "b64_quanta url False (b64_encode url False s) = (s, True)"
  by (induction url "False" s rule: b64_encode.induct) (simp_all add: b64_char_simps byte_back)

text \<open>Without padding, decoding gives back what was encoded.\<close>

lemma b64_decode_encode: "b64_decode url False (b64_encode url False s) = (s, True)"
proof -
  have "filter (\<lambda>c. c \<noteq> CHR 0x0A \<and> c \<noteq> CHR 0x0D) (b64_encode url False s) = b64_encode url False s"
    using b64_encode_plain by (force simp: filter_id_conv)
  then show ?thesis by (simp add: b64_decode_def b64_quanta_encode)
qed

end
