(* ===== verification/Shares.thy ===== *)
theory Shares
  imports Files Config Go_Base64
begin

text \<open>
  The package \<open>internal/shares\<close>: public links. HMAC-SHA-256 and Argon2id are parameters; on
  the Go version of the module \<open>rand.Read\<close> returns no error, so its error branches have no
  counterpart. Times are within the years RFC 3339 can write.
\<close>

record crypto =
  hmac :: "string \<Rightarrow> string \<Rightarrow> string"
  argon2 :: "string \<Rightarrow> string \<Rightarrow> nat \<Rightarrow> string"

section \<open>Tokens and passwords\<close>

definition hash_token :: "crypto \<Rightarrow> config \<Rightarrow> string \<Rightarrow> string" where
  "hash_token cr cfg token = hex_encode (hmac cr (ShareTokenPepper cfg) token)"

definition hash_password :: "crypto \<Rightarrow> string \<Rightarrow> string \<Rightarrow> string" where
  "hash_password cr salt password =
     ''$argon2id$v=19$m=65536,t=1,p=2$'' @ b64_encode False False salt @ ''$'' @
     b64_encode False False (argon2 cr password salt 32)"

definition verify_password :: "crypto \<Rightarrow> string \<Rightarrow> string \<Rightarrow> bool" where
  "verify_password cr password encoded =
     (let parts = go_split (CHR ''$'') encoded
      in if length parts \<noteq> 6 \<or> parts ! 1 \<noteq> ''argon2id'' then False
         else (case b64_decode False False (parts ! 4) of
             (salt, ok) \<Rightarrow>
               if \<not> ok then False
               else (case b64_decode False False (parts ! 5) of
                   (expected, ok') \<Rightarrow>
                     if \<not> ok' then False else argon2 cr password salt (length expected) = expected)))"

section \<open>Shares as the callers see them\<close>

record share =
  sh_id :: string
  sh_target :: string
  sh_token_hash :: string
  sh_password :: "string option"
  sh_has_password :: bool
  sh_expires :: "int option"
  sh_revoked :: "int option"
  sh_auth_version :: int
  sh_epoch :: int
  sh_created :: int
  sh_updated :: int
  sh_node :: "node option"

text \<open>\<open>scanShare\<close>: the row, and the target node when the lookup of it works.\<close>

definition scan_share :: "string option \<Rightarrow> database \<Rightarrow> share_row \<Rightarrow> share" where
  "scan_share flt db r =
     \<lparr>sh_id = sr_id r, sh_target = sr_target r, sh_token_hash = sr_token_hash r, sh_password = sr_password r,
      sh_has_password = (sr_password r \<noteq> None), sh_expires = sr_expires r, sh_revoked = sr_revoked r,
      sh_auth_version = sr_auth_version r, sh_epoch = sr_epoch r, sh_created = sr_created r,
      sh_updated = sr_updated r,
      sh_node = (case get_node flt db (sr_target r) of Inl _ \<Rightarrow> None | Inr n \<Rightarrow> Some n)\<rparr>"

text \<open>A query for one share; \<open>k\<close> is the index of its database call, the target's is the next.\<close>

definition query_share :: "outside \<Rightarrow> nat \<Rightarrow> share_row option \<Rightarrow> database \<Rightarrow> err + share" where
  "query_share ora k found db =
     (case db_fails ora k of
        Some m \<Rightarrow> Inl (DbErr (ExternalFault m))
      | None \<Rightarrow>
          (case found of
             None \<Rightarrow> Inl ErrShareNotFound
           | Some r \<Rightarrow> Inr (scan_share (db_fails ora (Suc k)) db r)))"

definition get_share_by_id :: "outside \<Rightarrow> nat \<Rightarrow> string \<Rightarrow> database \<Rightarrow> err + share" where
  "get_share_by_id ora k i db = query_share ora k (find_share db i) db"

definition find_token :: "database \<Rightarrow> string \<Rightarrow> share_row option" where
  "find_token db h = lookup_by sr_token_hash (shares db) h"

definition get_share_by_token :: "crypto \<Rightarrow> config \<Rightarrow> outside \<Rightarrow> string \<Rightarrow> database \<Rightarrow> err + share" where
  "get_share_by_token cr cfg ora token db =
     (case query_share ora 0 (find_token db (hash_token cr cfg token)) db of
        Inl e \<Rightarrow> Inl e
      | Inr s \<Rightarrow>
          if sh_revoked s \<noteq> None then Inl ErrShareRevoked
          else if (case sh_expires s of None \<Rightarrow> False | Some t \<Rightarrow> t * 1000000000 < clock ora 0) then Inl ErrShareExpired
          else if sh_epoch s \<noteq> GlobalShareEpoch cfg then Inl ErrShareRevoked
          else Inr s)"

section \<open>Creating, listing, revoking\<close>

definition new_share :: "crypto \<Rightarrow> config \<Rightarrow> outside \<Rightarrow> string \<Rightarrow> string \<Rightarrow> int option \<Rightarrow> share_row" where
  "new_share cr cfg ora target password expires =
     \<lparr>sr_id = uuid ora 0, sr_target = target,
      sr_token_hash = hash_token cr cfg (hex_encode (rand_bytes ora 0)),
      sr_password = (if password \<noteq> [] then Some (hash_password cr (rand_bytes ora 1) password) else None),
      sr_expires = map_option secs expires, sr_revoked = None, sr_auth_version = 1,
      sr_epoch = GlobalShareEpoch cfg, sr_created = secs (clock ora 0), sr_updated = secs (clock ora 0)\<rparr>"

definition create_share ::
  "crypto \<Rightarrow> config \<Rightarrow> outside \<Rightarrow> string \<Rightarrow> string \<Rightarrow> int option \<Rightarrow> database \<Rightarrow> (err + (share \<times> string)) \<times> database" where
  "create_share cr cfg ora target password expires db =
     (case get_node (db_fails ora 0) db target of
        Inl e \<Rightarrow> (Inl e, db)
      | Inr n \<Rightarrow>
          if n_trashed n \<noteq> None \<or> n_system n then (Inl ErrInvalidOperation, db)
          else (case insert_share (db_fails ora 1) (new_share cr cfg ora target password expires) db of
             Inl f \<Rightarrow> (Inl (Wrap ''failed to create share'' (DbErr f)), db)
           | Inr db' \<Rightarrow>
               (case get_share_by_id ora 2 (uuid ora 0) db' of
                  Inl e \<Rightarrow> (Inl e, db')
                | Inr s \<Rightarrow> (Inr (s, hex_encode (rand_bytes ora 0)), db'))))"

text \<open>\<open>ORDER BY created_at DESC\<close>; shares of the same second stay in the order of the table.\<close>

definition list_shares :: "outside \<Rightarrow> database \<Rightarrow> err + share list" where
  "list_shares ora db =
     (case db_fails ora 0 of
        Some m \<Rightarrow> Inl (DbErr (ExternalFault m))
      | None \<Rightarrow>
          (let rows = sort_key (\<lambda>r. - sr_created r) (shares db)
           in Inr (map (\<lambda>(k, r). scan_share (db_fails ora (Suc k)) db r) (zip [0..<length rows] rows))))"

definition revoke_row :: "int \<Rightarrow> share_row \<Rightarrow> share_row" where
  "revoke_row now s =
     s\<lparr>sr_revoked := Some now, sr_auth_version := sr_auth_version s + 1, sr_updated := now\<rparr>"

definition revoke_share :: "outside \<Rightarrow> string \<Rightarrow> database \<Rightarrow> (err + unit) \<times> database" where
  "revoke_share ora i db =
     (case update_share (db_fails ora 0) i (revoke_row (secs (clock ora 0))) db of
        Inl f \<Rightarrow> (Inl (DbErr f), db)
      | Inr db' \<Rightarrow>
          if length (filter (\<lambda>s. sr_id s = i) (shares db)) = 0 then (Inl ErrShareNotFound, db')
          else (Inr (), db'))"

section \<open>Session cookies\<close>

definition sign :: "crypto \<Rightarrow> config \<Rightarrow> string \<Rightarrow> string" where
  "sign cr cfg payload = hex_encode (hmac cr (ShareSessionSecret cfg) payload)"

definition session_payload :: "string \<Rightarrow> string \<Rightarrow> string \<Rightarrow> string \<Rightarrow> string" where
  "session_payload i version epoch expiry = go_join (CHR ''.'') [i, version, epoch, expiry]"

definition create_session_token :: "crypto \<Rightarrow> config \<Rightarrow> string \<Rightarrow> int \<Rightarrow> int \<Rightarrow> int \<Rightarrow> string" where
  "create_session_token cr cfg i version epoch expiry =
     (let payload = session_payload i (dec_int version) (dec_int epoch) (dec_int expiry)
      in payload @ ''.'' @ sign cr cfg payload)"

definition unlock_with_password :: "crypto \<Rightarrow> config \<Rightarrow> outside \<Rightarrow> string \<Rightarrow> string \<Rightarrow> database \<Rightarrow> err + string" where
  "unlock_with_password cr cfg ora token password db =
     (case get_share_by_token cr cfg ora token db of
        Inl e \<Rightarrow> Inl e
      | Inr s \<Rightarrow>
          (case sh_password s of
             None \<Rightarrow> Inl (ErrText ''share does not require a password'')
           | Some h \<Rightarrow>
               if h = [] then Inl (ErrText ''share does not require a password'')
               else if \<not> verify_password cr password h then Inl ErrInvalidPassword
               else Inr (create_session_token cr cfg (sh_id s) (sh_auth_version s) (sh_epoch s)
                   (secs (clock ora 1 + 24 * hour)))))"

text \<open>\<open>now\<close> is the clock's reading when the cookie's expiry is checked.\<close>

definition validate_session_cookie :: "crypto \<Rightarrow> config \<Rightarrow> int \<Rightarrow> share \<Rightarrow> string \<Rightarrow> bool" where
  "validate_session_cookie cr cfg now s cookie =
     (if sh_password s = None \<or> sh_password s = Some [] then True
      else if cookie = [] then False
      else (case go_split (CHR ''.'') cookie of
         [i, version, epoch, expiry, signature] \<Rightarrow>
           if i \<noteq> sh_id s then False
           else if parse_int64 version \<noteq> Some (sh_auth_version s) then False
           else if parse_int64 epoch \<noteq> Some (sh_epoch s) then False
           else (case parse_int64 expiry of
              None \<Rightarrow> False
            | Some t \<Rightarrow>
                if t < secs now then False
                else signature = sign cr cfg (session_payload i version epoch expiry))
       | _ \<Rightarrow> False))"

section \<open>The scope of a share\<close>

definition check_node_in_share :: "outside \<Rightarrow> share \<Rightarrow> string \<Rightarrow> database \<Rightarrow> (err + node) option" where
  "check_node_in_share ora s i db =
     (case get_node (db_fails ora 0) db i of
        Inl e \<Rightarrow> Some (Inl e)
      | Inr n \<Rightarrow>
          if n_trashed n \<noteq> None then Some (Inl ErrNotFound)
          else if n_id n = sh_target s then Some (Inr n)
          else (case db_fails ora 1 of
             Some _ \<Rightarrow> Some (Inl ErrAccessDenied)
           | None \<Rightarrow>
               (case subnodes (nodes db) (sh_target s) of
                  None \<Rightarrow> None
                | Some ids \<Rightarrow>
                    if length (filter (\<lambda>d. d = i) ids) = 0 then Some (Inl ErrAccessDenied) else Some (Inr n))))"

end
