(* ===== verification/Go_Url.thy ===== *)
theory Go_Url
  imports Go_Text
begin

text \<open>Percent-encoding of path segments (\<open>net/url\<close>).\<close>

text \<open>\<open>url.PathEscape\<close>.\<close>

definition path_safe :: "char \<Rightarrow> bool" where
  "path_safe c \<longleftrightarrow>
     (let n = of_char c :: nat
      in (48 \<le> n \<and> n \<le> 57) \<or> (65 \<le> n \<and> n \<le> 90) \<or> (97 \<le> n \<and> n \<le> 122)) \<or>
     c \<in> {CHR ''-'', CHR ''_'', CHR ''.'', CHR ''~'', CHR ''$'', CHR ''&'', CHR ''+'', CHR ''='', CHR '':'', CHR ''@''}"

definition upper_hex :: "nat \<Rightarrow> char" where
  "upper_hex n = (if n < 10 then char_of (48 + n) else char_of (55 + n))"

definition path_escape :: "string \<Rightarrow> string" where
  "path_escape s = concat (map (\<lambda>c. if path_safe c then [c]
     else [CHR ''%'', upper_hex (of_char c div 16), upper_hex (of_char c mod 16)]) s)"

text \<open>\<open>url.PathUnescape\<close> on text whose escapes are complete.\<close>

definition hex_val :: "char \<Rightarrow> nat" where
  "hex_val c = (let n = of_char c :: nat in if n < 58 then n - 48 else if n < 97 then n - 55 else n - 87)"

fun path_unescape :: "string \<Rightarrow> string" where
  "path_unescape (p # a # b # s) =
     (if p = CHR ''%'' then char_of (16 * hex_val a + hex_val b) # path_unescape s
      else p # path_unescape (a # b # s))"
| "path_unescape s = s"

lemma hex_val_upper: "n < 16 \<Longrightarrow> hex_val (upper_hex n) = n"
  by (simp add: hex_val_def upper_hex_def of_char_of take_bit_eq_mod Let_def)

lemma path_safe_not_percent: "path_safe c \<Longrightarrow> c \<noteq> CHR ''%''"
  by (auto simp: path_safe_def)

lemma path_escape_simps [simp]:
  "path_escape [] = []"
  "path_escape (c # s) = (if path_safe c then c # path_escape s
     else CHR ''%'' # upper_hex (of_char c div 16) # upper_hex (of_char c mod 16) # path_escape s)"
  by (simp_all add: path_escape_def)

lemma path_unescape_plain: "p \<noteq> CHR ''%'' \<Longrightarrow> path_unescape (p # s) = p # path_unescape s"
  by (cases s rule: path_unescape.cases) auto

lemma path_unescape_escape: "path_unescape (path_escape s) = s"
  using of_char_div_16
  by (induction s) (simp_all add: path_unescape_plain path_safe_not_percent hex_val_upper)

lemma path_escape_bytes: "c \<in> set (path_escape s) \<Longrightarrow> 31 < (of_char c :: nat) \<and> (of_char c :: nat) < 127"
proof (induction s)
  case (Cons b s)
  have hex: "31 < (of_char (upper_hex n) :: nat) \<and> (of_char (upper_hex n) :: nat) < 127" if "n < 16" for n
    using that by (simp add: upper_hex_def of_char_of take_bit_eq_mod)
  have "31 < (of_char b :: nat) \<and> (of_char b :: nat) < 127" if "path_safe b"
    using that by (auto simp: path_safe_def Let_def)
  with Cons hex [OF of_char_div_16 [of b]] hex [of "of_char b mod 16"] show ?case
    by (auto split: if_splits)
qed simp

end
