(* ===== verification/Http.thy ===== *)
theory Http
  imports Shares Uploads Go_Url
begin

text \<open>
  Requests and responses of \<open>net/http\<close> as the handlers use them, and \<open>internal/httpapi/errors.go\<close>.
  A body is kept as the value the code encodes, not as its JSON text; \<open>Why e\<close> in a problem stands
  for the text of the error \<open>e\<close>. Decoders of JSON request bodies are parameters.
\<close>

type_synonym headers = "string \<rightharpoonup> string"

text \<open>\<open>rq_escaped\<close> is \<open>URL.EscapedPath()\<close>. \<open>rq_header\<close> and \<open>rq_query\<close> read the empty text when the name is missing, as \<open>Get\<close> does. The
  last two fields are the values that middleware has put into the request's context.\<close>

record request =
  rq_method :: string
  rq_escaped :: string
  rq_host :: string
  rq_header :: "string \<Rightarrow> string"
  rq_query :: "string \<Rightarrow> string"
  rq_cookie :: "string \<Rightarrow> string option"
  rq_remote :: string
  rq_tls :: bool
  rq_body :: stream
  rq_request_id :: string
  rq_identity :: string

text \<open>\<open>r.URL.Path\<close>.\<close>

definition rq_path :: "request \<Rightarrow> string" where
  "rq_path rq = path_unescape (rq_escaped rq)"

datatype detail = Said string | Why err

datatype field = FText string | FInt int | FBool bool | FWord "64 word"

text \<open>\<open>PublicShareView\<close>: what a visitor of a share sees of it.\<close>

record public_view =
  pv_id :: string
  pv_target :: string
  pv_name :: string
  pv_kind :: node_kind
  pv_size :: int
  pv_need_password :: bool
  pv_unlocked :: bool
  pv_node :: node

datatype payload =
    Problem int string detail string
  | NodeJson node
  | NodesJson "node list"
  | PageJson "node list" "string option"
  | SharesJson "share list"
  | CreatedShareJson share string string
  | PublicShareJson public_view
  | Fields "(string \<times> field) list"
  | PlainText string
  | StaticFile string
  | MovedTo string
  | FileContent string "int option" string

text \<open>
  The \<open>http.ResponseWriter\<close> that the handlers get: the headers, the status that is sent and the
  body, and in \<open>rs_seen\<close> the field \<open>statusCode\<close> of the logger's wrapper around it.
\<close>

record response =
  rs_headers :: headers
  rs_status :: "int option"
  rs_body :: "payload list"
  rs_seen :: int

definition fresh_response :: response where
  "fresh_response = \<lparr>rs_headers = (\<lambda>_. None), rs_status = None, rs_body = [], rs_seen = 200\<rparr>"

definition set_header :: "string \<Rightarrow> string \<Rightarrow> response \<Rightarrow> response" where
  "set_header k v r = r\<lparr>rs_headers := (rs_headers r)(k \<mapsto> v)\<rparr>"

text \<open>Only the first status is sent, the wrapper notes the last; a body without one sends 200, and
  the wrapper, which starts at 200, does not see that.\<close>

definition write_header :: "int \<Rightarrow> response \<Rightarrow> response" where
  "write_header code r =
     (let r' = r\<lparr>rs_seen := code\<rparr> in if rs_status r' = None then r'\<lparr>rs_status := Some code\<rparr> else r')"

definition write_body :: "payload \<Rightarrow> response \<Rightarrow> response" where
  "write_body p r =
     (let r' = (if rs_status r = None then r\<lparr>rs_status := Some 200\<rparr> else r) in r'\<lparr>rs_body := rs_body r' @ [p]\<rparr>)"

definition sent_status :: "response \<Rightarrow> int" where
  "sent_status r = (case rs_status r of None \<Rightarrow> 200 | Some s \<Rightarrow> s)"

definition write_problem :: "request \<Rightarrow> int \<Rightarrow> string \<Rightarrow> detail \<Rightarrow> response \<Rightarrow> response" where
  "write_problem rq status title why r =
     write_body (Problem status title why (rq_path rq))
       (write_header status (set_header ''Content-Type'' ''application/problem+json'' r))"

definition write_json :: "int \<Rightarrow> payload \<Rightarrow> response \<Rightarrow> response" where
  "write_json status p r =
     write_body p (write_header status (set_header ''Content-Type'' ''application/json'' r))"

text \<open>\<open>http.Error\<close> and \<open>http.NotFound\<close>.\<close>

definition http_error :: "string \<Rightarrow> int \<Rightarrow> response \<Rightarrow> response" where
  "http_error msg code r =
     write_body (PlainText msg) (write_header code
       (set_header ''X-Content-Type-Options'' ''nosniff''
         (set_header ''Content-Type'' ''text/plain; charset=utf-8'' r)))"

lemma sent_status_simps [simp]:
  "rs_status r = None \<Longrightarrow> sent_status (write_problem rq s t d r) = s"
  "rs_status r = None \<Longrightarrow> sent_status (write_json s p r) = s"
  "rs_status r = None \<Longrightarrow> sent_status (http_error m s r) = s"
  "rs_status r = None \<Longrightarrow> sent_status (write_header s r) = s"
  "rs_status (set_header k v r) = rs_status r" "rs_body (set_header k v r) = rs_body r"
  by (simp_all add: sent_status_def write_problem_def write_json_def http_error_def write_header_def
      write_body_def set_header_def Let_def)

lemma response_bodies [simp]:
  "rs_body (write_problem rq s t d r) = rs_body r @ [Problem s t d (rq_path rq)]"
  "rs_body (write_json s p r) = rs_body r @ [p]"
  "rs_body (http_error m s r) = rs_body r @ [PlainText m]"
  "rs_body (write_header s r) = rs_body r"
  by (simp_all add: write_problem_def write_json_def http_error_def write_header_def write_body_def set_header_def Let_def)

lemma fresh_response_simps [simp]: "rs_status fresh_response = None" "rs_body fresh_response = []"
  by (simp_all add: fresh_response_def)

section \<open>What a request tells about its sender\<close>

text \<open>\<open>addr[:strings.LastIndex(addr, ":")]\<close>, the whole address when there is no colon.\<close>

definition before_last_colon :: "string \<Rightarrow> string" where
  "before_last_colon s =
     (if CHR '':'' \<in> set s then rev (tl (dropWhile (\<lambda>c. c \<noteq> CHR '':'') (rev s))) else s)"

definition context_actor :: "request \<Rightarrow> string \<times> string" where
  "context_actor rq = (rq_request_id rq, if rq_identity rq = [] then ''anonymous'' else rq_identity rq)"

definition client_ip :: "request \<Rightarrow> string" where
  "client_ip rq =
     (if rq_header rq ''CF-Connecting-IP'' \<noteq> [] then rq_header rq ''CF-Connecting-IP''
      else if rq_header rq ''X-Forwarded-For'' \<noteq> []
      then trim_space (hd (go_split (CHR '','') (rq_header rq ''X-Forwarded-For'')))
      else before_last_colon (rq_remote rq))"

end
