(* ===== verification/Downloads.thy ===== *)
theory Downloads
  imports Http
begin

text \<open>
  The package \<open>internal/downloads\<close>: two buffered channels bound the downloads of the admin and of
  the public side. A slot is taken before the object is opened and given back when the call
  returns, on every path.
\<close>

section \<open>Slots\<close>

record limits =
  lm_admin :: int
  lm_public :: int

definition new_limits :: "config \<Rightarrow> limits" where
  "new_limits cfg =
     \<lparr>lm_admin = (if MaxActiveDownloads cfg \<le> 0 then 8 else MaxActiveDownloads cfg),
      lm_public = (if MaxPublicDownloads cfg \<le> 0 then 4 else MaxPublicDownloads cfg)\<rparr>"

record slots =
  sl_admin :: int
  sl_public :: int

definition no_slots :: slots where
  "no_slots = \<lparr>sl_admin = 0, sl_public = 0\<rparr>"

definition taken :: "bool \<Rightarrow> slots \<Rightarrow> int" where
  "taken isPublic s = (if isPublic then sl_public s else sl_admin s)"

definition capacity :: "bool \<Rightarrow> limits \<Rightarrow> int" where
  "capacity isPublic lm = (if isPublic then lm_public lm else lm_admin lm)"

definition add_slots :: "bool \<Rightarrow> int \<Rightarrow> slots \<Rightarrow> slots" where
  "add_slots isPublic n s =
     (if isPublic then s\<lparr>sl_public := sl_public s + n\<rparr> else s\<lparr>sl_admin := sl_admin s + n\<rparr>)"

text \<open>
  The \<open>select\<close>: \<open>cancelled\<close> says that the request's context is done; when the channel has room
  too, Go picks one of the two at random, here \<open>prefer_done\<close>.
\<close>

definition acquire :: "limits \<Rightarrow> bool \<Rightarrow> bool \<Rightarrow> bool \<Rightarrow> slots \<Rightarrow> err + slots" where
  "acquire lm cancelled prefer_done isPublic s =
     (if taken isPublic s < capacity isPublic lm \<and> \<not> (cancelled \<and> prefer_done) then Inr (add_slots isPublic 1 s)
      else if cancelled then Inl ErrCanceled
      else Inl ErrDownloadLimitReached)"

definition release :: "bool \<Rightarrow> slots \<Rightarrow> slots" where
  "release isPublic s = add_slots isPublic (- 1) s"

section \<open>The headers of a download\<close>

text \<open>\<open>fmt\<close>'s \<open>%q\<close>: exact for ASCII; which other runes it escapes is Unicode's, a parameter.\<close>

definition quote_char :: "char \<Rightarrow> string" where
  "quote_char c =
     (let n = of_char c :: nat
      in if c = CHR 0x22 then [CHR 0x5C, CHR 0x22] else if c = CHR 0x5C then [CHR 0x5C, CHR 0x5C]
         else if n = 7 then [CHR 0x5C, CHR ''a''] else if n = 8 then [CHR 0x5C, CHR ''b'']
         else if n = 12 then [CHR 0x5C, CHR ''f''] else if n = 10 then [CHR 0x5C, CHR ''n'']
         else if n = 13 then [CHR 0x5C, CHR ''r''] else if n = 9 then [CHR 0x5C, CHR ''t'']
         else if n = 11 then [CHR 0x5C, CHR ''v'']
         else if n < 32 \<or> n = 127 then [CHR 0x5C, CHR ''x'', hex_digit (n div 16), hex_digit (n mod 16)]
         else [c])"

definition go_quote :: "(string \<Rightarrow> string) \<Rightarrow> string \<Rightarrow> string" where
  "go_quote uni s = (if is_ascii s then CHR 0x22 # concat (map quote_char s) @ [CHR 0x22] else uni s)"

definition download_headers :: "(string \<Rightarrow> string) \<Rightarrow> bool \<Rightarrow> node \<Rightarrow> file_object \<Rightarrow> response \<Rightarrow> response" where
  "download_headers uni isPublic n fo r =
     (let r1 = set_header ''Content-Disposition''
            (''attachment; filename='' @ go_quote uni (n_name n) @ ''; filename*=UTF-8'' @ [CHR 0x27, CHR 0x27] @ path_escape (n_name n)) r;
          r2 = set_header ''X-Content-Type-Options'' ''nosniff'' r1;
          r3 = set_header ''Content-Type'' (if fo_mime fo \<noteq> [] then fo_mime fo else octet_stream) r2;
          r4 = (case fo_sha fo of
              None \<Rightarrow> r3
            | Some h \<Rightarrow> if h \<noteq> [] then set_header ''Etag'' (go_quote uni h) r3 else r3)
      in if isPublic
         then set_header ''X-Robots-Tag'' ''noindex, nofollow''
           (set_header ''Referrer-Policy'' ''no-referrer'' (set_header ''Cache-Control'' ''private, no-store'' r4))
         else r4)"

section \<open>Serving\<close>

text \<open>\<open>http.ServeContent\<close> chooses the status (200, 206, 304, 416) and the range it sends.\<close>

definition serve_content :: "string \<Rightarrow> int option \<Rightarrow> string \<Rightarrow> response \<Rightarrow> response" where
  "serve_content name modtime content r = r\<lparr>rs_body := rs_body r @ [FileContent name modtime content]\<rparr>"

text \<open>
  \<open>ServeContent\<close> gets the name, the modification time and the content (\<open>FileContent\<close>); ranges and
  conditional requests are its business. The slot is held while it runs: \<open>start_download\<close> is the
  call up to there, with the slot taken, and \<open>release\<close> its end.
\<close>

definition start_download ::
  "(string \<Rightarrow> string) \<Rightarrow> limits \<Rightarrow> storage \<Rightarrow> outside \<Rightarrow> bool \<Rightarrow> bool \<Rightarrow> node \<Rightarrow> bool \<Rightarrow> fs \<Rightarrow> response \<Rightarrow> slots \<Rightarrow>
   ((err + unit) \<times> response) \<times> slots" where
  "start_download uni lm st ora cancelled prefer_done n isPublic fs r s =
     (case n_file n of
        None \<Rightarrow> ((Inl ErrFileNotFound, r), s)
      | Some fo \<Rightarrow>
          if n_kind n \<noteq> KindFile then ((Inl ErrFileNotFound, r), s)
          else (case acquire lm cancelled prefer_done isPublic s of
             Inl e \<Rightarrow> ((Inl e, r), s)
           | Inr s1 \<Rightarrow>
               (case open_object st (fs_fails ora 0) (fo_key fo) fs of
                  Inl e \<Rightarrow> ((Inl (Wrap ''failed to open object'' e), r), release isPublic s1)
                | Inr content \<Rightarrow>
                    ((Inr (), serve_content (n_name n) (n_updated n) content
                       (download_headers uni isPublic n fo r)), s1))))"

text \<open>The whole call, when nothing runs beside it.\<close>

definition serve_download ::
  "(string \<Rightarrow> string) \<Rightarrow> limits \<Rightarrow> storage \<Rightarrow> outside \<Rightarrow> bool \<Rightarrow> bool \<Rightarrow> node \<Rightarrow> bool \<Rightarrow> fs \<Rightarrow> response \<Rightarrow> slots \<Rightarrow>
   ((err + unit) \<times> response) \<times> slots" where
  "serve_download uni lm st ora cancelled prefer_done n isPublic fs r s =
     (case start_download uni lm st ora cancelled prefer_done n isPublic fs r s of
        ((Inl e, r'), s') \<Rightarrow> ((Inl e, r'), s')
      | ((Inr u, r'), s') \<Rightarrow> ((Inr u, r'), release isPublic s'))"

end
