(* ===== verification/Api.thy ===== *)
theory Api
  imports Audit_Log Downloads
begin

text \<open>
  The handlers of \<open>internal/httpapi/handlers.go\<close> for nodes, trash and files. A handler takes the
  server (configuration and the parameters of the model), the outside world of each call it makes
  to a service or to the audit log (\<open>calls 0\<close>, \<open>calls 1\<close>, ...), the request, the response so far and
  the state. It gives the response and the state, and \<open>None\<close> when there is no response: a call in it
  never returns, or the handler panics.
\<close>

section \<open>The server and its state\<close>

text \<open>JSON decoding of the request bodies: the values of the fields, or the text of the error.\<close>

record decoders =
  dec_folder :: "stream \<Rightarrow> string + (string option \<times> string)"
  dec_rename :: "stream \<Rightarrow> string + string"
  dec_move :: "stream \<Rightarrow> string + string"
  dec_backup :: "stream \<Rightarrow> string + bool"
  dec_share :: "stream \<Rightarrow> string + (string \<times> string \<times> int option)"
  dec_unlock :: "stream \<Rightarrow> string + string"

text \<open>\<open>sv_static\<close> is the tree of the embedded web client, if there is one: which paths it can open.\<close>

record server =
  sv_cfg :: config
  sv_storage :: storage
  sv_text :: text_env
  sv_codec :: codec
  sv_crypto :: crypto
  sv_audit :: audit_env
  sv_sha :: "string \<Rightarrow> string"
  sv_detect :: "string \<Rightarrow> string"
  sv_quote :: "string \<Rightarrow> string"
  sv_static :: "(string \<Rightarrow> bool) option"
  sv_decoders :: decoders

text \<open>The audit rows whose goroutines have not run yet are part of the state.\<close>

record app =
  ap_world :: world
  ap_slots :: slots
  ap_pending :: "audit_row list"

definition set_db :: "database \<Rightarrow> app \<Rightarrow> app" where
  "set_db db a = a\<lparr>ap_world := (ap_world a)\<lparr>w_db := db\<rparr>\<rparr>"

abbreviation ap_db :: "app \<Rightarrow> database" where
  "ap_db a \<equiv> w_db (ap_world a)"

definition record_event ::
  "server \<Rightarrow> outside \<Rightarrow> request \<Rightarrow> string \<Rightarrow> string \<Rightarrow> string \<Rightarrow> string \<Rightarrow> metadata \<Rightarrow> app \<Rightarrow> app" where
  "record_event sv ora rq action objtype objid outcome meta a =
     a\<lparr>ap_pending := ap_pending a @
       [audit_record (sv_audit sv) ora (fst (context_actor rq)) (snd (context_actor rq)) action objtype objid outcome
         (client_ip rq) meta]\<rparr>"

text \<open>\<open>string(node.Kind)\<close>.\<close>

definition kind_text :: "node_kind \<Rightarrow> string" where
  "kind_text k = (case k of KindFile \<Rightarrow> ''file'' | KindFolder \<Rightarrow> ''folder'')"

definition invalid_json :: "request \<Rightarrow> string \<Rightarrow> response \<Rightarrow> response" where
  "invalid_json rq m r = write_problem rq 400 ''Invalid JSON'' (Said m) r"

section \<open>Health and identity\<close>

definition handle_health_live :: "response \<Rightarrow> response" where
  "handle_health_live r = write_json 200 (Fields [(''status'', FText ''ok'')]) r"

text \<open>\<open>ping\<close> is the error of \<open>PingContext\<close>, if any.\<close>

definition handle_health_ready :: "string option \<Rightarrow> request \<Rightarrow> response \<Rightarrow> response" where
  "handle_health_ready ping rq r =
     (case ping of
        Some m \<Rightarrow> write_problem rq 503 ''Database Unavailable'' (Said m) r
      | None \<Rightarrow> write_json 200 (Fields [(''status'', FText ''ready'')]) r)"

definition handle_get_me :: "request \<Rightarrow> response \<Rightarrow> response" where
  "handle_get_me rq r =
     (let i = snd (context_actor rq)
      in write_json 200 (Fields [(''identity'', FText i), (''email'', FText i), (''role'', FText ''admin''),
           (''auth_type'', FText ''cloudflare_access'')]) r)"

section \<open>Nodes\<close>

text \<open>\<open>strconv.Atoi\<close> with the error dropped gives 0, except that a number out of range is clamped;
  both are outside 1..200 and mean the default page size.\<close>

definition query_limit :: "request \<Rightarrow> int" where
  "query_limit rq = (case parse_int64 (rq_query rq ''limit'') of None \<Rightarrow> 0 | Some n \<Rightarrow> n)"

definition handle_list_nodes :: "server \<Rightarrow> (nat \<Rightarrow> outside) \<Rightarrow> request \<Rightarrow> response \<Rightarrow> app \<Rightarrow> response" where
  "handle_list_nodes sv calls rq r a =
     (let parent = rq_query rq ''parent_id''
      in case list_nodes (sv_text sv) (sv_codec sv) (calls 0) (if parent \<noteq> [] then Some parent else None)
           (rq_query rq ''cursor'') (query_limit rq) (rq_query rq ''search'') (ap_db a) of
           Inl e \<Rightarrow> write_problem rq 500 ''Failed to list nodes'' (Why e) r
         | Inr (items, cont) \<Rightarrow> write_json 200 (PageJson items cont) r)"

definition handle_create_folder ::
  "server \<Rightarrow> (nat \<Rightarrow> outside) \<Rightarrow> request \<Rightarrow> response \<Rightarrow> app \<Rightarrow> response \<times> app" where
  "handle_create_folder sv calls rq r a =
     (case dec_folder (sv_decoders sv) (rq_body rq) of
        Inl m \<Rightarrow> (invalid_json rq m r, a)
      | Inr (parent, name) \<Rightarrow>
          (case create_folder (sv_text sv) (calls 0) parent name (ap_db a) of
             (Inl e, db) \<Rightarrow>
               (let outcome = (if errors_is e ErrAlreadyExists \<or> errors_is e ErrInvalidName \<or> errors_is e ErrInvalidOperation
                      then ''denied'' else ''error'');
                    resp = (if errors_is e ErrAlreadyExists then write_problem rq 409 ''Name Conflict'' (Why e) r
                      else if errors_is e ErrInvalidName \<or> errors_is e ErrInvalidOperation
                      then write_problem rq 400 ''Invalid Folder'' (Why e) r
                      else write_problem rq 500 ''Server Error'' (Why e) r)
                in (resp, record_event sv (calls 1) rq ''node.create_folder'' ''folder'' [] outcome
                     (Some [(''name'', MetaText name)]) (set_db db a)))
           | (Inr n, db) \<Rightarrow>
               (write_json 201 (NodeJson n) r,
                record_event sv (calls 1) rq ''node.create_folder'' ''folder'' (n_id n) ''success''
                  (Some [(''name'', MetaText (n_name n))]) (set_db db a))))"

definition handle_rename_node ::
  "server \<Rightarrow> (nat \<Rightarrow> outside) \<Rightarrow> request \<Rightarrow> string \<Rightarrow> response \<Rightarrow> app \<Rightarrow> response \<times> app" where
  "handle_rename_node sv calls rq i r a =
     (case dec_rename (sv_decoders sv) (rq_body rq) of
        Inl m \<Rightarrow> (invalid_json rq m r, a)
      | Inr name \<Rightarrow>
          (case rename_node (sv_text sv) (calls 0) i name (ap_db a) of
             (Inl e, db) \<Rightarrow>
               ((if errors_is e ErrNotFound then write_problem rq 404 ''Not Found'' (Why e) r
                 else if errors_is e ErrAlreadyExists then write_problem rq 409 ''Name Conflict'' (Why e) r
                 else if errors_is e ErrSystemNodeProtected then write_problem rq 403 ''Protected System Node'' (Why e) r
                 else write_problem rq 400 ''Invalid Rename'' (Why e) r),
                record_event sv (calls 1) rq ''node.rename'' ''node'' i ''error''
                  (Some [(''new_name'', MetaText name)]) (set_db db a))
           | (Inr n, db) \<Rightarrow>
               (write_json 200 (NodeJson n) r,
                record_event sv (calls 1) rq ''node.rename'' (kind_text (n_kind n)) i ''success''
                  (Some [(''new_name'', MetaText (n_name n))]) (set_db db a))))"

definition handle_move_node ::
  "server \<Rightarrow> (nat \<Rightarrow> outside) \<Rightarrow> request \<Rightarrow> string \<Rightarrow> response \<Rightarrow> app \<Rightarrow> (response \<times> app) option" where
  "handle_move_node sv calls rq i r a =
     (case dec_move (sv_decoders sv) (rq_body rq) of
        Inl m \<Rightarrow> Some (invalid_json rq m r, a)
      | Inr p \<Rightarrow>
          (let parent = (if p = [] then root_id else p); meta = Some [(''target_parent'', MetaText parent)]
           in case move_node (calls 0) i parent (ap_db a) of
                None \<Rightarrow> None
              | Some (Inl e, db) \<Rightarrow>
                  Some ((if errors_is e ErrCycleDetected then write_problem rq 400 ''Cycle Detected'' (Why e) r
                    else if errors_is e ErrAlreadyExists then write_problem rq 409 ''Name Conflict in Target Folder'' (Why e) r
                    else if errors_is e ErrSystemNodeProtected then write_problem rq 403 ''Protected System Node'' (Why e) r
                    else write_problem rq 400 ''Invalid Move'' (Why e) r),
                   record_event sv (calls 1) rq ''node.move'' ''node'' i ''error'' meta (set_db db a))
              | Some (Inr n, db) \<Rightarrow>
                  Some (write_json 200 (NodeJson n) r,
                   record_event sv (calls 1) rq ''node.move'' (kind_text (n_kind n)) i ''success'' meta (set_db db a))))"

definition handle_trash_node ::
  "server \<Rightarrow> (nat \<Rightarrow> outside) \<Rightarrow> request \<Rightarrow> string \<Rightarrow> response \<Rightarrow> app \<Rightarrow> (response \<times> app) option" where
  "handle_trash_node sv calls rq i r a =
     (case trash_node (calls 0) i (ap_db a) of
        None \<Rightarrow> None
      | Some (Inl e, db) \<Rightarrow>
          Some ((if errors_is e ErrSystemNodeProtected then write_problem rq 403 ''Protected System Node'' (Why e) r
            else write_problem rq 500 ''Trash Failed'' (Why e) r),
           record_event sv (calls 1) rq ''node.trash'' ''node'' i ''error'' None (set_db db a))
      | Some (Inr _, db) \<Rightarrow>
          Some (write_json 200 (Fields [(''status'', FText ''trashed'')]) r,
           record_event sv (calls 1) rq ''node.trash'' ''node'' i ''success'' None (set_db db a)))"

definition handle_list_trash :: "(nat \<Rightarrow> outside) \<Rightarrow> request \<Rightarrow> response \<Rightarrow> app \<Rightarrow> response" where
  "handle_list_trash calls rq r a =
     (case list_trash (calls 0) (ap_db a) of
        Inl e \<Rightarrow> write_problem rq 500 ''Failed to list trash'' (Why e) r
      | Inr items \<Rightarrow> write_json 200 (NodesJson items) r)"

definition handle_restore_node ::
  "server \<Rightarrow> (nat \<Rightarrow> outside) \<Rightarrow> request \<Rightarrow> string \<Rightarrow> response \<Rightarrow> app \<Rightarrow> (response \<times> app) option" where
  "handle_restore_node sv calls rq i r a =
     (case restore_node (calls 0) i (ap_db a) of
        None \<Rightarrow> None
      | Some (Inl e, db) \<Rightarrow>
          Some ((if errors_is e ErrAlreadyExists then write_problem rq 409 ''Name Collision at Restore Target'' (Why e) r
            else write_problem rq 400 ''Restore Failed'' (Why e) r),
           record_event sv (calls 1) rq ''node.restore'' ''node'' i ''error'' None (set_db db a))
      | Some (Inr n, db) \<Rightarrow>
          Some (write_json 200 (NodeJson n) r,
           record_event sv (calls 1) rq ''node.restore'' (kind_text (n_kind n)) i ''success'' None (set_db db a)))"

text \<open>The loop over the storage keys; the k-th removal may fail, which the code ignores.\<close>

fun remove_objects :: "storage \<Rightarrow> (nat \<Rightarrow> string option) \<Rightarrow> nat \<Rightarrow> string list \<Rightarrow> fs \<Rightarrow> fs" where
  "remove_objects st flts k [] fs = fs"
| "remove_objects st flts k (key # keys) fs =
     remove_objects st flts (Suc k) keys (snd (remove_object st (flts k) key fs))"

definition handle_purge_node ::
  "server \<Rightarrow> (nat \<Rightarrow> outside) \<Rightarrow> request \<Rightarrow> string \<Rightarrow> response \<Rightarrow> app \<Rightarrow> (response \<times> app) option" where
  "handle_purge_node sv calls rq i r a =
     (case purge_node (calls 0) i (ap_db a) of
        None \<Rightarrow> None
      | Some (Inl e, db) \<Rightarrow>
          Some (write_problem rq 500 ''Purge Failed'' (Why e) r,
           record_event sv (calls 1) rq ''node.purge'' ''node'' i ''error'' None (set_db db a))
      | Some (Inr keys, db) \<Rightarrow>
          (let fs = remove_objects (sv_storage sv) (fs_fails (calls 2)) 0 keys (w_fs (ap_world a))
           in Some (write_header 204 r,
             record_event sv (calls 1) rq ''node.purge'' ''node'' i ''success''
               (Some [(''purged_objects'', MetaInt (int (length keys)))])
               (a\<lparr>ap_world := \<lparr>w_db = db, w_fs = fs\<rparr>\<rparr>))))"

section \<open>Files\<close>

text \<open>
  \<open>conn\<close> says whether the client has gone and which way \<open>select\<close> falls. Errors of \<open>ServeDownload\<close>
  other than the limit end the handler with nothing written.
\<close>

definition handle_download_file ::
  "server \<Rightarrow> (nat \<Rightarrow> outside) \<Rightarrow> bool \<times> bool \<Rightarrow> request \<Rightarrow> string \<Rightarrow> response \<Rightarrow> app \<Rightarrow> response" where
  "handle_download_file sv calls conn rq i r a =
     (case get_node (db_fails (calls 0) 0) (ap_db a) i of
        Inl _ \<Rightarrow> write_problem rq 404 ''File Not Found'' (Said ''File does not exist or has been trashed'') r
      | Inr n \<Rightarrow>
          if n_trashed n \<noteq> None \<or> n_kind n \<noteq> KindFile
          then write_problem rq 404 ''File Not Found'' (Said ''File does not exist or has been trashed'') r
          else (case fst (serve_download (sv_quote sv) (new_limits (sv_cfg sv)) (sv_storage sv) (calls 1) (fst conn)
              (snd conn) n False (w_fs (ap_world a)) r (ap_slots a)) of
             (Inl e, r') \<Rightarrow>
               if errors_is e ErrDownloadLimitReached
               then write_problem rq 429 ''Download Limit Reached'' (Said ''Please wait for active downloads to finish'') r'
               else r'
           | (Inr _, r') \<Rightarrow> r'))"

definition handle_backup_selection ::
  "server \<Rightarrow> (nat \<Rightarrow> outside) \<Rightarrow> request \<Rightarrow> string \<Rightarrow> response \<Rightarrow> app \<Rightarrow> response \<times> app" where
  "handle_backup_selection sv calls rq i r a =
     (case dec_backup (sv_decoders sv) (rq_body rq) of
        Inl m \<Rightarrow> (invalid_json rq m r, a)
      | Inr selected \<Rightarrow>
          (case toggle_backup (calls 0) i selected (ap_db a) of
             (Inl e, db) \<Rightarrow> (write_problem rq 500 ''Failed to update backup selection'' (Why e) r, set_db db a)
           | (Inr _, db) \<Rightarrow> (write_json 200 (Fields [(''selected'', FBool selected)]) r, set_db db a)))"

end
