(* ===== verification/Api_Uploads.thy ===== *)
theory Api_Uploads
  imports Api
begin

text \<open>
  The tus endpoints of \<open>internal/httpapi/handlers.go\<close> (resumable uploads) and the storage metrics.
\<close>

section \<open>Creating an upload\<close>

definition handle_tus_options :: "server \<Rightarrow> response \<Rightarrow> response" where
  "handle_tus_options sv r =
     write_header 204
       (set_header ''Tus-Extension'' ''creation,termination''
         (set_header ''Tus-Max-Size'' (dec_int (MaxFileBytes (sv_cfg sv)))
           (set_header ''Tus-Version'' ''1.0.0'' (set_header ''Tus-Resumable'' ''1.0.0'' r))))"

text \<open>\<open>strings.SplitN(s, " ", 2)\<close> when it gives two parts.\<close>

definition split_pair :: "string \<Rightarrow> (string \<times> string) option" where
  "split_pair s =
     (if CHR '' '' \<in> set s
      then Some (takeWhile (\<lambda>c. c \<noteq> CHR '' '') s, tl (dropWhile (\<lambda>c. c \<noteq> CHR '' '') s)) else None)"

text \<open>One pair of \<open>Upload-Metadata\<close>; the error of the base64 decoder is dropped.\<close>

definition metadata_pair :: "string \<times> string \<Rightarrow> string \<Rightarrow> string \<times> string" where
  "metadata_pair fp pair =
     (case split_pair (trim_space pair) of
        None \<Rightarrow> fp
      | Some (k, v64) \<Rightarrow>
          (let v = fst (b64_decode False True v64)
           in if k = ''filename'' \<or> k = ''name'' then (v, snd fp)
              else if k = ''parent_id'' \<and> v \<noteq> [] then (fst fp, v)
              else fp))"

definition upload_metadata :: "string \<Rightarrow> string \<times> string" where
  "upload_metadata h =
     (if h = [] then (''uploaded_file'', root_id)
      else foldl metadata_pair (''uploaded_file'', root_id) (go_split (CHR '','') h))"

text \<open>\<open>sf\<close> is what \<open>statfs\<close> says of the data directory.\<close>

definition handle_tus_create ::
  "server \<Rightarrow> string + statfs \<Rightarrow> (nat \<Rightarrow> outside) \<Rightarrow> request \<Rightarrow> response \<Rightarrow> app \<Rightarrow> response \<times> app" where
  "handle_tus_create sv sf calls rq r a =
     (if rq_header rq ''Upload-Length'' = []
      then (write_problem rq 400 ''Missing Upload-Length'' (Said ''Upload-Length header is required'') r, a)
      else (case parse_int64 (rq_header rq ''Upload-Length'') of
         None \<Rightarrow> (write_problem rq 400 ''Invalid Upload-Length'' (Said ''Must be non-negative integer'') r, a)
       | Some len \<Rightarrow>
           if len < 0
           then (write_problem rq 400 ''Invalid Upload-Length'' (Said ''Must be non-negative integer'') r, a)
           else (case upload_metadata (rq_header rq ''Upload-Metadata'') of
              (filename, parent) \<Rightarrow>
                (case create_upload (sv_text sv) (sv_cfg sv) (sv_storage sv) sf (calls 0) (snd (context_actor rq)) parent
                    filename len (ap_world a) of
                   (Inl e, w) \<Rightarrow>
                     ((if errors_is e ErrAlreadyExists then write_problem rq 409 ''File Already Exists'' (Why e) r
                       else if errors_is e ErrQuotaExceeded then write_problem rq 507 ''Quota Exceeded'' (Why e) r
                       else if errors_is e ErrFileTooLarge then write_problem rq 413 ''File Too Large'' (Why e) r
                       else write_problem rq 400 ''Upload Creation Failed'' (Why e) r),
                      a\<lparr>ap_world := w\<rparr>)
                 | (Inr u, w) \<Rightarrow>
                     (write_header 201 (set_header ''Location'' (''/api/v1/uploads/tus/'' @ up_id u)
                        (set_header ''Tus-Resumable'' ''1.0.0'' r)),
                      a\<lparr>ap_world := w\<rparr>)))))"

section \<open>Status, chunks, termination\<close>

definition handle_tus_head :: "(nat \<Rightarrow> outside) \<Rightarrow> request \<Rightarrow> string \<Rightarrow> response \<Rightarrow> app \<Rightarrow> response" where
  "handle_tus_head calls rq i r a =
     (case get_upload (db_fails (calls 0) 0) (ap_db a) i of
        Inl e \<Rightarrow> write_problem rq 404 ''Upload Not Found'' (Why e) r
      | Inr u \<Rightarrow>
          write_header 200
            (set_header ''Cache-Control'' ''no-store''
              (set_header ''Upload-Length'' (dec_int (up_expected u))
                (set_header ''Upload-Offset'' (dec_int (up_received u)) (set_header ''Tus-Resumable'' ''1.0.0'' r)))))"

definition handle_tus_patch ::
  "server \<Rightarrow> (nat \<Rightarrow> outside) \<Rightarrow> request \<Rightarrow> string \<Rightarrow> response \<Rightarrow> app \<Rightarrow> response \<times> app" where
  "handle_tus_patch sv calls rq i r a =
     (if rq_header rq ''Content-Type'' \<noteq> ''application/offset+octet-stream''
      then (write_problem rq 415 ''Unsupported Media Type'' (Said ''Content-Type must be application/offset+octet-stream'') r, a)
      else if rq_header rq ''Upload-Offset'' = []
      then (write_problem rq 400 ''Missing Upload-Offset'' (Said ''Upload-Offset header is required'') r, a)
      else (case parse_int64 (rq_header rq ''Upload-Offset'') of
         None \<Rightarrow> (write_problem rq 400 ''Invalid Upload-Offset'' (Said ''Must be non-negative integer'') r, a)
       | Some offset \<Rightarrow>
           if offset < 0
           then (write_problem rq 400 ''Invalid Upload-Offset'' (Said ''Must be non-negative integer'') r, a)
           else (case write_chunk (sv_sha sv) (sv_detect sv) (sv_storage sv) (calls 0) i offset (rq_body rq) (ap_world a) of
              (Inl e, w) \<Rightarrow>
                ((if errors_is e ErrOffsetMismatch then write_problem rq 409 ''Offset Mismatch'' (Why e) r
                  else write_problem rq 400 ''Upload Write Failed'' (Why e) r),
                 a\<lparr>ap_world := w\<rparr>)
            | (Inr u, w) \<Rightarrow>
                (write_header 204 (set_header ''Upload-Offset'' (dec_int (up_received u))
                   (set_header ''Tus-Resumable'' ''1.0.0'' r)),
                 if up_state u = StateComplete
                 then record_event sv (calls 1) rq ''upload.complete'' ''file'' (up_id u) ''success''
                   (Some [(''filename'', MetaText (up_name u)), (''size'', MetaInt (up_expected u)),
                     (''sha256'', MetaTextPtr (up_sha u))]) (a\<lparr>ap_world := w\<rparr>)
                 else a\<lparr>ap_world := w\<rparr>))))"

definition handle_tus_delete :: "server \<Rightarrow> (nat \<Rightarrow> outside) \<Rightarrow> request \<Rightarrow> string \<Rightarrow> response \<Rightarrow> app \<Rightarrow> response \<times> app" where
  "handle_tus_delete sv calls rq i r a =
     (case terminate_upload (sv_storage sv) (calls 0) i (ap_world a) of
        (Inl e, w) \<Rightarrow> (write_problem rq 400 ''Terminate Failed'' (Why e) r, a\<lparr>ap_world := w\<rparr>)
      | (Inr _, w) \<Rightarrow> (write_header 204 (set_header ''Tus-Resumable'' ''1.0.0'' r), a\<lparr>ap_world := w\<rparr>))"

section \<open>Storage metrics\<close>

text \<open>The queries' errors are dropped and leave 0; \<open>uint64(MaxStorageBytes)\<close> stands in for an unknown disk size.\<close>

definition handle_system_storage ::
  "server \<Rightarrow> string + statfs \<Rightarrow> (nat \<Rightarrow> outside) \<Rightarrow> response \<Rightarrow> app \<Rightarrow> response" where
  "handle_system_storage sv sf calls r a =
     (let stored = sum_query (db_fails (calls 0) 0) (stored_bytes (ap_db a));
          reserved = sum_query (db_fails (calls 0) 1) (reserved_bytes (ap_db a));
          count = (if db_fails (calls 0) 2 = None
            then int (length (filter (\<lambda>r. nr_trashed r = None) (nodes (ap_db a)))) else 0);
          disk = (case get_disk_space sf of Inl _ \<Rightarrow> \<lparr>ds_total = 0, ds_free = 0, ds_used = 0\<rparr> | Inr d \<Rightarrow> d);
          diskTotal = (if ds_total disk = 0 then word_of_int (MaxStorageBytes (sv_cfg sv)) else ds_total disk)
      in write_json 200 (Fields
           [(''stored_bytes'', FInt stored), (''reserved_bytes'', FInt reserved),
            (''total_used_bytes'', FInt (wrap64 (stored + reserved))), (''max_storage_bytes'', FWord diskTotal),
            (''disk_total_bytes'', FWord diskTotal), (''disk_free_bytes'', FWord (ds_free disk)),
            (''disk_used_bytes'', FWord (ds_used disk)), (''node_count'', FInt count)]) r)"

end
