(* ===== verification/Api_Shares.thy ===== *)
theory Api_Shares
  imports Api
begin

text \<open>
  The handlers of \<open>internal/httpapi/handlers.go\<close> for shares: their administration and the public
  pages under \<open>/s/\<close>. In the public ones \<open>calls 0\<close> is the world of the token lookup, \<open>calls 1\<close> of the
  cookie check (its clock), and the later ones of what follows.
\<close>

section \<open>Administration\<close>

definition handle_list_shares :: "(nat \<Rightarrow> outside) \<Rightarrow> request \<Rightarrow> response \<Rightarrow> app \<Rightarrow> response" where
  "handle_list_shares calls rq r a =
     (case list_shares (calls 0) (ap_db a) of
        Inl e \<Rightarrow> write_problem rq 500 ''Failed to list shares'' (Why e) r
      | Inr ss \<Rightarrow> write_json 200 (SharesJson ss) r)"

definition share_url :: "config \<Rightarrow> request \<Rightarrow> string \<Rightarrow> string" where
  "share_url cfg rq token =
     (if AppShareHost cfg \<noteq> [] then ''https://'' @ AppShareHost cfg @ ''/s/'' @ token
      else (if \<not> rq_tls rq \<and> rq_header rq ''X-Forwarded-Proto'' \<noteq> ''https'' then ''http'' else ''https'') @
        ''://'' @ rq_host rq @ ''/s/'' @ token)"

definition handle_create_share ::
  "server \<Rightarrow> (nat \<Rightarrow> outside) \<Rightarrow> request \<Rightarrow> response \<Rightarrow> app \<Rightarrow> response \<times> app" where
  "handle_create_share sv calls rq r a =
     (case dec_share (sv_decoders sv) (rq_body rq) of
        Inl m \<Rightarrow> (invalid_json rq m r, a)
      | Inr (target, password, expires) \<Rightarrow>
          (case create_share (sv_crypto sv) (sv_cfg sv) (calls 0) target password expires (ap_db a) of
             (Inl e, db) \<Rightarrow>
               (write_problem rq 400 ''Create Share Failed'' (Why e) r,
                record_event sv (calls 1) rq ''share.create'' ''share'' [] ''error'' None (set_db db a))
           | (Inr (s, token), db) \<Rightarrow>
               (write_json 201 (CreatedShareJson s token (share_url (sv_cfg sv) rq token)) r,
                record_event sv (calls 1) rq ''share.create'' ''share'' (sh_id s) ''success''
                  (Some [(''target_node_id'', MetaText (sh_target s)), (''has_password'', MetaBool (sh_has_password s))])
                  (set_db db a))))"

definition handle_revoke_share ::
  "server \<Rightarrow> (nat \<Rightarrow> outside) \<Rightarrow> request \<Rightarrow> string \<Rightarrow> response \<Rightarrow> app \<Rightarrow> response \<times> app" where
  "handle_revoke_share sv calls rq i r a =
     (case revoke_share (calls 0) i (ap_db a) of
        (Inl e, db) \<Rightarrow>
          (write_problem rq 400 ''Revoke Failed'' (Why e) r,
           record_event sv (calls 1) rq ''share.revoke'' ''share'' i ''error'' None (set_db db a))
      | (Inr _, db) \<Rightarrow>
          (write_header 204 r, record_event sv (calls 1) rq ''share.revoke'' ''share'' i ''success'' None (set_db db a)))"

section \<open>Public pages\<close>

definition session_cookie :: string where
  "session_cookie = ''filemgr_share_session''"

definition private_headers :: "response \<Rightarrow> response" where
  "private_headers r =
     set_header ''X-Robots-Tag'' ''noindex, nofollow''
       (set_header ''Referrer-Policy'' ''no-referrer'' (set_header ''Cache-Control'' ''private, no-store'' r))"

definition share_not_found :: "request \<Rightarrow> response \<Rightarrow> response" where
  "share_not_found rq r = write_problem rq 404 ''Share Not Found'' (Said ''Link is invalid or has expired'') r"

text \<open>
  The code reads the target node through a pointer that is nil when the lookup of the node
  failed; the run-time panic is \<open>None\<close>.
\<close>

definition handle_public_get ::
  "server \<Rightarrow> (nat \<Rightarrow> outside) \<Rightarrow> request \<Rightarrow> string \<Rightarrow> response \<Rightarrow> app \<Rightarrow> response option" where
  "handle_public_get sv calls rq token r a =
     (case get_share_by_token (sv_crypto sv) (sv_cfg sv) (calls 0) token (ap_db a) of
        Inl _ \<Rightarrow> Some (share_not_found rq r)
      | Inr s \<Rightarrow>
          (let unlocked = (\<not> sh_has_password s \<or> (case rq_cookie rq session_cookie of
                 None \<Rightarrow> False
               | Some c \<Rightarrow> validate_session_cookie (sv_crypto sv) (sv_cfg sv) (clock (calls 1) 0) s c))
           in case sh_node s of
                None \<Rightarrow> None
              | Some n \<Rightarrow>
                  Some (write_json 200 (PublicShareJson
                    \<lparr>pv_id = sh_id s, pv_target = sh_target s, pv_name = n_name n, pv_kind = n_kind n,
                     pv_size = (case n_file n of None \<Rightarrow> 0 | Some fo \<Rightarrow> fo_size fo),
                     pv_need_password = sh_has_password s, pv_unlocked = unlocked, pv_node = n\<rparr>) (private_headers r))))"

text \<open>The attributes of the cookie (\<open>http.SetCookie\<close> on plain values), one header line.\<close>

definition cookie_line :: "config \<Rightarrow> string \<Rightarrow> string \<Rightarrow> string" where
  "cookie_line cfg token v =
     session_cookie @ ''='' @ v @ ''; Path=/s/'' @ token @ ''; Max-Age=86400; HttpOnly'' @
     (if AppEnv cfg = ''production'' then ''; Secure'' else []) @ ''; SameSite=Lax''"

definition handle_public_unlock ::
  "server \<Rightarrow> (nat \<Rightarrow> outside) \<Rightarrow> request \<Rightarrow> string \<Rightarrow> response \<Rightarrow> app \<Rightarrow> response" where
  "handle_public_unlock sv calls rq token r a =
     (case dec_unlock (sv_decoders sv) (rq_body rq) of
        Inl m \<Rightarrow> invalid_json rq m r
      | Inr password \<Rightarrow>
          (case unlock_with_password (sv_crypto sv) (sv_cfg sv) (calls 0) token password (ap_db a) of
             Inl e \<Rightarrow> write_problem rq 401 ''Invalid Password'' (Why e) r
           | Inr v \<Rightarrow>
               write_json 200 (Fields [(''unlocked'', FBool True)])
                 (set_header ''Set-Cookie'' (cookie_line (sv_cfg sv) token v) r)))"

text \<open>The check before a listing or a download: a share with a password needs a valid cookie.\<close>

definition session_open :: "server \<Rightarrow> outside \<Rightarrow> request \<Rightarrow> share \<Rightarrow> bool" where
  "session_open sv ora rq s \<longleftrightarrow>
     (if sh_has_password s
      then (case rq_cookie rq session_cookie of
          None \<Rightarrow> False
        | Some c \<Rightarrow> validate_session_cookie (sv_crypto sv) (sv_cfg sv) (clock ora 0) s c)
      else True)"

definition password_required :: "request \<Rightarrow> response \<Rightarrow> response" where
  "password_required rq r =
     write_problem rq 401 ''Password Required'' (Said ''Must unlock share with password first'') r"

definition handle_public_nodes ::
  "server \<Rightarrow> (nat \<Rightarrow> outside) \<Rightarrow> request \<Rightarrow> string \<Rightarrow> response \<Rightarrow> app \<Rightarrow> response option" where
  "handle_public_nodes sv calls rq token r a =
     (case get_share_by_token (sv_crypto sv) (sv_cfg sv) (calls 0) token (ap_db a) of
        Inl _ \<Rightarrow> Some (share_not_found rq r)
      | Inr s \<Rightarrow>
          if \<not> session_open sv (calls 1) rq s then Some (password_required rq r)
          else (case sh_node s of
             None \<Rightarrow> None
           | Some n \<Rightarrow>
               if n_kind n \<noteq> KindFolder
               then Some (write_problem rq 400 ''Invalid Share Target'' (Said ''Shared item is not a folder'') r)
               else
                 (let parent = rq_query rq ''parent_id'';
                      target = (if parent \<noteq> [] \<and> parent \<noteq> sh_target s
                        then (case check_node_in_share (calls 2) s parent (ap_db a) of
                            None \<Rightarrow> None
                          | Some (Inl _) \<Rightarrow> Some (Inl ())
                          | Some (Inr _) \<Rightarrow> Some (Inr parent))
                        else Some (Inr (sh_target s)))
                  in case target of
                       None \<Rightarrow> None
                     | Some (Inl _) \<Rightarrow> Some (write_problem rq 403 ''Access Denied'' (Said ''Folder is outside share'') r)
                     | Some (Inr p) \<Rightarrow>
                         (case list_nodes (sv_text sv) (sv_codec sv) (calls 3) (Some p) (rq_query rq ''cursor'')
                             (query_limit rq) (rq_query rq ''search'') (ap_db a) of
                            Inl e \<Rightarrow> Some (write_problem rq 500 ''List Failed'' (Why e) r)
                          | Inr (items, cont) \<Rightarrow> Some (write_json 200 (PageJson items cont) (private_headers r))))))"

definition handle_public_download ::
  "server \<Rightarrow> (nat \<Rightarrow> outside) \<Rightarrow> bool \<times> bool \<Rightarrow> request \<Rightarrow> string \<Rightarrow> string \<Rightarrow> response \<Rightarrow> app \<Rightarrow> response option" where
  "handle_public_download sv calls conn rq token i r a =
     (case get_share_by_token (sv_crypto sv) (sv_cfg sv) (calls 0) token (ap_db a) of
        Inl _ \<Rightarrow> Some (share_not_found rq r)
      | Inr s \<Rightarrow>
          if \<not> session_open sv (calls 1) rq s then Some (password_required rq r)
          else (case check_node_in_share (calls 2) s i (ap_db a) of
             None \<Rightarrow> None
           | Some (Inl e) \<Rightarrow> Some (write_problem rq 403 ''Access Denied'' (Why e) r)
           | Some (Inr n) \<Rightarrow>
               (case fst (serve_download (sv_quote sv) (new_limits (sv_cfg sv)) (sv_storage sv) (calls 3) (fst conn)
                   (snd conn) n True (w_fs (ap_world a)) r (ap_slots a)) of
                  (Inl e, r') \<Rightarrow>
                    Some (if errors_is e ErrDownloadLimitReached
                      then write_problem rq 429 ''Download Limit Reached'' (Said ''Public download capacity reached'') r'
                      else r')
                | (Inr _, r') \<Rightarrow> Some r')))"

end
