(* ===== verification/Auth.thy ===== *)
theory Auth
  imports Http
begin

text \<open>
  The package \<open>internal/auth\<close>: Cloudflare Access tokens. The JWT library is a parameter: what it
  reads from a token's header before it asks for a key, and the claims it returns when the
  signature and the registered time claims hold under a key. What the certificate endpoint
  answers is an input of the call that may fetch it.
\<close>

record rsa_key =
  rk_modulus :: nat
  rk_exponent :: int

record jwks_key =
  jk_kid :: string
  jk_kty :: string
  jk_modulus :: string
  jk_exponent :: string

text \<open>A request that cannot be made, one that fails, a status with a body that may not decode.\<close>

datatype jwks_answer = NoRequest string | NoAnswer string | Answer int "string + jwks_key list"

text \<open>Whether the signing method is RSA, and the key id when it is a string.\<close>

record jwt_header =
  jh_rsa :: bool
  jh_kid :: "string option"

datatype claim = ClaimText string | ClaimList "claim list" | ClaimOther

type_synonym claims = "string \<rightharpoonup> claim"

record jwt_lib =
  jwt_header :: "string \<Rightarrow> jwt_header option"
  jwt_claims :: "string \<Rightarrow> rsa_key \<Rightarrow> int \<Rightarrow> claims option"

text \<open>The cached keys, the latest entry of a key id first, and the time of the last fetch.\<close>

record verifier =
  vf_keys :: "(string \<times> rsa_key) list"
  vf_last :: "int option"

definition new_verifier :: verifier where
  "new_verifier = \<lparr>vf_keys = [], vf_last = None\<rparr>"

datatype auth_error = Unauthorized | Forbidden

section \<open>Keys\<close>

definition bytes_to_nat :: "string \<Rightarrow> nat" where
  "bytes_to_nat bs = foldl (\<lambda>n b. 256 * n + of_char b) 0 bs"

definition bytes_to_int :: "string \<Rightarrow> int" where
  "bytes_to_int bs = foldl (\<lambda>n b. wrap64 (256 * n + of_char b)) 0 bs"

definition parse_key :: "jwks_key \<Rightarrow> (string \<times> rsa_key) option" where
  "parse_key k =
     (if jk_kty k \<noteq> ''RSA'' then None
      else (case b64_decode True False (jk_modulus k) of
         (n, ok) \<Rightarrow>
           if \<not> ok then None
           else (case b64_decode True False (jk_exponent k) of
              (e, ok') \<Rightarrow>
                if \<not> ok' then None
                else Some (jk_kid k, \<lparr>rk_modulus = bytes_to_nat n, rk_exponent = bytes_to_int e\<rparr>))))"

definition parse_keys :: "jwks_key list \<Rightarrow> (string \<times> rsa_key) list" where
  "parse_keys ks = rev (List.map_filter parse_key ks)"

text \<open>\<open>fetchJWKS\<close>: at most once in ten seconds while keys are cached. \<open>Inl\<close> is the error.\<close>

definition recently_fetched :: "int \<Rightarrow> verifier \<Rightarrow> bool" where
  "recently_fetched now v \<longleftrightarrow>
     (case vf_last v of None \<Rightarrow> False | Some t \<Rightarrow> now - t < 10000000000) \<and> vf_keys v \<noteq> []"

definition fetch_jwks :: "jwks_answer \<Rightarrow> int \<Rightarrow> int \<Rightarrow> verifier \<Rightarrow> (err + unit) \<times> verifier" where
  "fetch_jwks ans now fetched v =
     (if recently_fetched now v then (Inr (), v)
      else (case ans of
         NoRequest m \<Rightarrow> (Inl (ErrText m), v)
       | NoAnswer m \<Rightarrow> (Inl (Wrap ''failed to fetch jwks'' (ErrText m)), v)
       | Answer code body \<Rightarrow>
           if code \<noteq> 200 then (Inl (ErrText (''unexpected jwks status: '' @ dec_int code)), v)
           else (case body of
              Inl m \<Rightarrow> (Inl (Wrap ''failed to decode jwks'' (ErrText m)), v)
            | Inr ks \<Rightarrow> (Inr (), v\<lparr>vf_keys := parse_keys ks, vf_last := Some fetched\<rparr>))))"

section \<open>Tokens\<close>

text \<open>The key function handed to the library: the key for a token's header, or an error.\<close>

definition find_key :: "jwks_answer \<Rightarrow> int \<Rightarrow> int \<Rightarrow> jwt_header \<Rightarrow> verifier \<Rightarrow> rsa_key option \<times> verifier" where
  "find_key ans now fetched h v =
     (if \<not> jh_rsa h then (None, v)
      else (case jh_kid h of
         None \<Rightarrow> (None, v)
       | Some kid \<Rightarrow>
           (case map_of (vf_keys v) kid of
              Some k \<Rightarrow> (Some k, v)
            | None \<Rightarrow>
                (case fetch_jwks ans now fetched v of
                   (Inl e, v') \<Rightarrow> (None, v')
                 | (Inr _, v') \<Rightarrow> (map_of (vf_keys v') kid, v')))))"

definition audiences :: "claim \<Rightarrow> string list" where
  "audiences c =
     (case c of
        ClaimText a \<Rightarrow> [a]
      | ClaimList cs \<Rightarrow> List.map_filter (\<lambda>x. case x of ClaimText a \<Rightarrow> Some a | _ \<Rightarrow> None) cs
      | ClaimOther \<Rightarrow> [])"

definition claim_identity :: "claims \<Rightarrow> string" where
  "claim_identity cl =
     (case cl ''email'' of
        Some (ClaimText e) \<Rightarrow>
          if e \<noteq> [] then e else (case cl ''sub'' of Some (ClaimText s) \<Rightarrow> s | _ \<Rightarrow> [])
      | _ \<Rightarrow> (case cl ''sub'' of Some (ClaimText s) \<Rightarrow> s | _ \<Rightarrow> []))"

text \<open>What follows a token the library accepts: the audience, the identity, the allowed one.\<close>

definition check_claims :: "config \<Rightarrow> claims \<Rightarrow> auth_error + string" where
  "check_claims cfg cl =
     (case cl ''aud'' of
        None \<Rightarrow> Inl Unauthorized
      | Some a \<Rightarrow>
          if CFAccessAud cfg \<notin> set (audiences a) then Inl Unauthorized
          else if claim_identity cl = [] then Inl Unauthorized
          else if CFAccessAllowedEmail cfg \<noteq> [] \<and> claim_identity cl \<noteq> CFAccessAllowedEmail cfg
          then Inl Forbidden
          else Inr (claim_identity cl))"

definition verify_token ::
  "config \<Rightarrow> jwt_lib \<Rightarrow> jwks_answer \<Rightarrow> (nat \<Rightarrow> int) \<Rightarrow> string \<Rightarrow> verifier \<Rightarrow> (auth_error + string) \<times> verifier" where
  "verify_token cfg lib ans clk token v =
     (if DevAuthBypass cfg then (Inr (DevAdminEmail cfg), v)
      else if token = [] then (Inl Unauthorized, v)
      else (case jwt_header lib token of
         None \<Rightarrow> (Inl Unauthorized, v)
       | Some h \<Rightarrow>
           (case find_key ans (clk 0) (clk 1) h v of
              (None, v') \<Rightarrow> (Inl Unauthorized, v')
            | (Some k, v') \<Rightarrow>
                (case jwt_claims lib token k (clk 2) of
                   None \<Rightarrow> (Inl Unauthorized, v')
                 | Some cl \<Rightarrow> (check_claims cfg cl, v')))))"

section \<open>The middleware\<close>

definition access_token :: "request \<Rightarrow> string" where
  "access_token rq =
     (if rq_header rq ''Cf-Access-Jwt-Assertion'' \<noteq> [] then rq_header rq ''Cf-Access-Jwt-Assertion''
      else (case rq_cookie rq ''CF_Authorization'' of None \<Rightarrow> [] | Some c \<Rightarrow> c))"

text \<open>Either the request with the identity in its context, for the next handler, or an error.\<close>

definition authenticate ::
  "config \<Rightarrow> jwt_lib \<Rightarrow> jwks_answer \<Rightarrow> (nat \<Rightarrow> int) \<Rightarrow> request \<Rightarrow> verifier \<Rightarrow> (auth_error + request) \<times> verifier" where
  "authenticate cfg lib ans clk rq v =
     (if DevAuthBypass cfg then (Inr (rq\<lparr>rq_identity := DevAdminEmail cfg\<rparr>), v)
      else (case verify_token cfg lib ans clk (access_token rq) v of
         (Inl e, v') \<Rightarrow> (Inl e, v')
       | (Inr i, v') \<Rightarrow> (Inr (rq\<lparr>rq_identity := i\<rparr>), v')))"

definition auth_refused :: "auth_error \<Rightarrow> response \<Rightarrow> response" where
  "auth_refused e r =
     (case e of
        Forbidden \<Rightarrow> http_error ''{\"error\":\"forbidden\",\"message\":\"Identity not permitted\"}'' 403 r
      | Unauthorized \<Rightarrow>
          http_error ''{\"error\":\"unauthorized\",\"message\":\"Cloudflare Access authentication required\"}'' 401 r)"

section \<open>Who is let in\<close>

lemma find_key_Some:
  assumes "find_key ans now fetched h v = (Some k, v')"
  obtains kid where "jh_rsa h" "jh_kid h = Some kid" "map_of (vf_keys v') kid = Some k"
    "v' = v \<or> (\<exists>ks. ans = Answer 200 (Inr ks) \<and> vf_keys v' = parse_keys ks \<and> \<not> recently_fetched now v)"
  using assms
  by (auto simp: find_key_def fetch_jwks_def split: if_splits option.splits jwks_answer.splits sum.splits)

text \<open>
  C11: Without the development bypass the middleware passes a request on only with an identity
  that it has verified: some RSA key, cached before or from the endpoint's answer, under which
  the JWT library accepts the request's token, with claims whose audience is the configured one
  and whose e-mail or subject is that identity, which is not empty and is the allowed one if one
  is configured.
\<close>

theorem admitted_request_verified:
  assumes "authenticate cfg lib ans clk rq v = (Inr rq', v')" and "\<not> DevAuthBypass cfg"
  shows "\<exists>h kid k cl a. jwt_header lib (access_token rq) = Some h \<and> jh_rsa h \<and> jh_kid h = Some kid \<and>
    map_of (vf_keys v') kid = Some k \<and> (v' = v \<or> (\<exists>ks. ans = Answer 200 (Inr ks) \<and> vf_keys v' = parse_keys ks)) \<and>
    jwt_claims lib (access_token rq) k (clk 2) = Some cl \<and>
    cl ''aud'' = Some a \<and> CFAccessAud cfg \<in> set (audiences a) \<and>
    rq' = rq\<lparr>rq_identity := claim_identity cl\<rparr> \<and> claim_identity cl \<noteq> [] \<and>
    (CFAccessAllowedEmail cfg \<noteq> [] \<longrightarrow> claim_identity cl = CFAccessAllowedEmail cfg)"
proof -
  from assms obtain i where ver: "verify_token cfg lib ans clk (access_token rq) v = (Inr i, v')"
    and rq': "rq' = rq\<lparr>rq_identity := i\<rparr>"
    by (auto simp: authenticate_def split: prod.splits sum.splits)
  from ver assms(2) obtain h k cl where h: "jwt_header lib (access_token rq) = Some h"
    and key: "find_key ans (clk 0) (clk 1) h v = (Some k, v')"
    and cl: "jwt_claims lib (access_token rq) k (clk 2) = Some cl" and i: "check_claims cfg cl = Inr i"
    by (auto simp: verify_token_def split: if_splits option.splits prod.splits)
  from i obtain a where a: "cl ''aud'' = Some a" "CFAccessAud cfg \<in> set (audiences a)" "i = claim_identity cl"
      "claim_identity cl \<noteq> []" "CFAccessAllowedEmail cfg \<noteq> [] \<longrightarrow> claim_identity cl = CFAccessAllowedEmail cfg"
    by (auto simp: check_claims_def split: option.splits if_splits)
  from key obtain kid where "jh_rsa h" "jh_kid h = Some kid" "map_of (vf_keys v') kid = Some k"
      "v' = v \<or> (\<exists>ks. ans = Answer 200 (Inr ks) \<and> vf_keys v' = parse_keys ks \<and> \<not> recently_fetched (clk 0) v)"
    by (rule find_key_Some)
  with h cl a rq' show ?thesis by blast
qed

definition auth_cfg :: config where
  "auth_cfg = (read_config (\<lambda>_. []))\<lparr>DevAuthBypass := False, CFAccessAud := ''aud'', CFAccessAllowedEmail := []\<rparr>"

definition demo_lib :: jwt_lib where
  "demo_lib = \<lparr>jwt_header = (\<lambda>t. if t = ''good'' then Some \<lparr>jh_rsa = True, jh_kid = Some ''k1''\<rparr> else None),
     jwt_claims = (\<lambda>t k now. if rk_modulus k = 1 then Some [''aud'' \<mapsto> ClaimList [ClaimText ''aud''], ''email'' \<mapsto> ClaimText ''a@b''] else None)\<rparr>"

definition demo_answer :: jwks_answer where
  "demo_answer = Answer 200 (Inr [\<lparr>jk_kid = ''k1'', jk_kty = ''RSA'', jk_modulus = ''AQ'', jk_exponent = ''AQAB''\<rparr>])"

definition demo_request :: request where
  "demo_request = \<lparr>rq_method = ''GET'', rq_escaped = ''/api/v1/me'', rq_host = ''h'',
     rq_header = (\<lambda>k. if k = ''Cf-Access-Jwt-Assertion'' then ''good'' else []), rq_query = (\<lambda>_. []), rq_cookie = (\<lambda>_. None),
     rq_remote = ''1.2.3.4:5'', rq_tls = False, rq_body = \<lparr>st_bytes = [], st_error = None\<rparr>, rq_request_id = ''r'', rq_identity = []\<rparr>"

lemma demo_parse_keys:
  "parse_keys [\<lparr>jk_kid = ''k1'', jk_kty = ''RSA'', jk_modulus = ''AQ'', jk_exponent = ''AQAB''\<rparr>] =
     [(''k1'', \<lparr>rk_modulus = 1, rk_exponent = 65537\<rparr>)]"
proof -
  have "b64_decode True False ''AQ'' = ([CHR 0x01], True)" "b64_decode True False ''AQAB'' = ([CHR 0x01, CHR 0x00, CHR 0x01], True)"
    by code_simp+
  then show ?thesis
    by (simp add: parse_keys_def parse_key_def map_filter_def bytes_to_nat_def bytes_to_int_def wrap64_id in_int64_def)
qed

lemma demo_authenticate:
  "authenticate auth_cfg demo_lib demo_answer (\<lambda>_. 0) demo_request new_verifier =
     (Inr (demo_request\<lparr>rq_identity := ''a@b''\<rparr>),
      \<lparr>vf_keys = [(''k1'', \<lparr>rk_modulus = 1, rk_exponent = 65537\<rparr>)], vf_last = Some 0\<rparr>)"
  by (simp add: authenticate_def verify_token_def auth_cfg_def access_token_def demo_request_def demo_lib_def find_key_def
      new_verifier_def fetch_jwks_def recently_fetched_def demo_answer_def demo_parse_keys check_claims_def audiences_def
      claim_identity_def map_filter_def)

theorem admitted_request_verified_witness:
  "fst (authenticate auth_cfg demo_lib demo_answer (\<lambda>_. 0) demo_request new_verifier) = Inr (demo_request\<lparr>rq_identity := ''a@b''\<rparr>) \<and>
   (\<exists>kid k. map_of [(''k1'', \<lparr>rk_modulus = 1, rk_exponent = 65537\<rparr> :: rsa_key)] kid = Some k \<and> rk_modulus k = 1)"
proof -
  have "\<not> DevAuthBypass auth_cfg" by (simp add: auth_cfg_def)
  from admitted_request_verified [OF demo_authenticate this]
  have "\<exists>kid k. map_of [(''k1'', \<lparr>rk_modulus = 1, rk_exponent = 65537\<rparr> :: rsa_key)] kid = Some k \<and> rk_modulus k = 1"
    by (auto simp: demo_lib_def split: if_splits)
  then show ?thesis by (simp only: demo_authenticate fst_conv)
qed

end
