(* ===== verification/Router.thy ===== *)
theory Router
  imports Api_Uploads Api_Shares Auth
begin

text \<open>
  \<open>internal/httpapi/router.go\<close>: the two muxes, the embedded client, the root handler that
  chooses between them, and \<open>internal/observability/logger.go\<close> around it.
\<close>

section \<open>Patterns\<close>

datatype route =
    HealthLive | HealthReady
  | ShareMeta string | SharePage string | ShareUnlock string | ShareNodes string | ShareDownload string string
  | GetMe | ListNodes | CreateFolder | RenameNode string | MoveNode string | TrashNode string
  | ListTrash | RestoreNode string | PurgeNode string | DownloadFile string | BackupSelection string
  | TusOptions | TusCreate | TusHead string | TusPatch string | TusDelete string
  | ListShares | CreateShare | RevokeShare string | SystemStorage

datatype seg = Lit string | Var

text \<open>A wildcard matches one segment that is not empty; the result lists what they matched.\<close>

fun match_segs :: "seg list \<Rightarrow> string list \<Rightarrow> string list option" where
  "match_segs [] [] = Some []"
| "match_segs (Lit l # ps) (s # ss) = (if l = s then match_segs ps ss else None)"
| "match_segs (Var # ps) (s # ss) = (if s = [] then None else map_option (Cons s) (match_segs ps ss))"
| "match_segs _ _ = None"

type_synonym mux = "(string \<times> seg list \<times> (string list \<Rightarrow> route)) list"

definition public_mux :: mux where
  "public_mux =
     [(''GET'', [Lit ''health'', Lit ''live''], \<lambda>_. HealthLive),
      (''GET'', [Lit ''health'', Lit ''ready''], \<lambda>_. HealthReady),
      (''GET'', [Lit ''s'', Var, Lit ''meta''], \<lambda>v. ShareMeta (v ! 0)),
      (''GET'', [Lit ''s'', Var], \<lambda>v. SharePage (v ! 0)),
      (''POST'', [Lit ''s'', Var, Lit ''unlock''], \<lambda>v. ShareUnlock (v ! 0)),
      (''GET'', [Lit ''s'', Var, Lit ''nodes''], \<lambda>v. ShareNodes (v ! 0)),
      (''GET'', [Lit ''s'', Var, Lit ''files'', Var, Lit ''download''], \<lambda>v. ShareDownload (v ! 0) (v ! 1))]"

definition api_path :: "seg list \<Rightarrow> seg list" where
  "api_path ps = Lit ''api'' # Lit ''v1'' # ps"

definition admin_mux :: mux where
  "admin_mux =
     [(''GET'', api_path [Lit ''me''], \<lambda>_. GetMe),
      (''GET'', api_path [Lit ''nodes''], \<lambda>_. ListNodes),
      (''POST'', api_path [Lit ''folders''], \<lambda>_. CreateFolder),
      (''PATCH'', api_path [Lit ''nodes'', Var], \<lambda>v. RenameNode (v ! 0)),
      (''POST'', api_path [Lit ''nodes'', Var, Lit ''move''], \<lambda>v. MoveNode (v ! 0)),
      (''POST'', api_path [Lit ''nodes'', Var, Lit ''trash''], \<lambda>v. TrashNode (v ! 0)),
      (''GET'', api_path [Lit ''trash''], \<lambda>_. ListTrash),
      (''POST'', api_path [Lit ''trash'', Var, Lit ''restore''], \<lambda>v. RestoreNode (v ! 0)),
      (''DELETE'', api_path [Lit ''trash'', Var], \<lambda>v. PurgeNode (v ! 0)),
      (''GET'', api_path [Lit ''files'', Var, Lit ''download''], \<lambda>v. DownloadFile (v ! 0)),
      (''PUT'', api_path [Lit ''files'', Var, Lit ''backup-selection''], \<lambda>v. BackupSelection (v ! 0)),
      (''OPTIONS'', api_path [Lit ''uploads'', Lit ''tus''], \<lambda>_. TusOptions),
      (''POST'', api_path [Lit ''uploads'', Lit ''tus''], \<lambda>_. TusCreate),
      (''HEAD'', api_path [Lit ''uploads'', Lit ''tus'', Var], \<lambda>v. TusHead (v ! 0)),
      (''PATCH'', api_path [Lit ''uploads'', Lit ''tus'', Var], \<lambda>v. TusPatch (v ! 0)),
      (''DELETE'', api_path [Lit ''uploads'', Lit ''tus'', Var], \<lambda>v. TusDelete (v ! 0)),
      (''GET'', api_path [Lit ''shares''], \<lambda>_. ListShares),
      (''POST'', api_path [Lit ''shares''], \<lambda>_. CreateShare),
      (''DELETE'', api_path [Lit ''shares'', Var], \<lambda>v. RevokeShare (v ! 0)),
      (''GET'', api_path [Lit ''system'', Lit ''storage''], \<lambda>_. SystemStorage)]"

section \<open>\<open>http.ServeMux\<close>\<close>

text \<open>A pattern for \<open>GET\<close> also serves \<open>HEAD\<close>.\<close>

definition method_fits :: "string \<Rightarrow> string \<Rightarrow> bool" where
  "method_fits pat m \<longleftrightarrow> pat = m \<or> (pat = ''GET'' \<and> m = ''HEAD'')"

definition clean_url_path :: "string \<Rightarrow> string" where
  "clean_url_path p =
     (if p = [] then ''/''
      else (let q = (if hd p \<noteq> CHR ''/'' then CHR ''/'' # p else p); np = go_clean q
        in if last q = CHR ''/'' \<and> np \<noteq> ''/'' then np @ ''/'' else np))"

definition path_segs :: "string \<Rightarrow> string list" where
  "path_segs p = map path_unescape (go_split (CHR ''/'') (tl p))"

datatype mux_answer = Found route | NoRoute | WrongMethod "string list" | Redirected string

definition mux_lookup :: "mux \<Rightarrow> request \<Rightarrow> mux_answer" where
  "mux_lookup table rq =
     (let p = rq_escaped rq;
          fits = filter (\<lambda>(m, ps, f). match_segs ps (path_segs p) \<noteq> None) table
      in if rq_method rq \<noteq> ''CONNECT'' \<and> clean_url_path p \<noteq> p then Redirected (clean_url_path p)
         else (case find (\<lambda>(m, ps, f). method_fits m (rq_method rq)) fits of
            Some (m, ps, f) \<Rightarrow> Found (f (the (match_segs ps (path_segs p))))
          | None \<Rightarrow> if fits = [] then NoRoute else WrongMethod (map fst fits)))"

definition allow_header :: "string list \<Rightarrow> string" where
  "allow_header ms =
     (case sort (remdups (ms @ (if ''GET'' \<in> set ms then [''HEAD''] else []))) of
        [] \<Rightarrow> []
      | m # rest \<Rightarrow> m @ concat (map (\<lambda>x. '', '' @ x) rest))"

section \<open>One request\<close>

text \<open>What a request meets outside the program, besides the database and the files.\<close>

record inputs =
  in_calls :: "nat \<Rightarrow> outside"
  in_conn :: "bool \<times> bool"
  in_statfs :: "string + statfs"
  in_ping :: "string option"
  in_jwks :: jwks_answer
  in_clock :: "nat \<Rightarrow> int"
  in_uuid :: string

text \<open>A static file is served by \<open>http.FileServer\<close>, which chooses the status.\<close>

definition serve_static :: "server \<Rightarrow> request \<Rightarrow> response \<Rightarrow> response" where
  "serve_static sv rq r =
     (case sv_static sv of
        None \<Rightarrow> write_body (PlainText ''<!DOCTYPE html><html><head><title>File Manager</title></head><body><h1>Self-hosted File Manager</h1><p>Backend API operational.</p></body></html>'')
          (set_header ''Content-Type'' ''text/html; charset=utf-8'' r)
      | Some has \<Rightarrow>
          (let p = (if has_prefix (rq_path rq) ''/'' then tl (rq_path rq) else rq_path rq);
               p = (if p = [] then ''index.html'' else p)
           in r\<lparr>rs_body := rs_body r @ [StaticFile (if has p then rq_path rq else ''/'')]\<rparr>))"

definition serve_route ::
  "server \<Rightarrow> inputs \<Rightarrow> route \<Rightarrow> request \<Rightarrow> response \<Rightarrow> app \<Rightarrow> (response \<times> app) option" where
  "serve_route sv io rt rq r a =
     (let calls = in_calls io; reads = (\<lambda>x. Some (x, a)); maybe = map_option (\<lambda>x. (x, a))
      in case rt of
           HealthLive \<Rightarrow> reads (handle_health_live r)
         | HealthReady \<Rightarrow> reads (handle_health_ready (in_ping io) rq r)
         | ShareMeta token \<Rightarrow> maybe (handle_public_get sv calls rq token r a)
         | SharePage token \<Rightarrow>
             if go_contains (rq_header rq ''Accept'') ''application/json'' \<or> rq_query rq ''format'' = ''json''
             then maybe (handle_public_get sv calls rq token r a) else reads (serve_static sv rq r)
         | ShareUnlock token \<Rightarrow> reads (handle_public_unlock sv calls rq token r a)
         | ShareNodes token \<Rightarrow> maybe (handle_public_nodes sv calls rq token r a)
         | ShareDownload token i \<Rightarrow> maybe (handle_public_download sv calls (in_conn io) rq token i r a)
         | GetMe \<Rightarrow> reads (handle_get_me rq r)
         | ListNodes \<Rightarrow> reads (handle_list_nodes sv calls rq r a)
         | CreateFolder \<Rightarrow> Some (handle_create_folder sv calls rq r a)
         | RenameNode i \<Rightarrow> Some (handle_rename_node sv calls rq i r a)
         | MoveNode i \<Rightarrow> handle_move_node sv calls rq i r a
         | TrashNode i \<Rightarrow> handle_trash_node sv calls rq i r a
         | ListTrash \<Rightarrow> reads (handle_list_trash calls rq r a)
         | RestoreNode i \<Rightarrow> handle_restore_node sv calls rq i r a
         | PurgeNode i \<Rightarrow> handle_purge_node sv calls rq i r a
         | DownloadFile i \<Rightarrow> reads (handle_download_file sv calls (in_conn io) rq i r a)
         | BackupSelection i \<Rightarrow> Some (handle_backup_selection sv calls rq i r a)
         | TusOptions \<Rightarrow> reads (handle_tus_options sv r)
         | TusCreate \<Rightarrow> Some (handle_tus_create sv (in_statfs io) calls rq r a)
         | TusHead i \<Rightarrow> reads (handle_tus_head calls rq i r a)
         | TusPatch i \<Rightarrow> Some (handle_tus_patch sv calls rq i r a)
         | TusDelete i \<Rightarrow> Some (handle_tus_delete sv calls rq i r a)
         | ListShares \<Rightarrow> reads (handle_list_shares calls rq r a)
         | CreateShare \<Rightarrow> Some (handle_create_share sv calls rq r a)
         | RevokeShare i \<Rightarrow> Some (handle_revoke_share sv calls rq i r a)
         | SystemStorage \<Rightarrow> reads (handle_system_storage sv (in_statfs io) calls r a))"

definition serve_mux ::
  "server \<Rightarrow> inputs \<Rightarrow> mux \<Rightarrow> request \<Rightarrow> response \<Rightarrow> app \<Rightarrow> (response \<times> app) option" where
  "serve_mux sv io table rq r a =
     (case mux_lookup table rq of
        Found rt \<Rightarrow> serve_route sv io rt rq r a
      | NoRoute \<Rightarrow> Some (http_error ''404 page not found'' 404 r, a)
      | WrongMethod ms \<Rightarrow> Some (http_error ''Method Not Allowed'' 405 (set_header ''Allow'' (allow_header ms) r), a)
      | Redirected p \<Rightarrow> Some (r\<lparr>rs_body := rs_body r @ [MovedTo p]\<rparr>, a))"

section \<open>The root handler\<close>

definition strip_port :: "string \<Rightarrow> string" where
  "strip_port host = takeWhile (\<lambda>c. c \<noteq> CHR '':'') host"

definition security_headers :: "response \<Rightarrow> response" where
  "security_headers r =
     set_header ''Content-Security-Policy'' (''default-src '' @ [CHR 0x27] @ ''self'' @ [CHR 0x27] @ ''; script-src '' @
         [CHR 0x27] @ ''self'' @ [CHR 0x27] @ '' '' @ [CHR 0x27] @ ''unsafe-inline'' @ [CHR 0x27] @ ''; style-src '' @
         [CHR 0x27] @ ''self'' @ [CHR 0x27] @ '' '' @ [CHR 0x27] @ ''unsafe-inline'' @ [CHR 0x27] @ ''; font-src '' @
         [CHR 0x27] @ ''self'' @ [CHR 0x27] @ ''; img-src '' @ [CHR 0x27] @ ''self'' @ [CHR 0x27] @
         '' data: blob:; connect-src '' @ [CHR 0x27] @ ''self'' @ [CHR 0x27] @ ''; frame-ancestors '' @
         [CHR 0x27] @ ''none'' @ [CHR 0x27] @ '';'')
       (set_header ''Referrer-Policy'' ''strict-origin-when-cross-origin''
         (set_header ''X-Frame-Options'' ''DENY'' (set_header ''X-Content-Type-Options'' ''nosniff'' r)))"

datatype destination = ToStatic | ToMux | ToAdmin | ToNotFound | ToForbidden

text \<open>A browser that opens a share's page gets the client, not the API.\<close>

definition page_request :: "request \<Rightarrow> bool" where
  "page_request rq \<longleftrightarrow> rq_method rq = ''GET'' \<and> \<not> has_suffix (rq_path rq) ''/meta'' \<and>
     \<not> go_contains (rq_path rq) ''/download'' \<and> \<not> has_suffix (rq_path rq) ''/nodes'' \<and>
     \<not> go_contains (rq_header rq ''Accept'') ''application/json''"

definition at_share_host :: "config \<Rightarrow> request \<Rightarrow> bool" where
  "at_share_host cfg rq \<longleftrightarrow> AppEnv cfg = ''production'' \<and> strip_port (rq_host rq) = strip_port (AppShareHost cfg)"

definition origin_rejected :: "config \<Rightarrow> request \<Rightarrow> bool" where
  "origin_rejected cfg rq \<longleftrightarrow> rq_method rq \<in> {''POST'', ''PUT'', ''PATCH'', ''DELETE''} \<and>
     rq_header rq ''Origin'' \<noteq> [] \<and> AppEnv cfg = ''production'' \<and>
     \<not> go_contains (rq_header rq ''Origin'') (strip_port (AppAdminHost cfg)) \<and>
     \<not> go_contains (rq_header rq ''Origin'') (strip_port (AppShareHost cfg))"

definition destination_of :: "config \<Rightarrow> request \<Rightarrow> destination" where
  "destination_of cfg rq =
     (if at_share_host cfg rq
      then if has_prefix (rq_path rq) ''/s/'' then if page_request rq then ToStatic else ToMux
        else if has_prefix (rq_path rq) ''/health/'' then ToMux
        else if has_prefix (rq_path rq) ''/api/v1/'' then ToNotFound
        else ToStatic
      else if origin_rejected cfg rq then ToForbidden
      else if has_prefix (rq_path rq) ''/api/v1/'' then ToAdmin
      else if has_prefix (rq_path rq) ''/s/'' then if page_request rq then ToStatic else ToMux
      else if has_prefix (rq_path rq) ''/health/'' then ToMux
      else ToStatic)"

definition serve_admin ::
  "server \<Rightarrow> inputs \<Rightarrow> request \<Rightarrow> response \<Rightarrow> app \<Rightarrow> jwt_lib \<Rightarrow> verifier \<Rightarrow> (response \<times> app) option \<times> verifier" where
  "serve_admin sv io rq r a lib v =
     (case authenticate (sv_cfg sv) lib (in_jwks io) (in_clock io) rq v of
        (Inl e, v') \<Rightarrow> (Some (auth_refused e r, a), v')
      | (Inr rq', v') \<Rightarrow> (serve_mux sv io admin_mux rq' r a, v'))"

definition serve_root ::
  "server \<Rightarrow> inputs \<Rightarrow> request \<Rightarrow> response \<Rightarrow> app \<Rightarrow> jwt_lib \<Rightarrow> verifier \<Rightarrow> (response \<times> app) option \<times> verifier" where
  "serve_root sv io rq r0 a lib v =
     (let r = security_headers r0
      in case destination_of (sv_cfg sv) rq of
           ToStatic \<Rightarrow> (Some (serve_static sv rq r, a), v)
         | ToMux \<Rightarrow> (serve_mux sv io public_mux rq r a, v)
         | ToAdmin \<Rightarrow> serve_admin sv io rq r a lib v
         | ToNotFound \<Rightarrow> (Some (http_error ''404 page not found'' 404 r, a), v)
         | ToForbidden \<Rightarrow>
             (Some (http_error ''{\"error\":\"forbidden\",\"message\":\"Cross-origin request rejected\"}'' 403 r, a), v))"

section \<open>The request log\<close>

datatype log_level = LevelDebug | LevelInfo

text \<open>The least level that the logger of \<open>InitLogger\<close> writes; the request line is at \<open>LevelInfo\<close>.\<close>

definition init_logger :: "string \<Rightarrow> log_level" where
  "init_logger env = (if env = ''development'' then LevelDebug else LevelInfo)"

definition request_id :: "inputs \<Rightarrow> request \<Rightarrow> string" where
  "request_id io rq =
     (if rq_header rq ''CF-Ray'' \<noteq> [] then rq_header rq ''CF-Ray''
      else if rq_header rq ''X-Request-ID'' \<noteq> [] then rq_header rq ''X-Request-ID''
      else in_uuid io)"

text \<open>The path in the log, without the token of a share.\<close>

definition logged_path :: "string \<Rightarrow> string" where
  "logged_path path =
     (if has_prefix path ''/s/''
      then (let parts = go_split (CHR ''/'') path
        in if 3 \<le> length parts \<and> parts ! 2 \<noteq> [] then go_join (CHR ''/'') (parts[2 := ''[REDACTED_TOKEN]'']) else path)
      else path)"

record log_line =
  lg_request :: string
  lg_method :: string
  lg_path :: string
  lg_status :: int
  lg_remote :: string
  lg_agent :: string

text \<open>
  The whole chain of handlers on one request. The path is read again after the handlers, which
  may have replaced it by \<open>"/"\<close> for the client. There is no log line without a response.
\<close>

definition log_request :: "server \<Rightarrow> inputs \<Rightarrow> request \<Rightarrow> response \<Rightarrow> log_line" where
  "log_request sv io rq r =
     (let rewritten = (StaticFile ''/'' \<in> set (rs_body r))
      in \<lparr>lg_request = request_id io rq, lg_method = rq_method rq,
          lg_path = logged_path (if rewritten then ''/'' else rq_path rq), lg_status = rs_seen r,
          lg_remote = before_last_colon (rq_remote rq), lg_agent = rq_header rq ''User-Agent''\<rparr>)"

definition serve ::
  "server \<Rightarrow> inputs \<Rightarrow> request \<Rightarrow> app \<Rightarrow> jwt_lib \<Rightarrow> verifier \<Rightarrow> (response \<times> app \<times> log_line) option \<times> verifier" where
  "serve sv io rq a lib v =
     (let rq' = rq\<lparr>rq_request_id := request_id io rq, rq_identity := []\<rparr>;
          r0 = set_header ''X-Request-ID'' (request_id io rq) fresh_response
      in case serve_root sv io rq' r0 a lib v of
           (None, v') \<Rightarrow> (None, v')
         | (Some (r, a'), v') \<Rightarrow> (Some (r, a', log_request sv io rq' r), v'))"

end
