(* ===== verification/Share_Props.thy ===== *)
theory Share_Props
  imports Shares Files_Props
begin

text \<open>
  The contract of a cookie signer as a locale, and the properties of shares: passwords,
  session cookies, revocation and the scope of a share.
\<close>

section \<open>Signed cookies\<close>

text \<open>What the cookie format needs of a signature: it contains no dot.\<close>

locale cookie_signer =
  fixes tag :: "string \<Rightarrow> string"
  assumes tag_no_dot: "CHR ''.'' \<notin> set (tag m)"
begin

lemma split_cookie:
  assumes "\<And>p. p \<in> {i, v, e, x} \<Longrightarrow> CHR ''.'' \<notin> set p"
  shows "go_split (CHR ''.'') (session_payload i v e x @ ''.'' @ tag (session_payload i v e x)) =
    [i, v, e, x, tag (session_payload i v e x)]"
proof -
  let ?t = "tag (session_payload i v e x)"
  have "session_payload i v e x @ ''.'' @ ?t = go_join (CHR ''.'') [i, v, e, x, ?t]"
    by (simp add: session_payload_def)
  moreover have "go_split (CHR ''.'') (go_join (CHR ''.'') [i, v, e, x, ?t]) = [i, v, e, x, ?t]"
    by (rule go_split_join) (use assms tag_no_dot in auto)
  ultimately show ?thesis by simp
qed

end

lemma sign_no_dot: "CHR ''.'' \<notin> set (sign cr cfg m)"
  using hex_encode_digits hex_digit_not_sep by (fastforce simp: sign_def)

interpretation session_signer: cookie_signer "sign cr cfg" for cr cfg
  by unfold_locales (rule sign_no_dot)

lemma rejoin_cookie:
  "go_split (CHR ''.'') c = [i, v, e, x, t] \<Longrightarrow> c = session_payload i v e x @ ''.'' @ t"
  using go_join_split [of "CHR ''.''" c] by (simp add: session_payload_def)

text \<open>A fresh cookie is valid exactly for the share it was made for, until it expires.\<close>

lemma fresh_cookie_valid:
  assumes "CHR ''.'' \<notin> set i" and "in_int64 version" "in_int64 epoch" "in_int64 expiry"
    and pw: "sh_password s = Some h" "h \<noteq> []"
  shows "validate_session_cookie cr cfg now s (create_session_token cr cfg i version epoch expiry) \<longleftrightarrow>
    sh_id s = i \<and> sh_auth_version s = version \<and> sh_epoch s = epoch \<and> secs now \<le> expiry"
proof -
  let ?p = "session_payload i (dec_int version) (dec_int epoch) (dec_int expiry)"
  have split: "go_split (CHR ''.'') (?p @ ''.'' @ sign cr cfg ?p) =
      [i, dec_int version, dec_int epoch, dec_int expiry, sign cr cfg ?p]"
    by (rule session_signer.split_cookie) (use assms(1) dec_int_no_dot in auto)
  show ?thesis
    unfolding validate_session_cookie_def create_session_token_def Let_def split
    using assms by (auto simp: parse_dec_int)
qed

section \<open>Passwords\<close>

lemma hash_password_parts:
  "go_split (CHR ''$'') (hash_password cr salt password) =
     [[], ''argon2id'', ''v=19'', ''m=65536,t=1,p=2'', b64_encode False False salt,
      b64_encode False False (argon2 cr password salt 32)]"
proof -
  let ?parts = "[[], ''argon2id'', ''v=19'', ''m=65536,t=1,p=2'', b64_encode False False salt,
      b64_encode False False (argon2 cr password salt 32)]"
  have "hash_password cr salt password = go_join (CHR ''$'') ?parts"
    by (simp add: hash_password_def)
  moreover have "go_split (CHR ''$'') (go_join (CHR ''$'') ?parts) = ?parts"
    by (rule go_split_join) (use b64_encode_plain in fastforce)+
  ultimately show ?thesis by simp
qed

lemma verify_hashed:
  assumes "length (argon2 cr password salt 32) = 32"
  shows "verify_password cr password' (hash_password cr salt password) \<longleftrightarrow>
    argon2 cr password' salt 32 = argon2 cr password salt 32"
  by (simp add: verify_password_def hash_password_parts b64_decode_encode assms)

lemma hash_password_not_Nil: "hash_password cr salt password \<noteq> []"
  by (simp add: hash_password_def)

section \<open>Looking up shares\<close>

definition shares_ok :: "database \<Rightarrow> bool" where
  "shares_ok db \<longleftrightarrow> distinct (map sr_id (shares db)) \<and> distinct (map sr_token_hash (shares db)) \<and>
     (\<forall>s \<in> set (shares db). sr_target s \<in> nr_id ` set (nodes db) \<and> 1 \<le> sr_auth_version s)"

lemma query_share_Inr:
  "query_share ora k found db = Inr s \<longleftrightarrow>
     db_fails ora k = None \<and> (\<exists>r. found = Some r \<and> s = scan_share (db_fails ora (Suc k)) db r)"
  by (auto simp: query_share_def split: option.splits)

lemma scan_share_fields [simp]:
  "sh_id (scan_share flt db r) = sr_id r" "sh_target (scan_share flt db r) = sr_target r"
  "sh_password (scan_share flt db r) = sr_password r" "sh_auth_version (scan_share flt db r) = sr_auth_version r"
  "sh_epoch (scan_share flt db r) = sr_epoch r" "sh_revoked (scan_share flt db r) = sr_revoked r"
  "sh_expires (scan_share flt db r) = sr_expires r" "sh_token_hash (scan_share flt db r) = sr_token_hash r"
  by (simp_all add: scan_share_def)

lemma get_share_by_token_Inr:
  "get_share_by_token cr cfg ora token db = Inr s \<longleftrightarrow>
     (\<exists>r. find_token db (hash_token cr cfg token) = Some r \<and> s = scan_share (db_fails ora 1) db r \<and>
       db_fails ora 0 = None \<and> sr_revoked r = None \<and>
       (\<forall>t. sr_expires r = Some t \<longrightarrow> clock ora 0 \<le> t * 1000000000) \<and> sr_epoch r = GlobalShareEpoch cfg)"
proof (cases "db_fails ora 0 = None \<and> find_token db (hash_token cr cfg token) \<noteq> None")
  case True
  then obtain r where "find_token db (hash_token cr cfg token) = Some r" "db_fails ora 0 = None" by blast
  then show ?thesis
    by (cases "sr_expires r") (simp_all add: get_share_by_token_def query_share_def not_less, auto)
qed (auto simp: get_share_by_token_def query_share_def split: option.split)

lemma find_token_iff: "shares_ok db \<Longrightarrow> find_token db h = Some r \<longleftrightarrow> r \<in> set (shares db) \<and> sr_token_hash r = h"
  by (simp add: find_token_def shares_ok_def lookup_by_eq_Some)

lemma find_share_iff: "shares_ok db \<Longrightarrow> find_share db i = Some r \<longleftrightarrow> r \<in> set (shares db) \<and> sr_id r = i"
  by (simp add: find_share_def shares_ok_def lookup_by_eq_Some)

interpretation revoke_key: key_keeping sr_id "revoke_row now" for now
  by unfold_locales (simp add: revoke_row_def)

interpretation revoke_token: key_keeping sr_token_hash "revoke_row now" for now
  by unfold_locales (simp add: revoke_row_def)

lemma create_share_effect:
  assumes "create_share cr cfg ora target password expires db = (res, db')"
  obtains "db' = db"
  | r n where "get_node (db_fails ora 0) db target = Inr n" "n_trashed n = None" "\<not> n_system n"
      "r = new_share cr cfg ora target password expires" "insert_share (db_fails ora 1) r db = Inr db'"
      "res = (case get_share_by_id ora 2 (uuid ora 0) db' of Inl e \<Rightarrow> Inl e | Inr s \<Rightarrow> Inr (s, hex_encode (rand_bytes ora 0)))"
  using assms by (auto simp: create_share_def split: sum.splits if_splits)

lemma revoke_share_effect:
  assumes "revoke_share ora i db = (res, db')"
  obtains "db' = db"
  | "db' = db\<lparr>shares := update_where (\<lambda>s. sr_id s = i) (revoke_row (secs (clock ora 0))) (shares db)\<rparr>"
  using assms by (auto simp: revoke_share_def update_share_Inr split: sum.splits if_splits)

lemma create_share_shares_ok:
  assumes "create_share cr cfg ora target password expires db = (res, db')" and "shares_ok db"
  shows "shares_ok db'"
  using assms(1)
proof (rule create_share_effect)
  fix r n
  assume "r = new_share cr cfg ora target password expires" "insert_share (db_fails ora 1) r db = Inr db'"
  with assms(2) show ?thesis by (auto simp: shares_ok_def insert_share_Inr new_share_def)
qed (use assms(2) in simp)

lemma revoke_share_shares_ok:
  assumes "revoke_share ora i db = (res, db')" and ok: "shares_ok db"
  shows "shares_ok db'"
  using assms(1)
proof (rule revoke_share_effect)
  assume "db' = db\<lparr>shares := update_where (\<lambda>s. sr_id s = i) (revoke_row (secs (clock ora 0))) (shares db)\<rparr>"
  with ok show ?thesis
    by (auto simp: shares_ok_def revoke_key.keys_update revoke_token.keys_update set_update_where revoke_row_def)
qed (use ok in simp)

section \<open>A share for the witnesses\<close>

definition demo_crypto :: crypto where
  "demo_crypto = \<lparr>hmac = (\<lambda>k m. k @ m), argon2 = (\<lambda>p s n. take n (p @ s @ replicate n CHR 0x00))\<rparr>"

definition share_cfg :: config where
  "share_cfg = (read_config (\<lambda>_. []))\<lparr>ShareTokenPepper := ''pp'', ShareSessionSecret := ''ss'', GlobalShareEpoch := 1\<rparr>"

definition share_ora :: outside where
  "share_ora = calm\<lparr>rand_bytes := (\<lambda>k. if k = 0 then [CHR 0xAA] else [CHR 0xBB])\<rparr>"

definition demo_share :: share_row where
  "demo_share = new_share demo_crypto share_cfg share_ora ''b'' ''pw'' None"

definition share_db :: database where
  "share_db = demo_db\<lparr>shares := [demo_share]\<rparr>"

lemma share_ora_simps [simp]:
  "db_fails share_ora k = None" "clock share_ora k = 5000000000" "uuid share_ora k = ''u''" "quiet share_ora"
  "rand_bytes share_ora 0 = [CHR 0xAA]" "rand_bytes share_ora (Suc k) = [CHR 0xBB]"
  by (simp_all add: share_ora_def quiet_def)

lemma demo_share_fields [simp]:
  "sr_id demo_share = ''u''" "sr_target demo_share = ''b''" "sr_auth_version demo_share = 1" "sr_epoch demo_share = 1"
  "sr_expires demo_share = None" "sr_revoked demo_share = None"
  "sr_token_hash demo_share = hash_token demo_crypto share_cfg (hex_encode [CHR 0xAA])"
  "sr_password demo_share = Some (hash_password demo_crypto [CHR 0xBB] ''pw'')"
  by (simp_all add: demo_share_def new_share_def share_cfg_def)

lemma share_db_simps [simp]: "shares share_db = [demo_share]" "nodes share_db = nodes demo_db"
  by (simp_all add: share_db_def)

lemma demo_share_found:
  "find_token share_db (hash_token demo_crypto share_cfg (hex_encode [CHR 0xAA])) = Some demo_share"
  "find_share share_db ''u'' = Some demo_share" "GlobalShareEpoch share_cfg = 1"
  by (simp_all add: find_token_def find_share_def share_cfg_def)

lemma share_db_ok: "shares_ok share_db"
  by (simp add: shares_ok_def) (simp add: demo_rows)

lemma demo_argon: "length (argon2 demo_crypto p s 32) = 32"
  by (simp add: demo_crypto_def)

lemma demo_create_share:
  "\<exists>s. create_share demo_crypto share_cfg share_ora ''b'' ''pw'' None demo_db =
     (Inr (s, hex_encode [CHR 0xAA]), share_db) \<and> sh_id s = ''u''"
proof -
  obtain r where r: "find_node demo_db ''b'' = Some r" "nr_trashed r = None" "\<not> nr_system r"
    by (simp add: find_node_def demo_rows)
  have "insert_share None demo_share demo_db = Inr share_db"
    by (simp add: insert_share_def share_db_def) (simp add: demo_rows)
  with r show ?thesis
    by (simp add: create_share_def get_node_def scan_row_def scan_node_def demo_share_def [symmetric]
        get_share_by_id_def query_share_def demo_share_found)
qed

lemma demo_unlock:
  "unlock_with_password demo_crypto share_cfg share_ora (hex_encode [CHR 0xAA]) ''pw'' share_db =
     Inr (create_session_token demo_crypto share_cfg ''u'' 1 1 86405)"
proof -
  have "get_share_by_token demo_crypto share_cfg share_ora (hex_encode [CHR 0xAA]) share_db =
      Inr (scan_share None share_db demo_share)"
    by (simp add: get_share_by_token_Inr demo_share_found)
  moreover have "secs (5000000000 + 24 * hour) = 86405" by (simp add: secs_def hour_def)
  ultimately show ?thesis
    by (simp add: unlock_with_password_def verify_hashed [OF demo_argon] hash_password_not_Nil)
qed

section \<open>Properties\<close>

lemma unlock_Inr:
  "unlock_with_password cr cfg ora token pw db = Inr c \<longleftrightarrow>
     (\<exists>s h. get_share_by_token cr cfg ora token db = Inr s \<and> sh_password s = Some h \<and> h \<noteq> [] \<and>
        verify_password cr pw h \<and>
        c = create_session_token cr cfg (sh_id s) (sh_auth_version s) (sh_epoch s) (secs (clock ora 1 + 24 * hour)))"
  by (auto simp: unlock_with_password_def split: sum.split option.splits)

text \<open>
  C23: A cookie from a successful unlock is accepted for a share with a password exactly when the
  share is the one that was unlocked, its authorization version and epoch have not changed since,
  and at most 24 hours have passed; so the cookie of another share, and any cookie older than a
  revocation, is refused.
\<close>

theorem unlock_cookie_scope:
  assumes unlock: "unlock_with_password cr cfg ora token pw db = Inr c"
    and row: "find_token db (hash_token cr cfg token) = Some r"
    and ids: "CHR ''.'' \<notin> set (sr_id r)"
    and ints: "in_int64 (sr_auth_version r)" "in_int64 (sr_epoch r)" "in_int64 (secs (clock ora 1 + 24 * hour))"
    and pw: "sh_password s = Some h" "h \<noteq> []"
  shows "validate_session_cookie cr cfg now s c \<longleftrightarrow>
    sh_id s = sr_id r \<and> sh_auth_version s = sr_auth_version r \<and> sh_epoch s = sr_epoch r \<and>
    secs now \<le> secs (clock ora 1) + 86400"
proof -
  have "secs (clock ora 1 + 24 * hour) = secs (clock ora 1) + 86400"
    by (simp add: secs_def hour_def)
  moreover from unlock row have
    "c = create_session_token cr cfg (sr_id r) (sr_auth_version r) (sr_epoch r) (secs (clock ora 1 + 24 * hour))"
    by (auto simp: unlock_Inr get_share_by_token_Inr)
  ultimately show ?thesis using fresh_cookie_valid [OF ids ints pw] by simp
qed

theorem unlock_cookie_scope_witness:
  "\<exists>c. unlock_with_password demo_crypto share_cfg share_ora (hex_encode [CHR 0xAA]) ''pw'' share_db = Inr c \<and>
     validate_session_cookie demo_crypto share_cfg 6000000000 (scan_share None share_db demo_share) c \<and>
     \<not> validate_session_cookie demo_crypto share_cfg 6000000000 (scan_share None share_db (revoke_row 6 demo_share)) c"
proof -
  note scope = unlock_cookie_scope [OF demo_unlock demo_share_found(1) _ _ _ _ _ hash_password_not_Nil]
  have "secs 6000000000 = 6" "secs (5000000000 + 24 * hour) = 86405" "secs 5000000000 = 5"
    by (simp_all add: secs_def hour_def)
  then show ?thesis
    by (intro exI [of _ "create_session_token demo_crypto share_cfg ''u'' 1 1 86405"])
      (simp add: demo_unlock scope in_int64_def revoke_row_def)
qed

text \<open>
  C24: Whatever cookie is accepted for a share with a password, it is a payload that names this
  share, its authorization version and epoch and an expiry not yet over, followed by the HMAC of
  exactly that payload under the server's secret: no cookie is accepted without knowing that HMAC.
\<close>

theorem accepted_cookie_signed:
  assumes "validate_session_cookie cr cfg now s c" and "sh_password s = Some h" "h \<noteq> []"
  shows "\<exists>v e x t. c = session_payload (sh_id s) v e x @ ''.'' @ sign cr cfg (session_payload (sh_id s) v e x) \<and>
    parse_int64 v = Some (sh_auth_version s) \<and> parse_int64 e = Some (sh_epoch s) \<and>
    parse_int64 x = Some t \<and> secs now \<le> t"
proof -
  from assms obtain i v e x tag t where split: "go_split (CHR ''.'') c = [i, v, e, x, tag]"
    and "i = sh_id s" "parse_int64 v = Some (sh_auth_version s)" "parse_int64 e = Some (sh_epoch s)"
    "parse_int64 x = Some t" "\<not> t < secs now" "tag = sign cr cfg (session_payload i v e x)"
    by (auto simp: validate_session_cookie_def split: list.splits if_splits option.splits)
  with rejoin_cookie [OF split] show ?thesis
    by (intro exI [of _ v] exI [of _ e] exI [of _ x] exI [of _ t]) (simp add: not_less)
qed

theorem accepted_cookie_signed_witness:
  "\<exists>v e x. create_session_token demo_crypto share_cfg ''u'' 1 1 86405 =
     session_payload ''u'' v e x @ ''.'' @ sign demo_crypto share_cfg (session_payload ''u'' v e x)"
proof -
  have "validate_session_cookie demo_crypto share_cfg 6000000000 (scan_share None share_db demo_share)
      (create_session_token demo_crypto share_cfg ''u'' 1 1 86405)"
    by (subst fresh_cookie_valid [OF _ _ _ _ _ hash_password_not_Nil]) (simp_all add: in_int64_def secs_def)
  from accepted_cookie_signed [OF this, of "hash_password demo_crypto [CHR 0xBB] ''pw''"] hash_password_not_Nil
  show ?thesis by auto
qed

text \<open>
  After a share was revoked its link is dead: with a working database every token that led to
  it is refused with ErrShareRevoked, nothing else in the database has changed, and the
  authorization version of the share has grown, which outdates the cookies made before.
\<close>

theorem revoked_share_closed:
  assumes ok: "shares_ok db" and rev: "revoke_share ora i db = (Inr (), db')"
    and s: "s \<in> set (shares db)" "sr_id s = i" "hash_token cr cfg token = sr_token_hash s"
    and calm: "quiet ora'"
  shows "get_share_by_token cr cfg ora' token db' = Inl ErrShareRevoked \<and>
    unlock_with_password cr cfg ora' token pw db' = Inl ErrShareRevoked \<and>
    (\<exists>s'. find_share db' i = Some s' \<and> sr_revoked s' \<noteq> None \<and> sr_auth_version s < sr_auth_version s') \<and>
    (\<forall>j. j \<noteq> i \<longrightarrow> find_share db' j = find_share db j) \<and> db'\<lparr>shares := shares db\<rparr> = db"
proof -
  let ?f = "revoke_row (secs (clock ora 0))"
  from rev have db': "db' = db\<lparr>shares := update_where (\<lambda>s. sr_id s = i) ?f (shares db)\<rparr>"
    by (auto simp: revoke_share_def update_share_Inr split: sum.splits if_splits)
  from s ok have "find_token db (hash_token cr cfg token) = Some s" by (simp add: find_token_iff)
  then have "find_token db' (hash_token cr cfg token) = Some (?f s)"
    by (simp add: db' find_token_def revoke_token.lookup_update s(2))
  then have closed: "get_share_by_token cr cfg ora' token db' = Inl ErrShareRevoked"
    using calm by (simp add: get_share_by_token_def query_share_def revoke_row_def)
  from s ok have "find_share db i = Some s" by (simp add: find_share_iff)
  then have "find_share db' j = (if j = i then Some (?f s) else find_share db j)" for j
    by (simp add: db' find_share_def revoke_key.lookup_update_key)
  with closed show ?thesis by (simp add: db' unlock_with_password_def) (simp add: revoke_row_def)
qed

theorem revoked_share_closed_witness:
  "\<exists>db'. revoke_share share_ora ''u'' share_db = (Inr (), db') \<and>
     get_share_by_token demo_crypto share_cfg share_ora (hex_encode [CHR 0xAA]) db' = Inl ErrShareRevoked"
proof -
  obtain db' where rev: "revoke_share share_ora ''u'' share_db = (Inr (), db')"
    by (simp add: revoke_share_def update_share_def)
  from revoked_share_closed [OF share_db_ok rev, of demo_share demo_crypto share_cfg "hex_encode [CHR 0xAA]" share_ora]
  show ?thesis using rev by simp
qed

text \<open>
  C26: The token that creating a share returns opens it: until it expires the lookup by that token
  gives the share, for the requested target; and if a password was given, unlocking answers to
  exactly the passwords with the same Argon2 hash, the given one in particular.
\<close>

theorem created_share_opens:
  assumes step: "create_share cr cfg ora target pw expires db = (Inr (s, token), db')"
    and calm: "quiet ora'" and time: "\<And>t. expires = Some t \<Longrightarrow> clock ora' 0 \<le> secs t * 1000000000"
    and len: "length (argon2 cr pw (rand_bytes ora 1) 32) = 32"
  shows "\<exists>s'. get_share_by_token cr cfg ora' token db' = Inr s' \<and> sh_id s' = sh_id s \<and> sh_target s' = target \<and>
    (sh_password s' = None \<longleftrightarrow> pw = []) \<and>
    (pw \<noteq> [] \<longrightarrow> (if argon2 cr pw' (rand_bytes ora 1) 32 = argon2 cr pw (rand_bytes ora 1) 32
       then \<exists>c. unlock_with_password cr cfg ora' token pw' db' = Inr c
       else unlock_with_password cr cfg ora' token pw' db' = Inl ErrInvalidPassword))"
proof -
  let ?r = "new_share cr cfg ora target pw expires"
  from step have ins: "insert_share (db_fails ora 1) ?r db = Inr db'"
    and token: "token = hex_encode (rand_bytes ora 0)" and get: "get_share_by_id ora 2 (uuid ora 0) db' = Inr s"
    by (auto simp: create_share_def split: sum.splits if_splits)
  from ins have db': "db' = db\<lparr>shares := shares db @ [?r]\<rparr>"
    and new: "sr_token_hash ?r \<notin> sr_token_hash ` set (shares db)" "sr_id ?r \<notin> sr_id ` set (shares db)"
    by (simp_all add: insert_share_Inr)
  have "find_token db' (hash_token cr cfg token) = Some ?r"
    using new(1) by (simp add: db' find_token_def token new_share_def lookup_by_None_iff [THEN iffD2])
  then have found: "get_share_by_token cr cfg ora' token db' = Inr (scan_share None db' ?r)"
    using calm time by (simp add: get_share_by_token_Inr) (auto simp: new_share_def)
  have "find_share db' (uuid ora 0) = Some ?r"
    using new(2) by (simp add: db' find_share_def new_share_def lookup_by_None_iff [THEN iffD2])
  with get have "sh_id s = sr_id ?r" by (auto simp: get_share_by_id_def query_share_Inr)
  moreover have "verify_password cr pw' (hash_password cr (rand_bytes ora 1) pw) \<longleftrightarrow>
      argon2 cr pw' (rand_bytes ora 1) 32 = argon2 cr pw (rand_bytes ora 1) 32"
    by (rule verify_hashed [OF len])
  ultimately show ?thesis
    using hash_password_not_Nil [of cr "rand_bytes ora 1" pw]
    by (intro exI [of _ "scan_share None db' ?r"])
      (simp add: found unlock_with_password_def, simp add: new_share_def)
qed

theorem created_share_opens_witness:
  "\<exists>s db'. create_share demo_crypto share_cfg share_ora ''b'' ''pw'' None demo_db = (Inr (s, hex_encode [CHR 0xAA]), db') \<and>
     (\<exists>c. unlock_with_password demo_crypto share_cfg share_ora (hex_encode [CHR 0xAA]) ''pw'' db' = Inr c) \<and>
     unlock_with_password demo_crypto share_cfg share_ora (hex_encode [CHR 0xAA]) ''no'' db' = Inl ErrInvalidPassword"
proof -
  obtain s where step: "create_share demo_crypto share_cfg share_ora ''b'' ''pw'' None demo_db =
      (Inr (s, hex_encode [CHR 0xAA]), share_db)" using demo_create_share by blast
  have "argon2 demo_crypto ''no'' [CHR 0xBB] 32 \<noteq> argon2 demo_crypto ''pw'' [CHR 0xBB] 32"
    by (simp add: demo_crypto_def)
  with created_share_opens [OF step, of share_ora "''no''"]
  have "unlock_with_password demo_crypto share_cfg share_ora (hex_encode [CHR 0xAA]) ''no'' share_db = Inl ErrInvalidPassword"
    by (auto simp: demo_argon)
  moreover from created_share_opens [OF step, of share_ora "''pw''"]
  have "\<exists>c. unlock_with_password demo_crypto share_cfg share_ora (hex_encode [CHR 0xAA]) ''pw'' share_db = Inr c"
    by (auto simp: demo_argon)
  ultimately show ?thesis using step by blast
qed

text \<open>
  C25: On a well-formed tree and with a working database, an active node is inside a share exactly
  when it is the shared node or lies below it; any other node is answered with ErrAccessDenied.
  The check always returns.
\<close>

theorem share_scope_is_subtree:
  assumes ok: "tree_ok (nodes db)" and calm: "quiet ora"
    and r: "find_node db i = Some r" "nr_trashed r = None"
  shows "check_node_in_share ora s i db =
    Some (if (i, sh_target s) \<in> (par_rel (nodes db))\<^sup>* then Inr (scan_row db r) else Inl ErrAccessDenied)"
proof -
  obtain ids where ids: "subnodes (nodes db) (sh_target s) = Some ids"
    using subnodes_total [OF tree_okD(3) [OF ok]] by blast
  have "nr_id r = i" using r(1) by (auto dest: find_nodeD)
  moreover have "length (filter (\<lambda>d. d = i) ids) = 0 \<longleftrightarrow> (i, sh_target s) \<notin> (par_rel (nodes db))\<^sup>+"
    using subnodes_eq [OF ids] by (auto simp: filter_empty_conv)
  ultimately show ?thesis
    using calm r ids
    by (simp add: check_node_in_share_def get_node_def scan_row_def scan_node_def rtrancl_eq_or_trancl)
qed

theorem share_scope_is_subtree_witness:
  "(\<exists>n. check_node_in_share calm (scan_share None share_db demo_share) ''f'' share_db = Some (Inr n)) \<and>
   check_node_in_share calm (scan_share None share_db demo_share) ''a'' share_db = Some (Inl ErrAccessDenied)"
proof -
  obtain r where r: "find_node share_db ''f'' = Some r" "nr_trashed r = None"
    by (simp add: find_node_def demo_rows)
  obtain q where q: "find_node share_db ''a'' = Some q" "nr_trashed q = None"
    by (simp add: find_node_def demo_rows)
  have "(''f'', ''b'') \<in> par_rel (nodes demo_db)" "(''b'', ''a'') \<in> par_rel (nodes demo_db)"
    by (simp_all add: par_rel_iff demo_rows)
  moreover from this have "(''a'', ''b'') \<notin> (par_rel (nodes demo_db))\<^sup>*"
    using tree_okD(3) [OF demo_tree_ok] by (auto simp: acyclic_def dest: rtrancl_into_trancl2)
  moreover have "tree_ok (nodes share_db)" by (simp add: demo_tree_ok)
  ultimately show ?thesis
    using share_scope_is_subtree [OF _ calm_simps(5) r] share_scope_is_subtree [OF _ calm_simps(5) q]
    by (simp add: r_into_rtrancl)
qed

end
