(* ===== verification/Server_Inv.thy ===== *)
theory Server_Inv
  imports Router Share_Props Upload_Inv
begin

text \<open>
  The whole program as one state machine: requests through the chain of handlers, the goroutines
  that insert audit rows, and reconciliation. Every request is traced back to at most one
  operation of a service, so the invariants of the services hold for the server.
\<close>

section \<open>Shares and the operations on the other tables\<close>

text \<open>An operation that touches no share and removes no node.\<close>

definition grows :: "database \<Rightarrow> database \<Rightarrow> bool" where
  "grows db db' \<longleftrightarrow> shares db' = shares db \<and> nr_id ` set (nodes db) \<subseteq> nr_id ` set (nodes db')"

lemma grows_refl [simp]: "grows db db"
  by (simp add: grows_def)

lemma grows_trans: "grows a b \<Longrightarrow> grows b c \<Longrightarrow> grows a c"
  by (auto simp: grows_def)

lemma shares_ok_grows: "grows db db' \<Longrightarrow> shares_ok db \<Longrightarrow> shares_ok db'"
  by (auto simp: shares_ok_def grows_def)

lemma grows_insert:
  "insert_node flt r db = Inr db' \<Longrightarrow> grows db db'" "insert_file flt f db = Inr db' \<Longrightarrow> grows db db'"
  "insert_upload flt u db = Inr db' \<Longrightarrow> grows db db'" "update_upload flt i g db = Inr db' \<Longrightarrow> grows db db'"
  "update_files flt P h db = Inr db' \<Longrightarrow> grows db db'"
  by (auto simp: grows_def statement_Inr)

lemma grows_update:
  assumes "update_nodes flt P f db = Inr db'" and "\<And>r. nr_id (f r) = nr_id r"
  shows "grows db db'"
proof -
  have "nr_id ` set (update_where P f (nodes db)) = nr_id ` set (nodes db)"
    by (metis assms(2) update_where_map_same list.set_map)
  with assms(1) show ?thesis by (auto simp: grows_def update_nodes_Inr)
qed

lemma grows_map: "(\<And>r. nr_id (g r) = nr_id r) \<Longrightarrow> grows db (db\<lparr>nodes := map g (nodes db)\<rparr>)"
  by (simp add: grows_def image_image)

lemma grows_attempt:
  assumes "grows a db" and "\<And>db'. s = Inr db' \<Longrightarrow> grows db db'"
  shows "grows a (attempt s db)"
proof (cases s)
  case (Inr db')
  with grows_trans [OF assms(1) assms(2) [OF Inr]] show ?thesis by (simp add: attempt_def)
qed (use assms(1) in \<open>simp add: attempt_def\<close>)

lemma grows_attempts:
  "grows a db \<Longrightarrow> grows a (attempt (insert_node flt r db) db)"
  "grows a db \<Longrightarrow> grows a (attempt (insert_file flt f db) db)"
  "grows a db \<Longrightarrow> grows a (attempt (update_upload flt i g db) db)"
  by (erule grows_attempt, erule grows_insert)+

lemma shares_ok_delete: "delete_each is db = Inr db' \<Longrightarrow> shares_ok db \<Longrightarrow> shares_ok db'"
  by (drule delete_each_rows) (auto simp: shares_ok_def distinct_delete_where)

lemma shares_ok_files_step:
  assumes step: "files_step db db'" and files: "files_ok db" and ok: "shares_ok db"
  shows "shares_ok db'"
proof -
  from files have tree: "tree_ok (nodes db)" by auto
  have tag: "grows db (db\<lparr>nodes := map (retag (nodes db) i f t) (nodes db)\<rparr>)" if "\<And>r. nr_id (f r) = nr_id r" for i f t
    using that by (intro grows_map) (simp add: retag_def set_trashed_def)
  from step show ?thesis
  proof cases
    case (create env ora parent name res)
    then have "grows db db'"
      by (auto simp: create_folder_def intro: grows_insert(1) split: sum.splits prod.splits)
    with ok show ?thesis by (rule shares_ok_grows [rotated])
  next
    case (rename env ora i name res)
    then have "grows db db'"
      by (auto simp: rename_node_def rename_row_def intro: grows_update split: sum.splits prod.splits if_splits)
    with ok show ?thesis by (rule shares_ok_grows [rotated])
  next
    case (move ora i p res)
    then have "grows db db'"
      by (auto simp: move_node_def move_row_def intro: grows_update split: sum.splits option.splits if_splits)
    with ok show ?thesis by (rule shares_ok_grows [rotated])
  next
    case (trash ora i res)
    have "grows db db'"
    proof (cases res)
      case (Inl e)
      with trash have "db' = db" by (auto simp: trash_node_def split: sum.splits if_splits option.splits)
      then show ?thesis by simp
    next
      case (Inr u)
      with trash_node_effect(1) [OF trash [unfolded Inr] tree] tag show ?thesis by (simp add: trash_row_def)
    qed
    with ok show ?thesis by (rule shares_ok_grows [rotated])
  next
    case (restore ora i res)
    have "grows db db'"
    proof (cases "db' = db")
      case False
      from restore_node_effect [OF restore tree disjI1 [OF False]] obtain p where
        "db' = db\<lparr>nodes := map (retag (nodes db) i (restore_row p (secs (clock ora 0))) None) (nodes db)\<rparr>"
        by metis
      with tag show ?thesis by (simp add: restore_row_def)
    qed simp
    with ok show ?thesis by (rule shares_ok_grows [rotated])
  next
    case (purge ora i keys)
    show ?thesis
    proof (cases "db' = db")
      case False
      with purge obtain ids where "delete_nodes None ids db = Inr db'"
        by (auto simp: purge_node_def delete_subtree_def split: sum.splits if_splits option.splits)
      with ok show ?thesis by (auto simp: delete_nodes_def intro: shares_ok_delete)
    qed (use ok in simp)
  next
    case (backup ora i sel res)
    then have "grows db db'"
      by (auto simp: toggle_backup_def intro: grows_insert split: sum.splits if_splits)
    with ok show ?thesis by (rule shares_ok_grows [rotated])
  qed
qed

section \<open>Uploads\<close>

lemma grows_phase_c: "phase_c ora u mime hash now db = Inr db' \<Longrightarrow> grows db db'"
proof (erule phase_c_Inr)
  fix db2
  assume "insert_node None (upload_node (uuid ora 0) u now) db = Inr (db\<lparr>nodes := nodes db @ [upload_node (uuid ora 0) u now]\<rparr>)"
    "insert_file None (upload_file (uuid ora 0) u mime hash now) (db\<lparr>nodes := nodes db @ [upload_node (uuid ora 0) u now]\<rparr>) = Inr db2"
    "update_upload (db_fails ora 6) (up_id u) (mark_closed StateComplete now) db2 = Inr db'"
  then show "grows db db'" by (metis grows_insert(1,2,4) grows_trans)
qed

lemma grows_phase_c_blind: "grows db (phase_c_blind ora u now db)"
  by (simp add: phase_c_blind_def Let_def grows_attempts split: sum.split)

lemma grows_resolve: "grows (w_db w) (w_db (resolve_one st ora now u w))"
  by (simp add: resolve_one_def Let_def grows_phase_c_blind grows_attempts split: sum.split prod.split)

lemma grows_expire: "grows (w_db w) (w_db (expire_one st ora now u w))"
  by (simp add: expire_one_def grows_attempts)

lemma grows_visit:
  "(\<And>k u w. grows (w_db w) (w_db (f k u w))) \<Longrightarrow> grows (w_db w) (w_db (visit_all f k us w))"
proof (induction us arbitrary: k w)
  case (Cons u us)
  from Cons.IH [OF Cons.prems, of "f k u w" "Suc k"] Cons.prems [of w k u] show ?case
    by (auto intro: grows_trans)
qed simp

lemma grows_reconcile:
  assumes step: "reconcile st ora stale final w = (res, w')"
  shows "grows (w_db w) (w_db w')"
proof -
  define now where "now = secs (clock ora 0)"
  define w1 where "w1 = (if db_fails ora 0 = None
     then visit_all (\<lambda>k. expire_one st (stale k) now) 0 (stale_uploads now (w_db w)) w else w)"
  have 1: "grows (w_db w) (w_db w1)"
    unfolding w1_def by (cases "db_fails ora 0") (simp_all add: grows_visit grows_expire)
  have "w' = w1 \<or> w' = visit_all (\<lambda>k. resolve_one st (final k) now) 0 (finalizing_uploads (w_db w1)) w1"
    using step unfolding reconcile_def Let_def now_def [symmetric] w1_def [symmetric] by (auto split: option.splits)
  moreover have "grows (w_db w1) (w_db (visit_all (\<lambda>k. resolve_one st (final k) now) 0 (finalizing_uploads (w_db w1)) w1))"
    by (rule grows_visit) (rule grows_resolve)
  ultimately show ?thesis using 1 grows_trans by blast
qed

lemma grows_finalize: "finalize_upload sha detect st ora u w = (res, w') \<Longrightarrow> grows (w_db w) (w_db w')"
proof (erule finalize_cases)
  fix p content db1 fs1 db2
  assume upd: "update_upload (db_fails ora 2) (up_id u) (mark_finalizing (hex_encode (sha content)) (secs (clock ora 2))) (w_db w) = Inr db1"
    and c: "phase_c ora u (fst (sniff_mime_type detect (fs_fails ora 3) (fs_fails ora 4) p (w_fs w)))
         (hex_encode (sha content)) (secs (clock ora 2)) db1 = Inr db2" and w': "w' = \<lparr>w_db = db2, w_fs = fs1\<rparr>"
  show "grows (w_db w) (w_db w')"
    using grows_trans [OF grows_insert(4) [OF upd] grows_phase_c [OF c]] w' by simp
qed (simp_all add: grows_insert)

lemma grows_write_chunk: "write_chunk sha detect st ora i offset body w = (res, w') \<Longrightarrow> grows (w_db w) (w_db w')"
proof (erule write_cases)
  fix u :: upload_row and p n s db1
  let ?w2 = "\<lparr>w_db = db1, w_fs = os_append p (st_bytes body) (w_fs w)\<rparr>" and ?u1 = "u\<lparr>up_received := n, up_state := s\<rparr>"
  assume upd: "update_upload (db_fails ora 1) i (mark_received n s (secs (clock ora 1))) (w_db w) = Inr db1"
    and eq: "(res, w') = (if s = StateVerifying
       then (case finalize_upload sha detect st ora ?u1 ?w2 of
               (Inl e, w3) \<Rightarrow> (Inl (Wrap ''finalization failed'' e), w3)
             | (Inr _, w3) \<Rightarrow> (get_upload (db_fails ora 8) (w_db w3) i, w3))
       else (Inr ?u1, ?w2))"
  obtain r w3 where fin: "finalize_upload sha detect st ora ?u1 ?w2 = (r, w3)" by fastforce
  with eq have "w' = (if s = StateVerifying then w3 else ?w2)" by (auto split: if_splits sum.splits)
  with grows_insert(4) [OF upd] grows_finalize [OF fin] show "grows (w_db w) (w_db w')" by (auto intro: grows_trans)
qed auto

lemma grows_create_upload:
  "create_upload env cfg st sf ora owner parent name expected w = (res, w') \<Longrightarrow> grows (w_db w) (w_db w')"
proof (cases "w_db w' = w_db w")
  case False
  assume "create_upload env cfg st sf ora owner parent name expected w = (res, w')"
  then show ?thesis using False by (rule create_upload_effect) (rule grows_insert)
qed simp

lemma grows_terminate: "terminate_upload st ora i w = (res, w') \<Longrightarrow> grows (w_db w) (w_db w')"
  by (auto simp: terminate_upload_def intro: grows_insert split: sum.splits if_splits)

lemma store_step_shares_ok:
  assumes "store_step P env cfg st sha detect w w'" and "store_ok (w_db w)" and "shares_ok (w_db w)"
  shows "shares_ok (w_db w')"
  using assms(1)
proof cases
  case (node_op db')
  with shares_ok_files_step [OF _ store_okD(1) [OF assms(2)] assms(3)] show ?thesis by simp
qed (use assms(3) in \<open>blast intro: shares_ok_grows grows_create_upload grows_write_chunk grows_terminate grows_reconcile\<close>)+

section \<open>What one request does\<close>

lemma store_ok_same:
  "nodes db' = nodes db \<Longrightarrow> file_objects db' = file_objects db \<Longrightarrow> uploads db' = uploads db \<Longrightarrow> store_ok db' = store_ok db"
  by (simp add: store_ok_def files_ok_def uploads_ok_def upload_folders_ok_def)

text \<open>At most one operation of one service; removing objects changes no table.\<close>

inductive service_step :: "server \<Rightarrow> world \<Rightarrow> world \<Rightarrow> bool" for sv where
  idle: "service_step sv w w"
| files: "files_step (w_db w) db' \<Longrightarrow> service_step sv w \<lparr>w_db = db', w_fs = fs'\<rparr>"
| uploads: "store_step (\<lambda>_. True) (sv_text sv) (sv_cfg sv) (sv_storage sv) (sv_sha sv) (sv_detect sv) w w' \<Longrightarrow>
    service_step sv w w'"
| share: "create_share (sv_crypto sv) (sv_cfg sv) ora target pw expires (w_db w) = (res, db') \<Longrightarrow>
    service_step sv w (w\<lparr>w_db := db'\<rparr>)"
| revoke: "revoke_share ora i (w_db w) = (res', db') \<Longrightarrow> service_step sv w (w\<lparr>w_db := db'\<rparr>)"

definition db_ok :: "database \<Rightarrow> bool" where
  "db_ok db \<longleftrightarrow> store_ok db \<and> shares_ok db"

lemma service_step_ok: "service_step sv w w' \<Longrightarrow> db_ok (w_db w) \<Longrightarrow> db_ok (w_db w')"
proof (induction rule: service_step.induct)
  case (files w db' fs')
  then show ?case
    by (simp add: db_ok_def store_ok_files_step shares_ok_files_step [OF _ store_okD(1)])
next
  case (uploads w w')
  then show ?case unfolding db_ok_def using store_step_ok store_step_shares_ok by blast
next
  case (share ora target pw expires w res db')
  have "nodes db' = nodes (w_db w) \<and> file_objects db' = file_objects (w_db w) \<and> uploads db' = uploads (w_db w)"
    by (rule create_share_effect [OF share(1)]) (auto simp: insert_share_Inr)
  then have "store_ok db' = store_ok (w_db w)" by (intro store_ok_same) simp_all
  with share show ?case by (simp add: db_ok_def create_share_shares_ok)
next
  case (revoke ora i w res' db')
  have "nodes db' = nodes (w_db w) \<and> file_objects db' = file_objects (w_db w) \<and> uploads db' = uploads (w_db w)"
    by (rule revoke_share_effect [OF revoke(1)]) auto
  then have "store_ok db' = store_ok (w_db w)" by (intro store_ok_same) simp_all
  with revoke show ?case by (simp add: db_ok_def revoke_share_shares_ok)
qed

definition effect :: "server \<Rightarrow> app \<Rightarrow> app \<Rightarrow> bool" where
  "effect sv a a' \<longleftrightarrow> service_step sv (ap_world a) (ap_world a') \<and> ap_slots a' = ap_slots a \<and>
     (\<exists>es. ap_pending a' = ap_pending a @ es \<and> (\<forall>e \<in> set es. au_outcome e \<in> audit_outcomes))"

lemma effect_refl [simp]: "effect sv a a"
  by (simp add: effect_def service_step.idle)

lemma effect_record:
  assumes "effect sv a a'" and "outcome \<in> audit_outcomes"
  shows "effect sv a (record_event sv ora rq act ty i outcome m a')"
proof -
  from assms(1) obtain es where "ap_pending a' = ap_pending a @ es" and "\<forall>e \<in> set es. au_outcome e \<in> audit_outcomes"
    by (auto simp: effect_def)
  with assms show ?thesis
    unfolding effect_def record_event_def audit_record_def by (auto intro!: exI [of _ "es @ [_]"])
qed

lemma outcomes [simp]: "''success'' \<in> audit_outcomes" "''denied'' \<in> audit_outcomes" "''error'' \<in> audit_outcomes"
  by (simp_all add: audit_outcomes_def)

lemma effect_world: "service_step sv (ap_world a) w \<Longrightarrow> effect sv a (a\<lparr>ap_world := w\<rparr>)"
  by (simp add: effect_def)

lemma effect_files: "files_step (ap_db a) db \<Longrightarrow> effect sv a (set_db db a)"
proof -
  assume "files_step (ap_db a) db"
  then have "service_step sv (ap_world a) \<lparr>w_db = db, w_fs = w_fs (ap_world a)\<rparr>" by (rule service_step.files)
  moreover have "\<lparr>w_db = db, w_fs = w_fs (ap_world a)\<rparr> = (ap_world a)\<lparr>w_db := db\<rparr>" by simp
  ultimately show ?thesis by (simp add: effect_def set_db_def)
qed

text \<open>What the inputs of a request must satisfy: generated ids are not empty, a body has a length.\<close>

definition inputs_ok :: "inputs \<Rightarrow> request \<Rightarrow> bool" where
  "inputs_ok io rq \<longleftrightarrow> (\<forall>k. uuid (in_calls io k) 0 \<noteq> []) \<and> int (length (st_bytes (rq_body rq))) < 2 ^ 63"

lemma inputs_okD: "inputs_ok io rq \<Longrightarrow> uuid (in_calls io k) 0 \<noteq> []" "inputs_ok io rq \<Longrightarrow> int (length (st_bytes (rq_body rq))) < 2 ^ 63"
  by (simp_all add: inputs_ok_def)

lemma effect_files_record:
  "files_step (ap_db a) db \<Longrightarrow> outcome \<in> audit_outcomes \<Longrightarrow>
    effect sv a (record_event sv ora rq act ty i outcome m (set_db db a))"
  by (intro effect_record effect_files)

lemma effect_share_record:
  "create_share (sv_crypto sv) (sv_cfg sv) ora target pw expires (ap_db a) = (res, db) \<Longrightarrow> outcome \<in> audit_outcomes \<Longrightarrow>
    effect sv a (record_event sv ora' rq act ty j outcome m (set_db db a))"
  "revoke_share ora i (ap_db a) = (res', db) \<Longrightarrow> outcome \<in> audit_outcomes \<Longrightarrow>
    effect sv a (record_event sv ora' rq act ty j outcome m (set_db db a))"
  unfolding set_db_def by (intro effect_record effect_world service_step.share service_step.revoke; assumption)+

lemma effect_upload:
  "store_step (\<lambda>_. True) (sv_text sv) (sv_cfg sv) (sv_storage sv) (sv_sha sv) (sv_detect sv) (ap_world a) w \<Longrightarrow>
    effect sv a (a\<lparr>ap_world := w\<rparr>)"
  by (intro effect_world service_step.uploads)

lemma effect_create_folder:
  assumes "handle_create_folder sv calls rq r a = (r', a')" and "uuid (calls 0) 0 \<noteq> []"
  shows "effect sv a a'"
  using assms unfolding handle_create_folder_def Let_def
  by (auto intro!: effect_files_record intro: files_step.create split: sum.splits prod.splits)

lemma effect_rename_node:
  assumes "handle_rename_node sv calls rq i r a = (r', a')"
  shows "effect sv a a'"
  using assms unfolding handle_rename_node_def
  by (auto intro!: effect_files_record intro: files_step.rename split: sum.splits prod.splits)

lemma effect_move_node:
  assumes "handle_move_node sv calls rq i r a = Some (r', a')"
  shows "effect sv a a'"
  using assms unfolding handle_move_node_def Let_def
  by (auto intro!: effect_files_record intro: files_step.move split: sum.splits prod.splits option.splits)

lemma effect_trash_node:
  assumes "handle_trash_node sv calls rq i r a = Some (r', a')"
  shows "effect sv a a'"
  using assms unfolding handle_trash_node_def
  by (auto intro!: effect_files_record intro: files_step.trash split: sum.splits prod.splits option.splits)

lemma effect_restore_node:
  assumes "handle_restore_node sv calls rq i r a = Some (r', a')"
  shows "effect sv a a'"
  using assms unfolding handle_restore_node_def
  by (auto intro!: effect_files_record intro: files_step.restore split: sum.splits prod.splits option.splits)

lemma effect_purge_node:
  assumes "handle_purge_node sv calls rq i r a = Some (r', a')"
  shows "effect sv a a'"
  using assms unfolding handle_purge_node_def Let_def
  by (auto intro!: effect_record effect_files effect_world service_step.files intro: files_step.purge
      split: sum.splits prod.splits option.splits)

lemma effect_backup_selection:
  assumes "handle_backup_selection sv calls rq i r a = (r', a')"
  shows "effect sv a a'"
  using assms unfolding handle_backup_selection_def
  by (auto intro!: effect_files intro: files_step.backup split: sum.splits prod.splits)

lemma effect_create_share:
  assumes "handle_create_share sv calls rq r a = (r', a')"
  shows "effect sv a a'"
  using assms unfolding handle_create_share_def
  by (auto intro!: effect_share_record(1) split: sum.splits prod.splits)

lemma effect_revoke_share:
  assumes "handle_revoke_share sv calls rq i r a = (r', a')"
  shows "effect sv a a'"
  using assms unfolding handle_revoke_share_def
  by (auto intro!: effect_share_record(2) split: sum.splits prod.splits)

lemma effect_tus_create:
  assumes "handle_tus_create sv sf calls rq r a = (r', a')"
  shows "effect sv a a'"
  using assms unfolding handle_tus_create_def
  by (auto intro!: effect_upload intro: store_step.create dest: parse_int64_range split: sum.splits prod.splits option.splits if_splits)

lemma effect_tus_patch:
  assumes "handle_tus_patch sv calls rq i r a = (r', a')" and "uuid (calls 0) 0 \<noteq> []"
    and "int (length (st_bytes (rq_body rq))) < 2 ^ 63"
  shows "effect sv a a'"
  using assms unfolding handle_tus_patch_def
  by (auto intro!: effect_record effect_upload intro: store_step.chunk split: sum.splits prod.splits option.splits if_splits)

lemma effect_tus_delete:
  assumes "handle_tus_delete sv calls rq i r a = (r', a')"
  shows "effect sv a a'"
  using assms unfolding handle_tus_delete_def
  by (auto intro!: effect_upload intro: store_step.terminate split: sum.splits prod.splits)

section \<open>Every request\<close>

definition writes :: "route \<Rightarrow> bool" where
  "writes rt \<longleftrightarrow> rt \<in> {CreateFolder, TusCreate, CreateShare} \<union> range RenameNode \<union> range MoveNode \<union> range TrashNode \<union>
     range RestoreNode \<union> range PurgeNode \<union> range BackupSelection \<union> range TusPatch \<union> range TusDelete \<union> range RevokeShare"

lemma serve_route_reads: "serve_route sv io rt rq r a = Some (r', a') \<Longrightarrow> \<not> writes rt \<Longrightarrow> a' = a"
  by (cases rt) (auto simp: serve_route_def Let_def writes_def split: if_splits)

lemma serve_route_effect:
  assumes step: "serve_route sv io rt rq r a = Some (r', a')" and ok: "inputs_ok io rq"
  shows "effect sv a a'"
proof (cases "writes rt")
  case False
  with step show ?thesis by (metis serve_route_reads effect_refl)
next
  case True
  note handlers = effect_create_folder effect_rename_node effect_move_node effect_trash_node effect_restore_node
    effect_purge_node effect_backup_selection effect_create_share effect_revoke_share effect_tus_create effect_tus_patch
    effect_tus_delete
  from step True show ?thesis
    using inputs_okD [OF ok] by (cases rt) (auto simp: writes_def serve_route_def Let_def elim!: handlers)
qed

text \<open>The routes of the public mux only read.\<close>

lemma find_SomeD: "find P xs = Some x \<Longrightarrow> x \<in> set xs" "find P xs = Some x \<Longrightarrow> P x"
  by (induction xs) (auto split: if_splits)

lemma public_found:
  assumes "mux_lookup public_mux rq = Found rt"
  shows "rt \<in> {HealthLive, HealthReady} \<union> range ShareMeta \<union> range SharePage \<union> range ShareUnlock \<union> range ShareNodes \<union>
    {ShareDownload t i |t i. True}" (is "_ \<in> ?R")
proof -
  from assms obtain m ps f where "find (\<lambda>(m, ps, f). method_fits m (rq_method rq))
      (filter (\<lambda>(m, ps, f). match_segs ps (path_segs (rq_escaped rq)) \<noteq> None) public_mux) = Some (m, ps, f)"
    and rt: "rt = f (the (match_segs ps (path_segs (rq_escaped rq))))"
    by (auto simp: mux_lookup_def Let_def split: if_splits option.splits)
  then have "(m, ps, f) \<in> set public_mux" by (auto dest: find_SomeD(1))
  then have "f vs \<in> ?R" for vs unfolding public_mux_def list.set insert_iff prod.inject by (elim disjE conjE emptyE) simp_all
  with rt show ?thesis by simp
qed

lemma serve_public_same: "serve_mux sv io public_mux rq r a = Some (r', a') \<Longrightarrow> a' = a"
  by (auto simp: serve_mux_def serve_route_def Let_def dest!: public_found split: mux_answer.splits if_splits)

lemma serve_mux_effect:
  "serve_mux sv io table rq r a = Some (r', a') \<Longrightarrow> inputs_ok io rq \<Longrightarrow> effect sv a a'"
  by (auto simp: serve_mux_def split: mux_answer.splits intro: serve_route_effect)

lemma authenticate_request:
  "authenticate cfg lib ans clk rq v = (Inr rq', v') \<Longrightarrow> \<exists>i. rq' = rq\<lparr>rq_identity := i\<rparr>"
  by (auto simp: authenticate_def split: if_splits prod.splits sum.splits)

lemma inputs_ok_update [simp]:
  "inputs_ok io (rq\<lparr>rq_identity := i\<rparr>) = inputs_ok io rq" "inputs_ok io (rq\<lparr>rq_request_id := i\<rparr>) = inputs_ok io rq"
  by (simp_all add: inputs_ok_def)

lemma serve_root_effect:
  assumes step: "serve_root sv io rq r a lib v = (Some (r', a'), v')" and ok: "inputs_ok io rq"
  shows "effect sv a a'"
proof (cases "destination_of (sv_cfg sv) rq")
  case ToAdmin
  show ?thesis
  proof (cases "authenticate (sv_cfg sv) lib (in_jwks io) (in_clock io) rq v")
    case (Pair res v1)
    show ?thesis
    proof (cases res)
      case (Inr rq')
      with Pair authenticate_request have "inputs_ok io rq'" using ok by fastforce
      with step ToAdmin Pair Inr show ?thesis
        by (auto simp: serve_root_def serve_admin_def Let_def intro: serve_mux_effect)
    qed (use step ToAdmin Pair in \<open>auto simp: serve_root_def serve_admin_def Let_def\<close>)
  qed
qed (use step in \<open>auto simp: serve_root_def Let_def dest!: serve_public_same\<close>)

lemma serve_effect:
  assumes "serve sv io rq a lib v = (Some (r, a', l), v')" and "inputs_ok io rq"
  shows "effect sv a a'"
  using assms serve_root_effect by (auto simp: serve_def Let_def split: prod.splits option.splits)

end
