(* ===== verification/Migrations.thy ===== *)
theory Migrations
  imports Storage Config Go_Url Prelude
begin

text \<open>
  \<open>internal/db/db.go\<close>: opening the database and applying the migrations. SQLite is a parameter
  where it runs the text of a migration (\<open>sql\<close>); what the one migration of the repository does is
  \<open>initial_schema\<close>. A missing table of versions counts as an empty one.
\<close>

section \<open>Migration files\<close>

record entry =
  en_name :: string
  en_dir :: bool

text \<open>The version and the name; entries that are no migrations are skipped.\<close>

definition migration_file :: "entry \<Rightarrow> (int \<times> string) option" where
  "migration_file e =
     (if en_dir e \<or> \<not> has_suffix (en_name e) ''.sql'' then None
      else if CHR ''_'' \<notin> set (en_name e) then None
      else (case parse_int64 (takeWhile (\<lambda>c. c \<noteq> CHR ''_'') (en_name e)) of
         None \<Rightarrow> None
       | Some v \<Rightarrow> Some (v, en_name e)))"

text \<open>\<open>sort.Slice\<close> sorts up to twelve elements by insertion, which is stable.\<close>

definition migration_files :: "entry list \<Rightarrow> (int \<times> string) list" where
  "migration_files es = sort_key fst (List.map_filter migration_file es)"

definition embedded :: "entry list" where
  "embedded = [\<lparr>en_name = ''001_initial_schema.sql'', en_dir = False\<rparr>]"

section \<open>Applying them\<close>

record 'd schema =
  sc_versions :: "(int \<times> int) list"
  sc_data :: 'd

definition applied :: "int \<Rightarrow> 'd schema \<Rightarrow> bool" where
  "applied v s \<longleftrightarrow> v \<in> fst ` set (sc_versions s)"

definition record_version :: "string option \<Rightarrow> int \<Rightarrow> int \<Rightarrow> 'd schema \<Rightarrow> db_fault + 'd schema" where
  "record_version flt v now s = exec flt
     (if applied v s then Inl (UniqueFault ''schema_migrations.version'')
      else Inr (s\<lparr>sc_versions := sc_versions s @ [(v, now)]\<rparr>))"

text \<open>One file that has not been applied, in a transaction: an error rolls it back. Call \<open>n\<close> of the
  database is the check before it.\<close>

definition apply_file ::
  "(string \<Rightarrow> 'd \<Rightarrow> db_fault + 'd) \<Rightarrow> (string \<Rightarrow> string + string) \<Rightarrow> outside \<Rightarrow> nat \<Rightarrow> int \<Rightarrow> string \<Rightarrow> 'd schema \<Rightarrow>
   err + 'd schema" where
  "apply_file sql readf ora n v name s =
     (case readf name of
        Inl m \<Rightarrow> Inl (Wrap (''failed reading migration '' @ name) (ErrText m))
      | Inr content \<Rightarrow>
          (case tx_call (db_fails ora (n + 1)) of
             Inl e \<Rightarrow> Inl (Wrap (''failed starting tx for migration '' @ dec_int v) (DbErr e))
           | Inr _ \<Rightarrow>
               (case exec (db_fails ora (n + 2)) (sql content (sc_data s)) of
                  Inl e \<Rightarrow> Inl (Wrap (''failed executing migration '' @ name) (DbErr e))
                | Inr d \<Rightarrow>
                    (case record_version (db_fails ora (n + 3)) v (secs (clock ora n)) (s\<lparr>sc_data := d\<rparr>) of
                       Inl e \<Rightarrow> Inl (Wrap (''failed recording migration '' @ dec_int v) (DbErr e))
                     | Inr s' \<Rightarrow>
                         (case tx_call (db_fails ora (n + 4)) of
                            Inl e \<Rightarrow> Inl (Wrap (''failed committing migration '' @ dec_int v) (DbErr e))
                          | Inr _ \<Rightarrow> Inr s')))))"

fun run_files ::
  "(string \<Rightarrow> 'd \<Rightarrow> db_fault + 'd) \<Rightarrow> (string \<Rightarrow> string + string) \<Rightarrow> outside \<Rightarrow> nat \<Rightarrow> (int \<times> string) list \<Rightarrow> 'd schema \<Rightarrow>
   (err + unit) \<times> 'd schema" where
  "run_files sql readf ora n [] s = (Inr (), s)"
| "run_files sql readf ora n ((v, name) # fs) s =
     (case exec (db_fails ora n) (Inr (applied v s)) of
        Inl e \<Rightarrow> (Inl (Wrap (''failed checking migration '' @ dec_int v) (DbErr e)), s)
      | Inr exists \<Rightarrow>
          if exists then run_files sql readf ora (n + 5) fs s
          else (case apply_file sql readf ora n v name s of
             Inl e \<Rightarrow> (Inl e, s)
           | Inr s' \<Rightarrow> run_files sql readf ora (n + 5) fs s'))"

text \<open>\<open>listing\<close> and \<open>readf\<close> are \<open>ReadDir\<close> and \<open>ReadFile\<close> of the embedded files.\<close>

definition migrate ::
  "(string \<Rightarrow> 'd \<Rightarrow> db_fault + 'd) \<Rightarrow> string + entry list \<Rightarrow> (string \<Rightarrow> string + string) \<Rightarrow> outside \<Rightarrow> 'd schema \<Rightarrow>
   (err + unit) \<times> 'd schema" where
  "migrate sql listing readf ora s =
     (case tx_call (db_fails ora 0) of
        Inl e \<Rightarrow> (Inl (Wrap ''failed to create schema_migrations table'' (DbErr e)), s)
      | Inr _ \<Rightarrow>
          (case listing of
             Inl m \<Rightarrow> (Inl (Wrap ''failed to read migrations'' (ErrText m)), s)
           | Inr es \<Rightarrow> run_files sql readf ora 1 (migration_files es) s))"

section \<open>The one migration\<close>

definition insert_or_ignore :: "node_row \<Rightarrow> database \<Rightarrow> database" where
  "insert_or_ignore r db = (case insert_node None r db of Inl _ \<Rightarrow> db | Inr db' \<Rightarrow> db')"

text \<open>\<open>None\<close> is a file without the tables; \<open>t\<close> is SQLite's clock.\<close>

definition initial_schema :: "int \<Rightarrow> database option \<Rightarrow> db_fault + database option" where
  "initial_schema t d =
     (let db = (case d of
            None \<Rightarrow> \<lparr>nodes = [], file_objects = [], uploads = [], shares = [], audit_events = []\<rparr>
          | Some db \<Rightarrow> db)
      in Inr (Some (insert_or_ignore (system_row trash_root_id ''Trash'' ''trash'' t)
           (insert_or_ignore (system_row root_id ''Root'' ''root'' t) db))))"

lemma initial_schema_None: "initial_schema t None = Inr (Some (init_db t))"
  by (simp add: initial_schema_def insert_or_ignore_def insert_node_def check_nodes_def
      parents_exist_def clashes_def system_row_def init_db_def root_id_def trash_root_id_def)

section \<open>Opening\<close>

definition busy_millis :: "int \<Rightarrow> int" where
  "busy_millis busy = (let ms = busy div 1000000 in if ms \<le> 0 then 5000 else ms)"

definition dsn :: "string \<Rightarrow> int \<Rightarrow> string \<Rightarrow> string" where
  "dsn path ms sync =
     ''file:'' @ path_escape path @ ''?_pragma=foreign_keys(1)&_pragma=busy_timeout('' @ dec_int ms @
     '')&_pragma=journal_mode(WAL)&_pragma=synchronous('' @ sync @ '')''"

definition init_pragmas :: "int \<Rightarrow> string \<Rightarrow> string list" where
  "init_pragmas ms sync =
     [''PRAGMA foreign_keys = ON;'', ''PRAGMA busy_timeout = '' @ dec_int ms @ '';'', ''PRAGMA journal_mode = WAL;'',
      ''PRAGMA synchronous = '' @ sync @ '';'']"

fun run_pragmas :: "(nat \<Rightarrow> string option) \<Rightarrow> nat \<Rightarrow> string list \<Rightarrow> err + unit" where
  "run_pragmas flt k [] = Inr ()"
| "run_pragmas flt k (p # ps) =
     (case tx_call (flt k) of
        Inl e \<Rightarrow> Inl (Wrap (''failed executing pragma '' @ p) (DbErr e))
      | Inr _ \<Rightarrow> run_pragmas flt (Suc k) ps)"

text \<open>
  \<open>Open\<close>: the directory, the connection (database calls 0 and 1), the pragmas (calls 2 to 5),
  then \<open>Migrate\<close> with a world of its own. The result is the data source name the pool connects
  to. Error texts leave out the quotes of \<open>%q\<close>.
\<close>

definition open_db ::
  "(string \<Rightarrow> 'd \<Rightarrow> db_fault + 'd) \<Rightarrow> string + entry list \<Rightarrow> (string \<Rightarrow> string + string) \<Rightarrow> outside \<Rightarrow> outside \<Rightarrow>
   string \<Rightarrow> int \<Rightarrow> string \<Rightarrow> fs \<Rightarrow> 'd schema \<Rightarrow> (err + string) \<times> fs \<times> 'd schema" where
  "open_db sql listing readf ora mig path busy sync fs s =
     (let dir = path_dir path; ms = busy_millis busy; sync = (if sync = [] then ''NORMAL'' else sync)
      in case os_mkdir_all (fs_fails ora 0) dir fs of
           Inl e \<Rightarrow> (Inl (Wrap (''failed to create db directory '' @ dir) e), fs, s)
         | Inr fs' \<Rightarrow>
             (case tx_call (db_fails ora 0) of
                Inl e \<Rightarrow> (Inl (Wrap ''failed to open sqlite database'' (DbErr e)), fs', s)
              | Inr _ \<Rightarrow>
                  (case tx_call (db_fails ora 1) of
                     Inl e \<Rightarrow> (Inl (Wrap ''failed to acquire test connection'' (DbErr e)), fs', s)
                   | Inr _ \<Rightarrow>
                       (case run_pragmas (db_fails ora) 2 (init_pragmas ms sync) of
                          Inl e \<Rightarrow> (Inl e, fs', s)
                        | Inr _ \<Rightarrow>
                            (case migrate sql listing readf mig s of
                               (Inl e, s') \<Rightarrow> (Inl (Wrap ''failed running migrations'' e), fs', s')
                             | (Inr _, s') \<Rightarrow> (Inr (dsn path ms sync), fs', s'))))))"

section \<open>An interrupted migration is resumed\<close>

text \<open>The same without faults, on the versions and the data.\<close>

fun steps ::
  "(string \<Rightarrow> 'd \<Rightarrow> db_fault + 'd) \<Rightarrow> (string \<Rightarrow> string + string) \<Rightarrow> (int \<times> string) list \<Rightarrow> int list \<times> 'd \<Rightarrow> (int list \<times> 'd) option" where
  "steps sql readf [] x = Some x"
| "steps sql readf ((v, name) # fs) x =
     (if v \<in> set (fst x) then steps sql readf fs x
      else (case readf name of
         Inl m \<Rightarrow> None
       | Inr content \<Rightarrow>
           (case sql content (snd x) of Inl e \<Rightarrow> None | Inr d \<Rightarrow> steps sql readf fs (fst x @ [v], d))))"

definition schema_view :: "'d schema \<Rightarrow> int list \<times> 'd" where
  "schema_view s = (map fst (sc_versions s), sc_data s)"

lemma applied_view: "applied v s \<longleftrightarrow> v \<in> set (fst (schema_view s))"
  by (simp add: applied_def schema_view_def)

lemma apply_file_Inr:
  assumes "apply_file sql readf ora n v name s = Inr s'"
  obtains content d where "readf name = Inr content" "sql content (sc_data s) = Inr d"
    "schema_view s' = (fst (schema_view s) @ [v], d)" "\<not> applied v s"
  using assms by (auto simp: apply_file_def record_version_def applied_def schema_view_def split: sum.splits if_splits)

lemma run_files_prefix:
  "run_files sql readf ora n fs s = (res, s1) \<Longrightarrow>
    \<exists>k. steps sql readf (take k fs) (schema_view s) = Some (schema_view s1) \<and> (res = Inr () \<longrightarrow> length fs \<le> k)"
proof (induction sql readf ora n fs s rule: run_files.induct)
  case (1 sql readf ora n s)
  then show ?case by auto
next
  case (2 sql readf ora n v name fs s)
  show ?case
  proof (cases "db_fails ora n")
    case (Some m)
    with 2(3) show ?thesis by (intro exI [of _ 0]) (auto simp: exec_def)
  next
    case None
    note checked = this
    show ?thesis
    proof (cases "applied v s")
      case True
      with 2(1) [of True] 2(3) None obtain k where
        "steps sql readf (take k fs) (schema_view s) = Some (schema_view s1)" "res = Inr () \<longrightarrow> length fs \<le> k" by auto
      with True show ?thesis by (intro exI [of _ "Suc k"]) (simp add: applied_view)
    next
      case False
      show ?thesis
      proof (cases "apply_file sql readf ora n v name s")
        case (Inl e)
        with 2(3) None False show ?thesis by (intro exI [of _ 0]) auto
      next
        case (Inr s')
        with 2(2) [of False s'] 2(3) None False obtain k where
          k: "steps sql readf (take k fs) (schema_view s') = Some (schema_view s1)" "res = Inr () \<longrightarrow> length fs \<le> k" by auto
        from Inr obtain content d where "readf name = Inr content" "sql content (sc_data s) = Inr d"
          "schema_view s' = (fst (schema_view s) @ [v], d)" by (rule apply_file_Inr)
        with k False show ?thesis by (intro exI [of _ "Suc k"]) (simp add: applied_view, simp add: schema_view_def)
      qed
    qed
  qed
qed

lemma steps_grow: "steps sql readf fs x = Some y \<Longrightarrow> \<exists>vs. fst y = fst x @ vs"
  by (induction sql readf fs x rule: steps.induct) (fastforce split: if_splits sum.splits)+

lemma steps_append:
  "steps sql readf (fs @ gs) x = Option.bind (steps sql readf fs x) (steps sql readf gs)"
  by (induction sql readf fs x rule: steps.induct) (auto split: sum.splits)

lemma steps_applies: "steps sql readf fs x = Some y \<Longrightarrow> fst ` set fs \<subseteq> set (fst y)"
proof (induction sql readf fs x rule: steps.induct)
  case (2 sql readf v name fs x)
  show ?case
  proof (cases "v \<in> set (fst x)")
    case True
    with 2 steps_grow [of sql readf fs x y] show ?thesis by auto
  next
    case False
    with 2(3) obtain content d where rd: "readf name = Inr content" "sql content (snd x) = Inr d"
      and rest: "steps sql readf fs (fst x @ [v], d) = Some y" by (auto split: sum.splits)
    from steps_grow [OF rest] 2(2) [OF False rd rest] show ?thesis by auto
  qed
qed simp

lemma steps_skip: "fst ` set fs \<subseteq> set (fst x) \<Longrightarrow> steps sql readf fs x = Some x"
  by (induction fs) auto

text \<open>Doing the first files again does nothing, so a run may start over after any of them.\<close>

lemma steps_resume:
  assumes "steps sql readf fs x = Some y" and "steps sql readf (take k fs) x = Some x1"
  shows "steps sql readf fs x1 = Some y"
proof -
  have "steps sql readf (take k fs @ drop k fs) x = steps sql readf (drop k fs) x1"
    unfolding steps_append assms(2) by simp
  moreover have "steps sql readf (take k fs @ drop k fs) x1 = steps sql readf (drop k fs) x1"
    unfolding steps_append using steps_skip [OF steps_applies [OF assms(2)]] by simp
  ultimately show ?thesis using assms(1) by simp
qed

lemma run_files_calm:
  assumes "\<And>k. db_fails ora k = None" and "steps sql readf fs (schema_view s) = Some y"
  shows "\<exists>t. run_files sql readf ora n fs s = (Inr (), t) \<and> schema_view t = y \<and> (y = schema_view s \<longrightarrow> t = s)"
  using assms(2)
proof (induction fs arbitrary: n s)
  case (Cons f fs)
  obtain v name where f: "f = (v, name)" by fastforce
  show ?case
  proof (cases "applied v s")
    case True
    with Cons f show ?thesis by (auto simp: assms(1) applied_view)
  next
    case False
    with Cons.prems f obtain content d where rd: "readf name = Inr content" "sql content (sc_data s) = Inr d"
      and rest: "steps sql readf fs (fst (schema_view s) @ [v], d) = Some y"
      by (auto simp: applied_view schema_view_def split: sum.splits)
    define s1 where "s1 = s\<lparr>sc_versions := sc_versions s @ [(v, secs (clock ora n))], sc_data := d\<rparr>"
    have "apply_file sql readf ora n v name s = Inr s1"
      using False by (simp add: apply_file_def rd assms(1) record_version_def applied_def s1_def)
    moreover have view: "schema_view s1 = (fst (schema_view s) @ [v], d)" by (simp add: s1_def schema_view_def)
    moreover obtain t where "run_files sql readf ora (n + 5) fs s1 = (Inr (), t)" "schema_view t = y"
      using Cons.IH [of s1 "n + 5"] rest view by auto
    moreover have "y \<noteq> schema_view s"
      using steps_grow [OF rest] by auto
    ultimately show ?thesis using False f by (simp add: assms(1))
  qed
qed auto

text \<open>
  C28: Migrating can be interrupted anywhere and started again: when the migrations run through
  from a database without faults, then after a run that any fault has stopped, a run without faults
  succeeds and leaves the same data and the same versions; after a run that was not stopped it
  changes nothing.
\<close>

theorem migration_resumes:
  assumes calm: "\<And>k. db_fails ora k = None"
    and full: "migrate sql (Inr es) readf ora s = (Inr (), t)"
    and first: "migrate sql (Inr es) readf ora1 s = (res, s1)"
  shows "\<exists>t1. migrate sql (Inr es) readf ora s1 = (Inr (), t1) \<and> sc_data t1 = sc_data t \<and>
    map fst (sc_versions t1) = map fst (sc_versions t) \<and> (res = Inr () \<longrightarrow> t1 = s1)"
proof -
  let ?fs = "migration_files es"
  from full calm have "run_files sql readf ora 1 ?fs s = (Inr (), t)" by (simp add: migrate_def)
  from run_files_prefix [OF this] have y: "steps sql readf ?fs (schema_view s) = Some (schema_view t)" by auto
  have "\<exists>k. steps sql readf (take k ?fs) (schema_view s) = Some (schema_view s1) \<and> (res = Inr () \<longrightarrow> length ?fs \<le> k)"
  proof (cases "tx_call (db_fails ora1 0)")
    case (Inl e)
    with first show ?thesis by (intro exI [of _ 0]) (auto simp: migrate_def)
  next
    case (Inr u)
    with first have "run_files sql readf ora1 1 ?fs s = (res, s1)" by (simp add: migrate_def)
    then show ?thesis by (rule run_files_prefix)
  qed
  then obtain k where k: "steps sql readf (take k ?fs) (schema_view s) = Some (schema_view s1)"
    and all: "res = Inr () \<Longrightarrow> length ?fs \<le> k" by blast
  from run_files_calm [OF calm steps_resume [OF y k]] obtain t1 where
    t1: "run_files sql readf ora 1 ?fs s1 = (Inr (), t1)" "schema_view t1 = schema_view t"
      "schema_view t = schema_view s1 \<longrightarrow> t1 = s1" by blast
  have "t1 = s1" if "res = Inr ()"
    using all [OF that] k y t1(3) by simp
  with t1 calm show ?thesis by (auto simp: migrate_def schema_view_def)
qed

text \<open>Two migrations of a list of names; the second cannot be recorded the first time.\<close>

definition demo_migrations :: "entry list" where
  "demo_migrations = [\<lparr>en_name = ''10_b.sql'', en_dir = False\<rparr>, \<lparr>en_name = ''2_a.sql'', en_dir = False\<rparr>,
     \<lparr>en_name = ''readme.sql'', en_dir = False\<rparr>, \<lparr>en_name = ''3_old'', en_dir = True\<rparr>]"

lemma demo_migration_files: "migration_files demo_migrations = [(2, ''2_a.sql''), (10, ''10_b.sql'')]"
proof -
  have d: "digit_val (CHR ''0'') = Some 0" "digit_val (CHR ''1'') = Some 1" "digit_val (CHR ''2'') = Some 2"
    "digit_val (CHR ''r'') = None"
    by code_simp+
  have "migration_file \<lparr>en_name = ''10_b.sql'', en_dir = False\<rparr> = Some (10, ''10_b.sql'')"
    "migration_file \<lparr>en_name = ''2_a.sql'', en_dir = False\<rparr> = Some (2, ''2_a.sql'')"
    "migration_file \<lparr>en_name = ''readme.sql'', en_dir = False\<rparr> = None"
    "migration_file \<lparr>en_name = ''3_old'', en_dir = True\<rparr> = None"
    by (simp_all add: migration_file_def has_suffix_def suffix_def parse_int64_def d Let_def)
  then show ?thesis by (simp add: migration_files_def map_filter_def demo_migrations_def)
qed

definition demo_world :: "nat option \<Rightarrow> outside" where
  "demo_world at = \<lparr>db_fails = (\<lambda>k. if at = Some k then Some ''disk full'' else None), fs_fails = (\<lambda>_. None),
     clock = (\<lambda>_. 0), uuid = (\<lambda>_. []), rand_bytes = (\<lambda>_. [])\<rparr>"

theorem migration_resumes_witness:
  "let go = migrate (\<lambda>content d. Inr (d @ [content])) (Inr demo_migrations) Inr;
       s1 = \<lparr>sc_versions = [(2, 0)], sc_data = [''2_a.sql'']\<rparr>
   in go (demo_world (Some 9)) \<lparr>sc_versions = [], sc_data = []\<rparr> =
        (Inl (Wrap ''failed recording migration 10'' (DbErr (ExternalFault ''disk full''))), s1) \<and>
      (\<exists>t1. go (demo_world None) s1 = (Inr (), t1) \<and> sc_data t1 = [''2_a.sql'', ''10_b.sql''] \<and> map fst (sc_versions t1) = [2, 10])"
proof -
  let ?go = "migrate (\<lambda>content d. Inr (d @ [content])) (Inr demo_migrations) Inr"
  let ?s1 = "\<lparr>sc_versions = [(2, 0)], sc_data = [''2_a.sql'']\<rparr>" and ?s = "\<lparr>sc_versions = [], sc_data = []\<rparr>"
  let ?t = "\<lparr>sc_versions = [(2, 0), (10, 0)], sc_data = [''2_a.sql'', ''10_b.sql'']\<rparr>"
  let ?e = "Wrap ''failed recording migration 10'' (DbErr (ExternalFault ''disk full''))"
  have ten: "dec_int 10 = ''10''" by code_simp
  have 1: "?go (demo_world None) ?s = (Inr (), ?t)"
    by (simp add: migrate_def demo_migration_files demo_world_def apply_file_def record_version_def applied_def secs_def)
  have 2: "?go (demo_world (Some 9)) ?s = (Inl ?e, ?s1)"
    by (simp add: migrate_def demo_migration_files demo_world_def apply_file_def record_version_def applied_def secs_def ten exec_def)
  have "db_fails (demo_world None) k = None" for k by (simp add: demo_world_def)
  from migration_resumes [OF this 1 2] have "\<exists>t1. ?go (demo_world None) ?s1 = (Inr (), t1) \<and>
      sc_data t1 = [''2_a.sql'', ''10_b.sql''] \<and> map fst (sc_versions t1) = [2, 10]" by auto
  with 2 show ?thesis by (simp add: Let_def)
qed

end
