(* ===== verification/Web_Embed.thy ===== *)
theory Web_Embed
  imports Go_Text
begin

text \<open>
  \<open>web/embed.go\<close>: the tree of the built web client that the binary carries. A file system is
  what it can open (\<open>fs.FS\<close> of the library, as far as the router uses it); the embedded one is a parameter.
\<close>

section \<open>\<open>io/fs\<close>\<close>

text \<open>\<open>utf8.ValidString\<close> on the bytes of a name.\<close>

definition utf8_tail :: "nat \<Rightarrow> bool" where
  "utf8_tail b \<longleftrightarrow> 128 \<le> b \<and> b < 192"

fun utf8_bytes :: "nat list \<Rightarrow> bool" where
  "utf8_bytes [] = True"
| "utf8_bytes (a # bs) =
     (if a < 128 then utf8_bytes bs
      else case bs of
        [] \<Rightarrow> False
      | b # cs \<Rightarrow>
          if 194 \<le> a \<and> a < 224 then utf8_tail b \<and> utf8_bytes cs
          else case cs of
            [] \<Rightarrow> False
          | c # ds \<Rightarrow>
              if 224 \<le> a \<and> a < 240
              then utf8_tail b \<and> utf8_tail c \<and> (a = 224 \<longrightarrow> 160 \<le> b) \<and> (a = 237 \<longrightarrow> b < 160) \<and> utf8_bytes ds
              else case ds of
                [] \<Rightarrow> False
              | d # es \<Rightarrow>
                  240 \<le> a \<and> a < 245 \<and> utf8_tail b \<and> utf8_tail c \<and> utf8_tail d \<and>
                  (a = 240 \<longrightarrow> 144 \<le> b) \<and> (a = 244 \<longrightarrow> b < 144) \<and> utf8_bytes es)"

definition utf8_valid :: "string \<Rightarrow> bool" where
  "utf8_valid s = utf8_bytes (map of_char s)"

text \<open>\<open>fs.ValidPath\<close>.\<close>

definition valid_fs_path :: "string \<Rightarrow> bool" where
  "valid_fs_path name \<longleftrightarrow> utf8_valid name \<and>
     (name = ''.'' \<or> list_all (\<lambda>e. e \<noteq> [] \<and> e \<noteq> ''.'' \<and> e \<noteq> ''..'') (go_split (CHR ''/'') name))"

text \<open>\<open>fs.Sub\<close> on a file system that has no \<open>Sub\<close> of its own; the error is a text.\<close>

definition fs_sub :: "(string \<Rightarrow> bool) \<Rightarrow> string \<Rightarrow> string + (string \<Rightarrow> bool)" where
  "fs_sub opens dir =
     (if \<not> valid_fs_path dir then Inl ''invalid name''
      else if dir = ''.'' then Inr opens
      else Inr (\<lambda>name. valid_fs_path name \<and> opens (if name = ''.'' then dir else dir @ ''/'' @ name)))"

section \<open>The client\<close>

definition dist_fs :: "(string \<Rightarrow> bool) \<Rightarrow> string \<Rightarrow> bool" where
  "dist_fs embedded_files = (case fs_sub embedded_files ''dist'' of Inl _ \<Rightarrow> embedded_files | Inr sub \<Rightarrow> sub)"

lemma dist_fs_opens:
  "dist_fs opens name \<longleftrightarrow> valid_fs_path name \<and> opens (if name = ''.'' then ''dist'' else ''dist/'' @ name)"
proof -
  have "valid_fs_path ''dist''" by code_simp
  then show ?thesis by (simp add: dist_fs_def fs_sub_def)
qed

text \<open>No element of a path that can be opened leads up.\<close>

lemma dist_fs_no_dotdot: "dist_fs opens name \<Longrightarrow> ''..'' \<notin> set (go_split (CHR ''/'') name)"
proof -
  assume "dist_fs opens name"
  then have "valid_fs_path name" by (simp add: dist_fs_opens)
  moreover have "go_split (CHR ''/'') ''.'' = [''.'']" by code_simp
  ultimately show ?thesis by (auto simp: valid_fs_path_def list_all_iff)
qed

end
