(* ===== verification/Server_Run.thy ===== *)
theory Server_Run
  imports Server_Inv Migrations Web_Embed Upload_Crash
begin

text \<open>
  \<open>cmd/server/main.go\<close> and the life of the process: start, requests, the goroutines of the audit
  log, the periodic reconciliation, the shutdown, and restarts. Each of these is one step; a process that ends
  may leave the work of a request or of a reconciliation half done.
\<close>

section \<open>The health check\<close>

text \<open>The arguments from the third on; the last \<open>--url\<close> with a value counts.\<close>

fun healthcheck_url :: "string list \<Rightarrow> string \<Rightarrow> string" where
  "healthcheck_url (x # y # zs) url = healthcheck_url (y # zs) (if x = ''--url'' then y else url)"
| "healthcheck_url _ url = url"

definition healthcheck :: "(string \<Rightarrow> string + int) \<Rightarrow> string list \<Rightarrow> int" where
  "healthcheck get args =
     (case get (healthcheck_url (drop 2 args) ''http://127.0.0.1:8080/health/live'') of
        Inl _ \<Rightarrow> 1
      | Inr status \<Rightarrow> if status \<noteq> 200 then 1 else 0)"

section \<open>The start of the server\<close>

text \<open>What \<open>main\<close> meets outside: \<open>su_sqlite\<close> is SQLite's clock for the text of the migration,
  \<open>su_embedded\<close> the paths that the tree in the binary can open, the others the worlds of the calls in
  their order.\<close>

record startup =
  su_env :: "string \<Rightarrow> string"
  su_open :: outside
  su_migrate :: outside
  su_sqlite :: int
  su_dirs :: "nat \<Rightarrow> string option"
  su_reconcile :: outside
  su_stale :: "nat \<Rightarrow> outside"
  su_final :: "nat \<Rightarrow> outside"
  su_embedded :: "string \<Rightarrow> bool"

text \<open>\<open>Draining\<close> is the time between the signal and the return of \<open>main\<close>.\<close>

datatype phase = Listening | Draining | Exited int | Killed

record process =
  pr_phase :: phase
  pr_server :: server
  pr_app :: app
  pr_verifier :: verifier
  pr_versions :: "(int \<times> int) list"
  pr_level :: log_level

text \<open>Up to the listening server. \<open>Inl\<close> is the exit status; a failed reconciliation is only logged.
  After the migrations there are tables; the branch without them is never taken.
  \<open>sv\<close> holds the parameters of the model, which do not depend on the configuration.\<close>

definition start_server ::
  "server \<Rightarrow> startup \<Rightarrow> fs \<Rightarrow> database option schema \<Rightarrow> int + process" where
  "start_server sv su fs s =
     (case load_config (su_env su) of
        Inl _ \<Rightarrow> Inl 1
      | Inr cfg \<Rightarrow>
          (case open_db (\<lambda>_. initial_schema (su_sqlite su)) (Inr embedded) Inr (su_open su) (su_migrate su)
              (DBPath cfg) (DBBusyTimeout cfg) (SQLiteSynchronous cfg) fs s of
             (Inl _, _, _) \<Rightarrow> Inl 1
           | (Inr _, fs1, s1) \<Rightarrow>
               (case new_storage (su_dirs su) (DataDir cfg) fs1 of
                  (Inl _, _) \<Rightarrow> Inl 1
                | (Inr st, fs2) \<Rightarrow>
                    (case sc_data s1 of
                       None \<Rightarrow> Inl 1
                     | Some db \<Rightarrow>
                         (let w = snd (reconcile st (su_reconcile su) (su_stale su) (su_final su) \<lparr>w_db = db, w_fs = fs2\<rparr>)
                          in Inr \<lparr>pr_phase = Listening, pr_server = sv\<lparr>sv_cfg := cfg, sv_storage := st, sv_static := Some (dist_fs (su_embedded su))\<rparr>,
                            pr_app = \<lparr>ap_world = w, ap_slots = no_slots, ap_pending = []\<rparr>,
                            pr_verifier = new_verifier, pr_versions = sc_versions s1, pr_level = init_logger (AppEnv cfg)\<rparr>)))))"

section \<open>Steps\<close>

text \<open>What is under way when the process ends: nothing that writes, an operation on an upload or a
  reconciliation at any of its writes, or a purge that has not removed all its objects.\<close>

inductive interrupted :: "server \<Rightarrow> world \<Rightarrow> world \<Rightarrow> bool" for sv where
  at_rest: "interrupted sv w w"
| storing: "crash_step (\<lambda>_. True) (sv_text sv) (sv_cfg sv) (sv_storage sv) (sv_sha sv) (sv_detect sv) w w' \<Longrightarrow>
    interrupted sv w w'"
| purging: "purge_node ora i (w_db w) = Some (Inr keys, db') \<Longrightarrow>
    interrupted sv w \<lparr>w_db = db', w_fs = remove_objects (sv_storage sv) flts 0 (take n keys) (w_fs w)\<rparr>"

definition running :: "process \<Rightarrow> bool" where
  "running p \<longleftrightarrow> pr_phase p = Listening \<or> pr_phase p = Draining"

text \<open>The end of the process, with the audit rows that were not inserted yet lost.\<close>

definition ended :: "phase \<Rightarrow> world \<Rightarrow> process \<Rightarrow> process" where
  "ended ph w p = p\<lparr>pr_phase := ph, pr_app := (pr_app p)\<lparr>ap_world := w, ap_pending := []\<rparr>\<rparr>"

text \<open>
  \<open>answered\<close>: a request with a response; \<open>unanswered\<close>: one whose handler panics before it has changed
  anything. The goroutine of the reconciliation may still run after the signal, since \<open>main\<close> does not wait
  for it. \<open>Shutdown\<close> that fails at its time limit is only logged, so \<open>main\<close> returns either way; a listener that
  fails exits with 1.
\<close>

inductive process_step :: "jwt_lib \<Rightarrow> process \<Rightarrow> process \<Rightarrow> bool" for lib where
  answered: "running p \<Longrightarrow> serve (pr_server p) io rq (pr_app p) lib (pr_verifier p) = (Some (r, a, line), v) \<Longrightarrow>
    inputs_ok io rq \<Longrightarrow> process_step lib p (p\<lparr>pr_app := a, pr_verifier := v\<rparr>)"
| unanswered: "running p \<Longrightarrow> serve (pr_server p) io rq (pr_app p) lib (pr_verifier p) = (None, v) \<Longrightarrow> inputs_ok io rq \<Longrightarrow>
    process_step lib p (p\<lparr>pr_verifier := v\<rparr>)"
| audited: "running p \<Longrightarrow> ap_pending (pr_app p) = es @ e # fs \<Longrightarrow>
    process_step lib p (p\<lparr>pr_app := set_db (flush_audit flt e (ap_db (pr_app p))) ((pr_app p)\<lparr>ap_pending := es @ fs\<rparr>)\<rparr>)"
| tick: "running p \<Longrightarrow> reconcile (sv_storage (pr_server p)) ora stale final (ap_world (pr_app p)) = (res, w) \<Longrightarrow>
    (\<And>k. uuid (final k) 0 \<noteq> []) \<Longrightarrow> process_step lib p (p\<lparr>pr_app := (pr_app p)\<lparr>ap_world := w\<rparr>\<rparr>)"
| signalled: "pr_phase p = Listening \<Longrightarrow> process_step lib p (p\<lparr>pr_phase := Draining\<rparr>)"
| stopped: "pr_phase p = Draining \<Longrightarrow> interrupted (pr_server p) (ap_world (pr_app p)) w \<Longrightarrow>
    process_step lib p (ended (Exited 0) w p)"
| listen_failed: "pr_phase p = Listening \<Longrightarrow> interrupted (pr_server p) (ap_world (pr_app p)) w \<Longrightarrow>
    process_step lib p (ended (Exited 1) w p)"
| killed: "running p \<Longrightarrow> interrupted (pr_server p) (ap_world (pr_app p)) w \<Longrightarrow> process_step lib p (ended Killed w p)"
| restart: "\<not> running p \<Longrightarrow> start_server (pr_server p) su (w_fs (ap_world (pr_app p)))
      \<lparr>sc_versions = pr_versions p, sc_data = Some (ap_db (pr_app p))\<rparr> = Inr p' \<Longrightarrow>
    (\<And>k. uuid (su_final su k) 0 \<noteq> []) \<Longrightarrow> process_step lib p p'"

definition first_start :: "process \<Rightarrow> bool" where
  "first_start p \<longleftrightarrow> (\<exists>sv su fs. start_server sv su fs \<lparr>sc_versions = [], sc_data = None\<rparr> = Inr p \<and>
     (\<forall>k. uuid (su_final su k) 0 \<noteq> []))"

definition process_ok :: "process \<Rightarrow> bool" where
  "process_ok p \<longleftrightarrow> db_ok (ap_db (pr_app p)) \<and> 1 \<in> fst ` set (pr_versions p) \<and>
     (\<forall>e \<in> set (ap_pending (pr_app p)). au_outcome e \<in> audit_outcomes)"

lemma db_ok_init: "db_ok (init_db t)"
  unfolding db_ok_def using init_store_ok [of t] by (simp add: shares_ok_def) (simp add: init_db_def)

lemma reconcile_db_ok:
  assumes "reconcile st ora stale final w = (res, w')" and "\<And>k. uuid (final k) 0 \<noteq> []" and "db_ok (w_db w)"
  shows "db_ok (w_db w')"
proof -
  have "store_step (\<lambda>_. True) env cfg st sha detect w w'" for env cfg sha detect
    by (rule store_step.reconcile [OF assms(1)]) (simp_all add: assms(2))
  with assms(3) show ?thesis
    unfolding db_ok_def using store_step_ok store_step_shares_ok by blast
qed

text \<open>The embedded migration runs once.\<close>

lemma embedded_files: "migration_files embedded = [(1, ''001_initial_schema.sql'')]"
proof -
  have d: "digit_val (CHR ''0'') = Some 0" "digit_val (CHR ''1'') = Some 1" by code_simp+
  have "migration_file \<lparr>en_name = ''001_initial_schema.sql'', en_dir = False\<rparr> = Some (1, ''001_initial_schema.sql'')"
    by (simp add: migration_file_def has_suffix_def suffix_def parse_int64_def d Let_def)
  then show ?thesis by (simp add: migration_files_def map_filter_def embedded_def)
qed

lemma open_db_data:
  assumes "open_db (\<lambda>_. initial_schema t) (Inr embedded) Inr ora mig path busy sync fs s = (Inr d, fs', s')"
    and "s = \<lparr>sc_versions = [], sc_data = None\<rparr> \<or> 1 \<in> fst ` set (sc_versions s)"
  shows "1 \<in> fst ` set (sc_versions s') \<and> sc_data s' = (if 1 \<in> fst ` set (sc_versions s) then sc_data s else Some (init_db t))"
proof -
  from assms(1) have run: "run_files (\<lambda>_. initial_schema t) Inr mig 1 [(1, ''001_initial_schema.sql'')] s = (Inr (), s')"
    by (auto simp: open_db_def Let_def migrate_def embedded_files simp del: run_files.simps split: sum.splits prod.splits)
  show ?thesis
  proof (cases "applied 1 s")
    case True
    with run have "s' = s" by (simp split: sum.splits)
    with True show ?thesis by (simp add: applied_def)
  next
    case False
    with run have app: "apply_file (\<lambda>_. initial_schema t) Inr mig 1 1 ''001_initial_schema.sql'' s = Inr s'"
      by (simp split: sum.splits)
    have new: "s = \<lparr>sc_versions = [], sc_data = None\<rparr>" using False assms(2) by (simp add: applied_def)
    from app obtain d where d: "initial_schema t (sc_data s) = Inr d" "schema_view s' = (fst (schema_view s) @ [1], d)"
      by (rule apply_file_Inr) simp
    from d(2) have "1 \<in> set (map fst (sc_versions s'))" "sc_data s' = d" by (simp_all add: schema_view_def)
    with d(1) new show ?thesis by (simp add: initial_schema_None)
  qed
qed

lemma start_server_ok:
  assumes start: "start_server sv su fs s = Inr p" and ids: "\<And>k. uuid (su_final su k) 0 \<noteq> []"
    and s: "s = \<lparr>sc_versions = [], sc_data = None\<rparr> \<or> 1 \<in> fst ` set (sc_versions s)"
    and ok: "\<And>db. sc_data s = Some db \<Longrightarrow> db_ok db"
  shows "process_ok p"
proof -
  from start obtain cfg where "load_config (su_env su) = Inr cfg"
    by (auto simp: start_server_def split: sum.splits)
  with start obtain d fs1 s1 where
    op: "open_db (\<lambda>_. initial_schema (su_sqlite su)) (Inr embedded) Inr (su_open su) (su_migrate su) (DBPath cfg)
      (DBBusyTimeout cfg) (SQLiteSynchronous cfg) fs s = (Inr d, fs1, s1)"
    by (auto simp: start_server_def split: sum.splits prod.splits)
  with start \<open>load_config _ = _\<close> obtain st fs2 db where db: "sc_data s1 = Some db"
    and p: "p = (let w = snd (reconcile st (su_reconcile su) (su_stale su) (su_final su) \<lparr>w_db = db, w_fs = fs2\<rparr>)
      in \<lparr>pr_phase = Listening, pr_server = sv\<lparr>sv_cfg := cfg, sv_storage := st, sv_static := Some (dist_fs (su_embedded su))\<rparr>, pr_app = \<lparr>ap_world = w, ap_slots = no_slots, ap_pending = []\<rparr>,
          pr_verifier = new_verifier, pr_versions = sc_versions s1, pr_level = init_logger (AppEnv cfg)\<rparr>)"
    by (auto simp: start_server_def Let_def split: sum.splits prod.splits option.splits)
  from open_db_data [OF op s] db ok db_ok_init have v: "1 \<in> fst ` set (sc_versions s1)" and "db_ok db"
    by (auto split: if_splits)
  obtain res w where w: "reconcile st (su_reconcile su) (su_stale su) (su_final su) \<lparr>w_db = db, w_fs = fs2\<rparr> = (res, w)"
    by fastforce
  from reconcile_db_ok [OF w ids] \<open>db_ok db\<close> have "db_ok (w_db w)" by simp
  with v p w show ?thesis by (simp add: process_ok_def)
qed

lemma crash_grows:
  assumes "crash_step P env cfg st sha detect w w'"
  shows "grows (w_db w) (w_db w')"
  using assms
proof cases
  case (crash_create sf ora owner parent name expected)
  then show ?thesis using create_one_write [OF crash_create(1)] grows_create_upload [OF surjective_pairing] by fastforce
next
  case (crash_chunk ora i offset b)
  from chunk_crash_fault [OF crash_chunk(1)] grows_write_chunk [OF surjective_pairing] show ?thesis by metis
next
  case (crash_terminate ora i)
  then show ?thesis using terminate_one_write [OF crash_terminate(1)] grows_terminate [OF surjective_pairing] by metis
next
  case (crash_reconcile ora stale final)
  have expire: "grows (w_db w) (w_db (visit_all (\<lambda>k. expire_one st (stale k) t) 0 us w))" for t us
    by (rule grows_visit) (rule grows_expire)
  from crash_reconcile(1) show ?thesis
  proof (cases rule: reconcile_crash_loops)
    case (first j)
    with expire show ?thesis by simp
  next
    case (second w1 j)
    have "grows (w_db w) (w_db w1)" using expire second(1) by simp
    moreover have "grows (w_db w1) (w_db w')" unfolding second(2) by (rule grows_visit) (rule grows_resolve)
    ultimately show ?thesis by (rule grows_trans)
  qed
qed

lemma interrupted_ok: "interrupted sv w w' \<Longrightarrow> db_ok (w_db w) \<Longrightarrow> db_ok (w_db w')"
proof (induction rule: interrupted.induct)
  case (storing w w')
  with crash_step_ok [OF storing(1)] shares_ok_grows [OF crash_grows [OF storing(1)]] show ?case by (simp add: db_ok_def)
next
  case (purging ora i w keys db' flts n)
  from files_step.purge [OF purging(1)] have "service_step sv w \<lparr>w_db = db', w_fs = fs\<rparr>" for fs
    by (rule service_step.files)
  from service_step_ok [OF this purging(2)] show ?case by simp
qed

lemma ended_ok: "interrupted (pr_server p) (ap_world (pr_app p)) w \<Longrightarrow> process_ok p \<Longrightarrow> process_ok (ended ph w p)"
  by (simp add: process_ok_def ended_def interrupted_ok)

lemma process_step_ok: "process_step lib p p' \<Longrightarrow> process_ok p \<Longrightarrow> process_ok p'"
proof (induction rule: process_step.induct)
  case (answered p io rq r a line v)
  from serve_effect [OF answered(2,3)] answered(4) show ?case
    by (auto simp: effect_def process_ok_def dest: service_step_ok)
next
  case (audited p es e fs flt)
  then show ?case by (auto simp: process_ok_def db_ok_def set_db_def shares_ok_def store_ok_same [of "flush_audit _ _ _" "ap_db (pr_app p)"])
next
  case (tick p ora stale final res w)
  then show ?case by (auto simp: process_ok_def dest: reconcile_db_ok)
next
  case (restart p su p')
  show ?case by (rule start_server_ok [OF restart(2,3)]) (use restart(4) in \<open>auto simp: process_ok_def\<close>)
qed (simp_all add: process_ok_def [of "_\<lparr>pr_phase := _\<rparr>"] process_ok_def [of "_\<lparr>pr_verifier := _\<rparr>"] ended_ok, simp_all add: process_ok_def)

interpretation whole_program: invariant_system first_start "process_step lib" process_ok for lib
  by unfold_locales (auto simp: first_start_def process_step_ok intro: start_server_ok)

end
