(* ===== verification/Server_Props.thy ===== *)
theory Server_Props
  imports Server_Run
begin

text \<open>
  What holds of the whole program: its invariant, that every request is answered, what a request
  without a verified identity can do, and what a share shows.
\<close>

section \<open>A program for the witnesses\<close>

definition demo_startup :: startup where
  "demo_startup = \<lparr>su_env = (\<lambda>_. []), su_open = demo_world None, su_migrate = demo_world None, su_sqlite = 5,
     su_dirs = (\<lambda>_. None), su_reconcile = demo_world None, su_stale = (\<lambda>_. demo_world None),
     su_final = (\<lambda>_. (demo_world None)\<lparr>uuid := (\<lambda>_. ''n'')\<rparr>), su_embedded = (\<lambda>_. False)\<rparr>"

definition demo_server :: server where
  "demo_server = \<lparr>sv_cfg = read_config (\<lambda>_. []), sv_storage = storage_at ''/d'', sv_text = plain_text, sv_codec = plain_codec,
     sv_crypto = demo_crypto, sv_audit = \<lparr>ae_sha = id, ae_marshal = (\<lambda>_. Some ''{}'')\<rparr>, sv_sha = id, sv_detect = (\<lambda>_. []),
     sv_quote = id, sv_static = Some (dist_fs (\<lambda>_. False)),
     sv_decoders = \<lparr>dec_folder = (\<lambda>_. Inr (None, ''docs'')), dec_rename = (\<lambda>_. Inr ''docs''), dec_move = (\<lambda>_. Inr []),
       dec_backup = (\<lambda>_. Inr True), dec_share = (\<lambda>_. Inr (root_id, [], None)), dec_unlock = (\<lambda>_. Inr ''pw'')\<rparr>\<rparr>"

lemma mkdir_free: "fs_files fs = (\<lambda>_. None) \<Longrightarrow> os_mkdir_all None d fs = Inr (fs\<lparr>fs_dirs := fs_dirs fs \<union> set (ancestors d)\<rparr>)"
  by (simp add: os_mkdir_all_def list_ex_iff)

lemma demo_first_start:
  obtains p where "first_start p" "ap_db (pr_app p) = init_db 5" "pr_server p = demo_server\<lparr>sv_storage := sv_storage (pr_server p)\<rparr>"
    "ap_pending (pr_app p) = []" "pr_phase p = Listening"
proof -
  have "validate_config (read_config (\<lambda>_. [])) = Inr ()" by code_simp
  then have cfg: "load_config (\<lambda>_. []) = Inr (read_config (\<lambda>_. []))" by (simp add: load_config_def)
  let ?w = "\<lambda>fs. \<lparr>w_db = init_db 5, w_fs = fs\<rparr>"
  have idle: "stale_uploads now (init_db 5) = []" "finalizing_uploads (init_db 5) = []" for now
    by (simp_all add: stale_uploads_def finalizing_uploads_def init_db_def)
  then have rec: "reconcile st (demo_world None) stale final (?w fs) = (Inr (), ?w fs)" for st stale final fs
    by (simp add: reconcile_def Let_def demo_world_def)
  have op: "\<exists>d fs'. open_db (\<lambda>_. initial_schema 5) (Inr embedded) Inr (demo_world None) (demo_world None) path busy sync
      (\<lparr>fs_files = (\<lambda>_. None), fs_dirs = {}\<rparr>) \<lparr>sc_versions = [], sc_data = None\<rparr> =
      (Inr d, fs', \<lparr>sc_versions = [(1, 0)], sc_data = Some (init_db 5)\<rparr>) \<and> fs_files fs' = (\<lambda>_. None)" for path busy sync
    by (simp add: open_db_def Let_def demo_world_def mkdir_free init_pragmas_def migrate_def embedded_files applied_def
        apply_file_def initial_schema_None record_version_def secs_def)
  then obtain d fs' where op: "open_db (\<lambda>_. initial_schema 5) (Inr embedded) Inr (demo_world None) (demo_world None)
      (DBPath (read_config (\<lambda>_. []))) (DBBusyTimeout (read_config (\<lambda>_. []))) (SQLiteSynchronous (read_config (\<lambda>_. [])))
      (\<lparr>fs_files = (\<lambda>_. None), fs_dirs = {}\<rparr>) \<lparr>sc_versions = [], sc_data = None\<rparr> =
      (Inr d, fs', \<lparr>sc_versions = [(1, 0)], sc_data = Some (init_db 5)\<rparr>)" and files: "fs_files fs' = (\<lambda>_. None)" by blast
  obtain st fs'' where st: "new_storage (\<lambda>_. None) (DataDir (read_config (\<lambda>_. []))) fs' = (Inr st, fs'')"
    by (simp add: new_storage_def Let_def mkdir_free files)
  let ?p = "\<lparr>pr_phase = Listening, pr_server = demo_server\<lparr>sv_cfg := read_config (\<lambda>_. []), sv_storage := st, sv_static := Some (dist_fs (\<lambda>_. False))\<rparr>,
      pr_app = \<lparr>ap_world = ?w fs'', ap_slots = no_slots, ap_pending = []\<rparr>, pr_verifier = new_verifier, pr_versions = [(1, 0)], pr_level = init_logger (AppEnv (read_config (\<lambda>_. [])))\<rparr>"
  have "start_server demo_server demo_startup \<lparr>fs_files = (\<lambda>_. None), fs_dirs = {}\<rparr> \<lparr>sc_versions = [], sc_data = None\<rparr> = Inr ?p"
    by (simp add: start_server_def demo_startup_def cfg op st rec)
  moreover have "\<forall>k. uuid (su_final demo_startup k) 0 \<noteq> []" by (simp add: demo_startup_def)
  ultimately have "first_start ?p" unfolding first_start_def by blast
  then show ?thesis by (rule that) (simp_all add: demo_server_def)
qed

definition demo_inputs :: inputs where
  "demo_inputs = \<lparr>in_calls = (\<lambda>_. (demo_world None)\<lparr>uuid := (\<lambda>_. ''x'')\<rparr>), in_conn = (False, False), in_statfs = Inl ''none'', in_ping = None,
     in_jwks = NoAnswer ''offline'', in_clock = (\<lambda>_. 0), in_uuid = ''rid''\<rparr>"

definition post_folder :: request where
  "post_folder = demo_request\<lparr>rq_method := ''POST'', rq_escaped := ''/api/v1/folders''\<rparr>"

lemma demo_route: "mux_lookup admin_mux (post_folder\<lparr>rq_request_id := i, rq_identity := j\<rparr>) = Found CreateFolder"
proof -
  have 1: "clean_url_path ''/api/v1/folders'' = ''/api/v1/folders''" "path_segs ''/api/v1/folders'' = [''api'', ''v1'', ''folders'']"
    by code_simp+
  show ?thesis
    by (simp add: mux_lookup_def post_folder_def demo_request_def Let_def 1) (simp add: admin_mux_def api_path_def method_fits_def)
qed

lemma demo_create_folder:
  assumes "ap_db a = init_db 5"
  shows "\<exists>r a'. handle_create_folder (demo_server\<lparr>sv_storage := st\<rparr>) (in_calls demo_inputs) rq r0 a = (r, a') \<and>
    nodes (ap_db a') = nodes (init_db 5) @ [new_node ''x'' root_id KindFolder ''docs'' ''docs'' 0]"
proof -
  have 1: "normalize_name plain_text ''docs'' = Inr (''docs'', ''docs'')" by code_simp
  have "create_folder plain_text ((demo_world None)\<lparr>uuid := (\<lambda>_. ''x'')\<rparr>) None ''docs'' (init_db 5) =
      (Inr (scan_row (init_db 5) (new_node ''x'' root_id KindFolder ''docs'' ''docs'' 0)),
       (init_db 5)\<lparr>nodes := nodes (init_db 5) @ [new_node ''x'' root_id KindFolder ''docs'' ''docs'' 0]\<rparr>)"
    by (simp add: create_folder_def 1 target_parent_def eval_db demo_rows check_folder_def insert_node_def demo_world_def secs_def)
  with assms show ?thesis
    by (simp add: handle_create_folder_def demo_server_def demo_inputs_def record_event_def set_db_def)
qed

lemma demo_post:
  assumes "ap_db a = init_db 5"
  shows "\<exists>r a' line. serve (demo_server\<lparr>sv_storage := st\<rparr>) demo_inputs post_folder a lib v = (Some (r, a', line), v) \<and>
    nodes (ap_db a') = nodes (init_db 5) @ [new_node ''x'' root_id KindFolder ''docs'' ''docs'' 0]"
proof -
  let ?sv = "demo_server\<lparr>sv_storage := st\<rparr>" and ?rq = "\<lambda>i j. post_folder\<lparr>rq_request_id := i, rq_identity := j\<rparr>"
  have cfg: "AppEnv (sv_cfg demo_server) = ''development''" "DevAuthBypass (sv_cfg demo_server)"
    unfolding demo_server_def by (simp_all add: read_config_def Let_def get_env_def get_env_bool_def) 
  have p: "rq_path (?rq i j) = ''/api/v1/folders''" for i j
    by (simp add: rq_path_def post_folder_def)
  have "destination_of (sv_cfg ?sv) (?rq i j) = ToAdmin" for i j
    unfolding destination_of_def p at_share_host_def origin_rejected_def by (simp add: cfg has_prefix_def)
  moreover have "authenticate (sv_cfg ?sv) lib ans clk (?rq i j) v = (Inr (post_folder\<lparr>rq_request_id := i, rq_identity := DevAdminEmail (sv_cfg ?sv)\<rparr>), v)"
    for ans clk i j by (simp add: authenticate_def cfg)
  ultimately have root: "serve_root ?sv demo_inputs (?rq i j) r0 a lib v =
      (Some (handle_create_folder ?sv (in_calls demo_inputs) (post_folder\<lparr>rq_request_id := i, rq_identity := DevAdminEmail (sv_cfg ?sv)\<rparr>)
        (security_headers r0) a), v)" for i j r0
    by (simp add: serve_root_def serve_admin_def serve_mux_def demo_route serve_route_def Let_def)
  let ?go = "\<lambda>r0. handle_create_folder ?sv (in_calls demo_inputs) (?rq (request_id demo_inputs post_folder) (DevAdminEmail (sv_cfg ?sv))) r0 a"
  let ?r0 = "security_headers (set_header ''X-Request-ID'' (request_id demo_inputs post_folder) fresh_response)"
  obtain r a' where go: "?go ?r0 = (r, a')"
    and rows: "nodes (ap_db a') = nodes (init_db 5) @ [new_node ''x'' root_id KindFolder ''docs'' ''docs'' 0]"
    using demo_create_folder [OF assms] by blast
  show ?thesis
    unfolding serve_def Let_def root go using rows by simp
qed

section \<open>The invariant of the running program\<close>

text \<open>
  C1: From the first start with an empty database file, through any sequence of requests, audit
  insertions, reconciliations, shutdowns and kills in the middle of the work, and restarts, whatever fails in between: the nodes stay a forest
  with unique names per folder, the uploads keep their invariant, share ids and token hashes stay
  unique with existing targets, the migration stays recorded, and every audit row that waits to be
  inserted has an outcome the table accepts.
\<close>

theorem server_reachable_ok:
  assumes "first_start p" and "(process_step lib)\<^sup>*\<^sup>* p q"
  shows "store_ok (ap_db (pr_app q)) \<and> shares_ok (ap_db (pr_app q)) \<and> applied 1 \<lparr>sc_versions = pr_versions q, sc_data = ()\<rparr> \<and>
    (\<forall>e \<in> set (ap_pending (pr_app q)). au_outcome e \<in> audit_outcomes)"
  using whole_program.reachable_inv [OF assms] by (auto simp: process_ok_def db_ok_def applied_def)

theorem server_reachable_ok_witness:
  "\<exists>p q. first_start p \<and> (process_step demo_lib)\<^sup>*\<^sup>* p q \<and> length (nodes (ap_db (pr_app q))) = 3 \<and> store_ok (ap_db (pr_app q))"
proof -
  obtain p where p: "first_start p" "ap_db (pr_app p) = init_db 5" "pr_server p = demo_server\<lparr>sv_storage := sv_storage (pr_server p)\<rparr>"
    and listening: "running p"
    by (rule demo_first_start) (simp add: running_def)
  from demo_post [OF p(2)] obtain r a line where
    post: "serve (pr_server p) demo_inputs post_folder (pr_app p) demo_lib (pr_verifier p) = (Some (r, a, line), pr_verifier p)"
    and rows: "nodes (ap_db a) = nodes (init_db 5) @ [new_node ''x'' root_id KindFolder ''docs'' ''docs'' 0]"
    by (metis p(3))
  have "inputs_ok demo_inputs post_folder"
    by (simp add: inputs_ok_def demo_inputs_def post_folder_def demo_request_def)
  let ?q = "p\<lparr>pr_app := a, pr_verifier := pr_verifier p\<rparr>"
  from process_step.answered [OF listening post \<open>inputs_ok _ _\<close>] have step: "(process_step demo_lib)\<^sup>*\<^sup>* p ?q"
    by (rule r_into_rtranclp)
  moreover have "length (nodes (ap_db (pr_app ?q))) = 3" by (simp add: rows) (simp add: init_db_def)
  ultimately show ?thesis using server_reachable_ok [OF p(1) step] p(1) by blast
qed

section \<open>Every request is answered\<close>

lemma shared_target_found:
  assumes "get_share_by_token cr cfg ora token db = Inr s" and "shares_ok db" and "db_fails ora 1 = None"
  shows "\<exists>n. sh_node s = Some n"
proof -
  from assms(1) obtain row where row: "find_token db (hash_token cr cfg token) = Some row"
    and s: "s = scan_share (db_fails ora 1) db row"
    by (auto simp: get_share_by_token_def query_share_Inr split: sum.splits if_splits)
  from row have "row \<in> set (shares db)" by (auto simp: find_token_def dest: lookup_by_SomeD)
  with assms(2) have "sr_target row \<in> nr_id ` set (nodes db)" by (auto simp: shares_ok_def)
  from lookup_by_ex [OF this] obtain nr where "find_node db (sr_target row) = Some nr"
    by (auto simp: find_node_def)
  with s assms(3) show ?thesis by (simp add: scan_share_def get_node_def)
qed

lemma share_check_returns: "tree_ok (nodes db) \<Longrightarrow> \<exists>res. check_node_in_share ora s i db = Some res"
  using subnodes_total [OF tree_okD(3), of "nodes db" "sh_target s"]
  by (auto simp: check_node_in_share_def split: sum.split option.split)

lemma serve_route_answers:
  assumes ok: "db_ok (ap_db a)" and calm: "\<And>k. quiet (in_calls io k)"
  shows "\<exists>out. serve_route sv io rt rq r a = Some out"
proof -
  from ok have tree: "tree_ok (nodes (ap_db a))" and shares: "shares_ok (ap_db a)"
    by (auto simp: db_ok_def dest: store_okD(1))
  from calm have "db_fails (in_calls io 0) 1 = None" by simp
  note target = shared_target_found [OF _ shares this]
  have nodes: "\<exists>out. handle_public_nodes sv (in_calls io) rq token r a = Some out" for token
  proof (cases "get_share_by_token (sv_crypto sv) (sv_cfg sv) (in_calls io 0) token (ap_db a)")
    case (Inr s)
    with target obtain n where n: "sh_node s = Some n" by blast
    obtain res where "check_node_in_share (in_calls io 2) s (rq_query rq ''parent_id'') (ap_db a) = Some res"
      using share_check_returns [OF tree] by blast
    with Inr n show ?thesis by (simp add: handle_public_nodes_def Let_def split: sum.split)
  qed (simp add: handle_public_nodes_def)
  have download: "\<exists>out. handle_public_download sv (in_calls io) (in_conn io) rq token i r a = Some out" for token i
  proof (cases "get_share_by_token (sv_crypto sv) (sv_cfg sv) (in_calls io 0) token (ap_db a)")
    case (Inr s)
    obtain res where "check_node_in_share (in_calls io 2) s i (ap_db a) = Some res"
      using share_check_returns [OF tree] by blast
    with Inr show ?thesis by (simp add: handle_public_download_def split: sum.split prod.split)
  qed (simp add: handle_public_download_def)
  have view: "\<exists>out. handle_public_get sv (in_calls io) rq token r a = Some out" for token
  proof (cases "get_share_by_token (sv_crypto sv) (sv_cfg sv) (in_calls io 0) token (ap_db a)")
    case (Inr s)
    with target obtain n where "sh_node s = Some n" by blast
    with Inr show ?thesis by (simp add: handle_public_get_def Let_def)
  qed (simp add: handle_public_get_def)
  have move: "move_node ora i p (ap_db a) \<noteq> None" for ora i p
    using move_returns [OF tree] by blast
  have "\<exists>out. handle_move_node sv (in_calls io) rq i r a = Some out" for i
    by (simp add: handle_move_node_def Let_def move split: sum.split option.split prod.split)
  moreover have "\<exists>out. handle_trash_node sv (in_calls io) rq i r a = Some out" for i
    using trash_returns [OF tree, of "in_calls io 0" i] by (auto simp: handle_trash_node_def split: sum.split)
  moreover have "\<exists>out. handle_restore_node sv (in_calls io) rq i r a = Some out" for i
    using restore_returns [OF tree, of "in_calls io 0" i] by (auto simp: handle_restore_node_def split: sum.split)
  moreover have "\<exists>out. handle_purge_node sv (in_calls io) rq i r a = Some out" for i
    using purge_returns [OF tree, of "in_calls io 0" i] by (auto simp: handle_purge_node_def Let_def split: sum.split)
  ultimately show ?thesis
    using nodes download view by (cases rt) (simp_all add: serve_route_def Let_def split: if_split)
qed

lemma serve_answers:
  assumes "db_ok (ap_db a)" and "\<And>k. quiet (in_calls io k)"
  shows "\<exists>out. fst (serve sv io rq a lib v) = Some out"
proof -
  have mux: "\<exists>out. serve_mux sv io table rq' r a = Some out" for table rq' r
    using serve_route_answers [OF assms] by (auto simp: serve_mux_def split: mux_answer.split)
  have admin: "\<exists>out. fst (serve_admin sv io rq' r a lib v) = Some out" for rq' r
    using mux by (simp add: serve_admin_def split: prod.split sum.split)
  have "\<exists>out. fst (serve_root sv io rq' r a lib v) = Some out" for rq' r
    using mux admin by (simp add: serve_root_def Let_def split: destination.split)
  then obtain r a' where "fst (serve_root sv io (rq\<lparr>rq_request_id := request_id io rq, rq_identity := []\<rparr>)
      (set_header ''X-Request-ID'' (request_id io rq) fresh_response) a lib v) = Some (r, a')" by fastforce
  then show ?thesis by (auto simp: serve_def Let_def split: prod.split option.split)
qed

text \<open>
  C13: Every request to a program whose tables are well-formed, with a database and a disk that do
  not fail, is answered: no walk over the tree runs for ever and no handler panics. (A lookup of the
  shared node that fails would make the page of a share panic.)
\<close>

theorem every_request_answered:
  assumes "db_ok (ap_db a)" and "\<And>k. quiet (in_calls io k)"
  shows "\<exists>r a' line. fst (serve sv io rq a lib v) = Some (r, a', line)"
  using serve_answers [OF assms] by (metis prod.exhaust)

theorem every_request_answered_witness:
  "\<exists>r a' line. fst (serve demo_server demo_inputs post_folder
     \<lparr>ap_world = \<lparr>w_db = demo_db, w_fs = \<lparr>fs_files = (\<lambda>_. None), fs_dirs = {}\<rparr>\<rparr>, ap_slots = no_slots, ap_pending = []\<rparr> demo_lib new_verifier) = Some (r, a', line)"
proof -
  have "db_ok demo_db"
    using demo_files_ok by (simp add: db_ok_def store_ok_def shares_ok_def uploads_ok_def upload_folders_ok_def) (simp add: demo_rows)
  then show ?thesis
    by (intro every_request_answered) (simp_all add: demo_inputs_def demo_world_def quiet_def)
qed

section \<open>Requests without a verified identity\<close>

lemma authenticate_request_fields:
  "fst (authenticate cfg lib ans clk (rq\<lparr>rq_request_id := i, rq_identity := j\<rparr>) v) = Inl e \<longleftrightarrow>
    fst (authenticate cfg lib ans clk rq v) = Inl e"
  by (simp add: authenticate_def access_token_def split: prod.split sum.split)

text \<open>
  C10: A request that the middleware does not authenticate, and any request to the host of the shares
  in production, changes nothing: no table, no file, no download slot, no audit row. In particular
  unlocking, listing and downloading a share only read.
\<close>

theorem unauthenticated_request_reads:
  assumes "fst (authenticate (sv_cfg sv) lib (in_jwks io) (in_clock io) rq v) = Inl e \<or> at_share_host (sv_cfg sv) rq"
    and "serve sv io rq a lib v = (Some (r, a', line), v')"
  shows "a' = a"
proof -
  let ?rq = "rq\<lparr>rq_request_id := request_id io rq, rq_identity := []\<rparr>"
  from assms(2) obtain r0 where root: "serve_root sv io ?rq r0 a lib v = (Some (r, a'), v')"
    by (auto simp: serve_def Let_def split: prod.splits option.splits)
  have not_admin: "serve_admin sv io ?rq r1 a lib v = (Some (r, a'), v') \<Longrightarrow> a' = a"
    if "fst (authenticate (sv_cfg sv) lib (in_jwks io) (in_clock io) rq v) = Inl e" for r1
  proof -
    from that have "fst (authenticate (sv_cfg sv) lib (in_jwks io) (in_clock io) ?rq v) = Inl e"
      by (simp add: authenticate_request_fields)
    then show "serve_admin sv io ?rq r1 a lib v = (Some (r, a'), v') \<Longrightarrow> a' = a"
      by (auto simp: serve_admin_def split: prod.splits sum.splits)
  qed
  have "destination_of (sv_cfg sv) ?rq \<noteq> ToAdmin" if "at_share_host (sv_cfg sv) rq"
    using that by (simp add: destination_of_def at_share_host_def)
  with not_admin root assms(1) show ?thesis
    by (auto simp: serve_root_def Let_def dest!: serve_public_same split: destination.splits)
qed

theorem unauthenticated_request_reads_witness:
  "\<exists>r line v'. serve (demo_server\<lparr>sv_cfg := auth_cfg\<rparr>) demo_inputs post_folder
     \<lparr>ap_world = \<lparr>w_db = demo_db, w_fs = \<lparr>fs_files = (\<lambda>_. None), fs_dirs = {}\<rparr>\<rparr>, ap_slots = no_slots, ap_pending = []\<rparr> demo_lib new_verifier =
     (Some (r, \<lparr>ap_world = \<lparr>w_db = demo_db, w_fs = \<lparr>fs_files = (\<lambda>_. None), fs_dirs = {}\<rparr>\<rparr>, ap_slots = no_slots, ap_pending = []\<rparr>, line), v')"
proof -
  let ?sv = "demo_server\<lparr>sv_cfg := auth_cfg\<rparr>" and ?a = "\<lparr>ap_world = \<lparr>w_db = demo_db, w_fs = \<lparr>fs_files = (\<lambda>_. None), fs_dirs = {}\<rparr>\<rparr>, ap_slots = no_slots, ap_pending = []\<rparr>"
  have refused: "fst (authenticate (sv_cfg ?sv) demo_lib (in_jwks demo_inputs) (in_clock demo_inputs) post_folder new_verifier) = Inl Unauthorized"
    by (simp add: authenticate_def verify_token_def auth_cfg_def access_token_def post_folder_def demo_request_def demo_lib_def
        find_key_def new_verifier_def fetch_jwks_def recently_fetched_def demo_inputs_def)
  have "db_ok demo_db"
    using demo_files_ok by (simp add: db_ok_def store_ok_def shares_ok_def uploads_ok_def upload_folders_ok_def) (simp add: demo_rows)
  then have "\<exists>out. fst (serve ?sv demo_inputs post_folder ?a demo_lib new_verifier) = Some out"
    by (intro serve_answers) (simp_all add: demo_inputs_def demo_world_def quiet_def)
  then obtain r a' line v' where eq: "serve ?sv demo_inputs post_folder ?a demo_lib new_verifier = (Some (r, a', line), v')"
    by (metis prod.collapse)
  with unauthenticated_request_reads [OF disjI1 [OF refused] eq] show ?thesis by blast
qed

end
