(* ===== verification/Download_Props.thy ===== *)
theory Download_Props
  imports Downloads Storage_Props Files_Props
begin

text \<open>The bound on downloads that run at the same time, and the file name in the response header.\<close>

section \<open>Concurrent downloads\<close>

text \<open>
  Calls of the service interleave: one starts (and stays, if it got a slot and the object), or
  one of those in flight ends. The second component lists the sides of the downloads in flight.
\<close>

inductive download_step :: "limits \<Rightarrow> slots \<times> bool list \<Rightarrow> slots \<times> bool list \<Rightarrow> bool" for lm where
  start: "start_download uni lm st ora cancelled prefer_done n pub fs r s = ((res, r'), s') \<Longrightarrow>
    download_step lm (s, run) (s', if res = Inr () then pub # run else run)"
| finish: "download_step lm (s, xs @ pub # ys) (release pub s, xs @ ys)"

inductive_cases download_stepE: "download_step lm x y"

definition slots_ok :: "limits \<Rightarrow> slots \<times> bool list \<Rightarrow> bool" where
  "slots_ok lm x \<longleftrightarrow> (\<forall>pub. taken pub (fst x) = int (count_list (snd x) pub) \<and>
     int (count_list (snd x) pub) \<le> capacity pub lm)"

lemma taken_add [simp]: "taken p (add_slots q n s) = taken p s + (if p = q then n else 0)"
  by (auto simp: taken_def add_slots_def)

lemma add_back [simp]: "release pub (add_slots pub 1 s) = s"
  by (simp add: release_def add_slots_def)

lemma acquire_Inr:
  "acquire lm c pd pub s = Inr s' \<longleftrightarrow>
     taken pub s < capacity pub lm \<and> \<not> (c \<and> pd) \<and> s' = add_slots pub 1 s"
  by (auto simp: acquire_def)

lemma start_download_cases:
  assumes "start_download uni lm st ora c pd n pub fs r s = ((res, r'), s')"
  shows "(\<exists>e. res = Inl e \<and> s' = s \<and> r' = r) \<or>
    (res = Inr () \<and> taken pub s < capacity pub lm \<and> s' = add_slots pub 1 s)"
  using assms
  by (auto simp: start_download_def acquire_Inr split: option.splits if_splits sum.splits)

lemma download_step_ok: "download_step lm x y \<Longrightarrow> slots_ok lm x \<Longrightarrow> slots_ok lm y"
proof (erule download_stepE)
  fix uni st ora c pd n pub fs r s res r' s' run
  assume "x = (s, run)" "y = (s', if res = Inr () then pub # run else run)"
    and "start_download uni lm st ora c pd n pub fs r s = ((res, r'), s')" and ok: "slots_ok lm x"
  with start_download_cases [OF this(3)] show "slots_ok lm y" by (auto simp: slots_ok_def)
next
  fix s xs pub ys
  assume "x = (s, xs @ pub # ys)" "y = (release pub s, xs @ ys)" and ok: "slots_ok lm x"
  from ok have *: "taken p s = int (count_list (xs @ pub # ys) p)" "int (count_list (xs @ pub # ys) p) \<le> capacity p lm" for p
    by (simp_all only: slots_ok_def \<open>x = (s, xs @ pub # ys)\<close> fst_conv snd_conv)
  have "taken p (release pub s) = int (count_list (xs @ ys) p) \<and> int (count_list (xs @ ys) p) \<le> capacity p lm" for p
    using * [of p] by (cases "pub = p") (simp_all add: release_def)
  then show "slots_ok lm y" by (simp add: slots_ok_def \<open>y = (release pub s, xs @ ys)\<close>)
qed

lemma no_slots_ok: "slots_ok (new_limits cfg) (no_slots, [])"
  by (simp add: slots_ok_def no_slots_def taken_def capacity_def new_limits_def)

interpretation download_side: invariant_system
  "\<lambda>x. x = (no_slots, [])" "download_step (new_limits cfg)" "slots_ok (new_limits cfg)" for cfg
  by unfold_locales (auto simp: no_slots_ok intro: download_step_ok)

text \<open>
  C29: However downloads start, fail and end, on each side no more run at the same time than the
  configured maximum (8 and 4 where that is not positive), every slot belongs to a running
  download, and a further one is refused with ErrDownloadLimitReached exactly when the maximum is
  reached (unless its request was cancelled).
\<close>

theorem downloads_bounded:
  assumes "(download_step (new_limits cfg))\<^sup>*\<^sup>* (no_slots, []) (s, run)"
  shows "int (count_list run pub) \<le> capacity pub (new_limits cfg) \<and> 0 < capacity pub (new_limits cfg) \<and>
    taken pub s = int (count_list run pub) \<and>
    (acquire (new_limits cfg) False pd pub s = Inl ErrDownloadLimitReached \<longleftrightarrow>
       int (count_list run pub) = capacity pub (new_limits cfg))"
proof -
  have "slots_ok (new_limits cfg) (s, run)"
    by (rule download_side.reachable_inv [OF _ assms]) simp
  then have *: "taken pub s = int (count_list run pub)" "int (count_list run pub) \<le> capacity pub (new_limits cfg)"
    by (simp_all add: slots_ok_def)
  then show ?thesis by (auto simp: acquire_def) (simp_all add: capacity_def new_limits_def)
qed

section \<open>A download for the witnesses\<close>

definition stored_fs :: fs where
  "stored_fs = demo_fs\<lparr>fs_files := (\<lambda>_. None)(''/d/objects/cc/ccdd'' \<mapsto> ''hello'')\<rparr>"

definition demo_file :: file_row where
  "demo_file = \<lparr>fr_node = ''f'', fr_key = ''ccdd'', fr_size = 5, fr_mime = [], fr_sha = Some ''99'', fr_backup = None,
     fr_created = 1, fr_updated = 1\<rparr>"

definition demo_node :: node where
  "demo_node = scan_node (new_node ''f'' ''b'' KindFile ''a b.txt'' ''a b.txt'' 1) (Some demo_file)"

lemma demo_open: "open_object demo_st None ''ccdd'' stored_fs = Inr ''hello''"
  by (simp add: open_object_def demo_paths os_open_def stored_fs_def demo_fs_def)

lemma demo_start:
  assumes "taken True s < capacity True lm"
  shows "\<exists>r'. start_download id lm demo_st calm False False demo_node True stored_fs fresh_response s =
    ((Inr (), r'), add_slots True 1 s)"
  using assms demo_open
  by (simp add: start_download_def demo_node_def scan_node_def new_node_def scan_file_def demo_file_def acquire_def)

theorem downloads_bounded_witness:
  "\<exists>s. (download_step (new_limits (read_config (\<lambda>_. []))))\<^sup>*\<^sup>* (no_slots, []) (s, [True]) \<and> taken True s = 1 \<and>
     (1 :: int) \<le> capacity True (new_limits (read_config (\<lambda>_. [])))"
proof -
  let ?lm = "new_limits (read_config (\<lambda>_. []))" and ?s = "add_slots True 1 no_slots"
  have "taken True no_slots < capacity True ?lm"
    by (simp add: taken_def no_slots_def capacity_def new_limits_def)
  from demo_start [OF this] obtain r' where
    "start_download id ?lm demo_st calm False False demo_node True stored_fs fresh_response no_slots = ((Inr (), r'), ?s)" ..
  from download_step.start [OF this, of "[]"]
  have reach: "(download_step ?lm)\<^sup>*\<^sup>* (no_slots, []) (?s, [True])" by auto
  from downloads_bounded [OF reach, of True] reach show ?thesis by auto
qed

section \<open>The file name in the header\<close>

lemma quote_char_bytes:
  assumes "(of_char c :: nat) < 128" and "b \<in> set (quote_char c)"
  shows "31 < (of_char b :: nat) \<and> (of_char b :: nat) < 127"
proof -
  have hex: "31 < (of_char (hex_digit n) :: nat) \<and> (of_char (hex_digit n) :: nat) < 127" if "n < 16" for n
    using that by (simp add: of_char_hex_digit)
  from assms hex [OF of_char_div_16 [of c]] hex [of "of_char c mod 16"] show ?thesis
    by (auto simp: quote_char_def Let_def split: if_splits)
qed

lemma go_quote_bytes:
  assumes "is_ascii s" and "b \<in> set (go_quote uni s)"
  shows "31 < (of_char b :: nat) \<and> (of_char b :: nat) < 127"
  using assms quote_char_bytes by (fastforce simp: go_quote_def is_ascii_def list_all_iff)

text \<open>
  C32: A download that starts names the file in its Content-Disposition header so that a client
  gets the name back from the extended parameter, and for an ASCII name (control characters
  included) the header has printable ASCII bytes only, so a name cannot inject a header line.
\<close>

theorem download_name_safe:
  assumes "start_download uni lm st ora c pd n pub fs r s = ((Inr (), r'), s')"
  shows "\<exists>q e. rs_headers r' ''Content-Disposition'' =
      Some (''attachment; filename='' @ q @ ''; filename*=UTF-8'' @ [CHR 0x27, CHR 0x27] @ e) \<and>
    path_unescape e = n_name n \<and>
    (is_ascii (n_name n) \<longrightarrow> (\<forall>b \<in> set (q @ e). 31 < (of_char b :: nat) \<and> (of_char b :: nat) < 127))"
proof -
  from assms obtain fo content where r': "r' = serve_content (n_name n) (n_updated n) content (download_headers uni pub n fo r)"
    by (auto simp: start_download_def split: option.splits if_splits sum.splits)
  then have "rs_headers r' ''Content-Disposition'' = Some (''attachment; filename='' @ go_quote uni (n_name n) @
      ''; filename*=UTF-8'' @ [CHR 0x27, CHR 0x27] @ path_escape (n_name n))"
    by (simp add: serve_content_def download_headers_def set_header_def Let_def split: option.split)
  moreover have "31 < (of_char b :: nat) \<and> (of_char b :: nat) < 127"
    if "is_ascii (n_name n)" "b \<in> set (go_quote uni (n_name n) @ path_escape (n_name n))" for b
    using that go_quote_bytes [OF that(1), of b] path_escape_bytes [of b] by auto
  ultimately show ?thesis using path_unescape_escape by blast
qed

theorem download_name_safe_witness:
  "\<exists>r' s' e. start_download id \<lparr>lm_admin = 1, lm_public = 1\<rparr> demo_st calm False False demo_node True stored_fs fresh_response no_slots =
     ((Inr (), r'), s') \<and> path_unescape e = ''a b.txt''"
proof -
  let ?lm = "\<lparr>lm_admin = 1, lm_public = 1\<rparr> :: limits"
  have "taken True no_slots < capacity True ?lm" by (simp add: taken_def no_slots_def capacity_def)
  from demo_start [OF this] obtain r' where
    start: "start_download id ?lm demo_st calm False False demo_node True stored_fs fresh_response no_slots =
      ((Inr (), r'), add_slots True 1 no_slots)" ..
  have "n_name demo_node = ''a b.txt''" by (simp add: demo_node_def scan_node_def new_node_def)
  with download_name_safe [OF start] start show ?thesis by auto
qed

end
