(* ===== verification/Web_Props.thy ===== *)
theory Web_Props
  imports Server_Props Download_Props Files_Laws
begin

text \<open>
  What the HTTP side shows of the services: the headers of every response, what a share's pages
  give away, what a download or a purge does to the files, and what the logs keep.
\<close>

section \<open>The headers of every response\<close>

text \<open>The headers that the root handler and the logger set before anything else.\<close>

definition guarded :: "string \<Rightarrow> response \<Rightarrow> bool" where
  "guarded i r \<longleftrightarrow> rs_headers r ''X-Frame-Options'' = Some ''DENY'' \<and> rs_headers r ''X-Content-Type-Options'' = Some ''nosniff'' \<and>
     rs_headers r ''Content-Security-Policy'' \<noteq> None \<and> rs_headers r ''X-Request-ID'' = Some i"

lemma guarded_write [simp]:
  "guarded i (write_header s r) = guarded i r" "guarded i (write_body p r) = guarded i r"
  "guarded i (r\<lparr>rs_body := b\<rparr>) = guarded i r" "guarded i (r\<lparr>rs_status := c\<rparr>) = guarded i r"
  by (simp_all add: guarded_def write_header_def write_body_def Let_def)

lemma guarded_set [simp]:
  "k \<notin> {''X-Frame-Options'', ''X-Content-Type-Options'', ''Content-Security-Policy'', ''X-Request-ID''} \<Longrightarrow>
    guarded i (set_header k x r) = guarded i r"
  "guarded i r \<Longrightarrow> guarded i (set_header ''X-Content-Type-Options'' ''nosniff'' r)"
  by (auto simp: guarded_def set_header_def)

lemma guarded_replies [simp]:
  "guarded i (write_problem rq s t d r) = guarded i r" "guarded i (write_json s p r) = guarded i r"
  "guarded i r \<Longrightarrow> guarded i (http_error m s r)" "guarded i (private_headers r) = guarded i r"
  "guarded i (invalid_json rq m r) = guarded i r" "guarded i (share_not_found rq r) = guarded i r"
  "guarded i (password_required rq r) = guarded i r"
  by (simp_all add: write_problem_def write_json_def http_error_def private_headers_def invalid_json_def
      share_not_found_def password_required_def)

lemma guarded_download:
  "fst (serve_download uni lm st ora c p n pub fs r s) = (res, r') \<Longrightarrow> guarded i r \<Longrightarrow> guarded i r'"
  by (auto simp: serve_download_def start_download_def serve_content_def download_headers_def Let_def
      split: option.splits sum.splits if_splits)

lemma guarded_reads:
  assumes "guarded i r"
  shows "guarded i (handle_health_live r)" "guarded i (handle_health_ready ping rq r)" "guarded i (handle_get_me rq r)"
    "guarded i (handle_list_nodes sv calls rq r a)" "guarded i (handle_list_trash calls rq r a)"
    "guarded i (handle_tus_options sv r)" "guarded i (handle_tus_head calls rq j r a)"
    "guarded i (handle_list_shares calls rq r a)" "guarded i (handle_system_storage sv sf calls r a)"
    "guarded i (handle_public_unlock sv calls rq token r a)" "guarded i (serve_static sv rq r)"
    "guarded i (handle_download_file sv calls conn rq j r a)"
  using assms
  by (simp_all add: handle_health_live_def handle_health_ready_def handle_get_me_def handle_list_nodes_def handle_list_trash_def
      handle_tus_options_def handle_tus_head_def handle_list_shares_def handle_system_storage_def handle_public_unlock_def
      serve_static_def Let_def split: option.split sum.split)
   (auto simp: handle_download_file_def split: sum.split prod.split dest: guarded_download)

lemma guarded_public:
  assumes "guarded i r"
  shows "handle_public_get sv calls rq token r a = Some r' \<Longrightarrow> guarded i r'"
    "handle_public_nodes sv calls rq token r a = Some r' \<Longrightarrow> guarded i r'"
    "handle_public_download sv calls conn rq token j r a = Some r' \<Longrightarrow> guarded i r'"
  using assms
  by (auto simp: handle_public_get_def handle_public_nodes_def handle_public_download_def Let_def
      split: sum.splits option.splits if_splits prod.splits dest: guarded_download)

lemma guarded_nodes:
  assumes "guarded i r"
  shows "handle_create_folder sv calls rq r a = (r', a') \<Longrightarrow> guarded i r'"
    "handle_rename_node sv calls rq j r a = (r', a') \<Longrightarrow> guarded i r'"
    "handle_move_node sv calls rq j r a = Some (r', a') \<Longrightarrow> guarded i r'"
    "handle_trash_node sv calls rq j r a = Some (r', a') \<Longrightarrow> guarded i r'"
    "handle_restore_node sv calls rq j r a = Some (r', a') \<Longrightarrow> guarded i r'"
    "handle_purge_node sv calls rq j r a = Some (r', a') \<Longrightarrow> guarded i r'"
    "handle_backup_selection sv calls rq j r a = (r', a') \<Longrightarrow> guarded i r'"
    "handle_create_share sv calls rq r a = (r', a') \<Longrightarrow> guarded i r'"
    "handle_revoke_share sv calls rq j r a = (r', a') \<Longrightarrow> guarded i r'"
  using assms
  by (auto simp: handle_create_folder_def handle_rename_node_def handle_move_node_def handle_trash_node_def
      handle_restore_node_def handle_purge_node_def handle_backup_selection_def handle_create_share_def
      handle_revoke_share_def Let_def split: sum.splits option.splits prod.splits)

lemma guarded_uploads:
  assumes "guarded i r"
  shows "handle_tus_create sv sf calls rq r a = (r', a') \<Longrightarrow> guarded i r'"
    "handle_tus_patch sv calls rq j r a = (r', a') \<Longrightarrow> guarded i r'"
    "handle_tus_delete sv calls rq j r a = (r', a') \<Longrightarrow> guarded i r'"
  using assms
  by (auto simp: handle_tus_create_def handle_tus_patch_def handle_tus_delete_def
      split: sum.splits option.splits prod.splits if_splits)

lemma guarded_route:
  assumes "serve_route sv io rt rq r a = Some (r', a')" and "guarded i r"
  shows "guarded i r'"
  using assms(1)
  by (cases rt) (auto simp: serve_route_def Let_def guarded_reads [OF assms(2)] split: if_splits
      elim!: guarded_public [OF assms(2)] guarded_nodes [OF assms(2)] guarded_uploads [OF assms(2)])

lemma guarded_mux:
  assumes "serve_mux sv io table rq r a = Some (r', a')" and "guarded i r"
  shows "guarded i r'"
  using assms by (auto simp: serve_mux_def split: mux_answer.splits intro: guarded_route)

text \<open>
  C20: Every response of the program, whatever handler made it, errors and refusals included, forbids
  framing and content sniffing, carries a content security policy, and names the request id that the
  log line of the request has.
\<close>

theorem every_response_guarded:
  assumes "serve sv io rq a lib v = (Some (r, a', line), v')"
  shows "rs_headers r ''X-Frame-Options'' = Some ''DENY'' \<and> rs_headers r ''X-Content-Type-Options'' = Some ''nosniff'' \<and>
    rs_headers r ''Content-Security-Policy'' \<noteq> None \<and> rs_headers r ''X-Request-ID'' = Some (lg_request line)"
proof -
  let ?i = "request_id io rq" and ?rq = "rq\<lparr>rq_request_id := request_id io rq, rq_identity := []\<rparr>"
  let ?r0 = "set_header ''X-Request-ID'' ?i fresh_response"
  from assms have root: "serve_root sv io ?rq ?r0 a lib v = (Some (r, a'), v')" and line: "lg_request line = request_id io ?rq"
    by (auto simp: serve_def Let_def log_request_def split: prod.splits option.splits)
  have "guarded ?i (security_headers ?r0)"
    by (simp add: guarded_def security_headers_def set_header_def fresh_response_def)
  note g = this guarded_reads(11) [OF this] guarded_replies(3) [OF this] guarded_mux [OF _ this]
  from root have "guarded ?i r"
    by (auto simp: serve_root_def serve_admin_def auth_refused_def Let_def g
        split: destination.splits prod.splits sum.splits auth_error.splits dest: g(4))
  moreover have "request_id io ?rq = ?i" by (simp add: request_id_def)
  ultimately show ?thesis by (simp add: guarded_def line)
qed

theorem every_response_guarded_witness:
  "\<exists>r a' line. serve (demo_server\<lparr>sv_storage := storage_at ''/d''\<rparr>) demo_inputs post_folder
     \<lparr>ap_world = \<lparr>w_db = init_db 5, w_fs = \<lparr>fs_files = (\<lambda>_. None), fs_dirs = {}\<rparr>\<rparr>, ap_slots = no_slots, ap_pending = []\<rparr> demo_lib new_verifier = (Some (r, a', line), new_verifier) \<and>
     rs_headers r ''X-Frame-Options'' = Some ''DENY''"
proof -
  obtain r a' line where "serve (demo_server\<lparr>sv_storage := storage_at ''/d''\<rparr>) demo_inputs post_folder
     \<lparr>ap_world = \<lparr>w_db = init_db 5, w_fs = \<lparr>fs_files = (\<lambda>_. None), fs_dirs = {}\<rparr>\<rparr>, ap_slots = no_slots, ap_pending = []\<rparr> demo_lib new_verifier = (Some (r, a', line), new_verifier)"
    using demo_post [of "\<lparr>ap_world = \<lparr>w_db = init_db 5, w_fs = \<lparr>fs_files = (\<lambda>_. None), fs_dirs = {}\<rparr>\<rparr>, ap_slots = no_slots, ap_pending = []\<rparr>" "storage_at ''/d''" demo_lib new_verifier] by auto
  with every_response_guarded [OF this] show ?thesis by blast
qed

section \<open>What a share's pages give away\<close>

lemma check_node_inside:
  assumes "check_node_in_share ora s i db = Some (Inr n)"
  shows "\<exists>r. find_node db i = Some r \<and> n = scan_row db r \<and> nr_trashed r = None \<and> (i, sh_target s) \<in> (par_rel (nodes db))\<^sup>*"
proof -
  from assms obtain r where r: "find_node db i = Some r" "n = scan_row db r" "nr_trashed r = None"
    by (auto simp: check_node_in_share_def get_node_Inr split: sum.splits if_splits option.splits)
  have id: "nr_id r = i" using r(1) by (auto dest: find_nodeD)
  have "i = sh_target s \<or> (\<exists>ids. subnodes (nodes db) (sh_target s) = Some ids \<and> i \<in> set ids)"
    using assms r id by (auto simp: check_node_in_share_def get_node_Inr filter_empty_conv split: sum.splits if_splits option.splits)
  then have "(i, sh_target s) \<in> (par_rel (nodes db))\<^sup>*"
    using subnodes_eq [of "nodes db" "sh_target s"] by (auto dest: trancl_into_rtrancl)
  with r show ?thesis by blast
qed

lemma served_content:
  assumes "fst (serve_download uni lm st ora c p n pub fs r s) = (res, r')" and "rs_body r' \<noteq> rs_body r"
  shows "\<exists>fo content. n_kind n = KindFile \<and> n_file n = Some fo \<and> stored st fs (fo_key fo) = Some content \<and>
    rs_body r' = rs_body r @ [FileContent (n_name n) (n_updated n) content]"
  using assms
  by (auto simp: serve_download_def start_download_def serve_content_def download_headers_def Let_def open_object_def
      stored_def os_open_Inr split: option.splits sum.splits if_splits)

text \<open>
  C12: A public download sends the bytes of a file only to the holder of a token of a share that
  is neither revoked nor expired nor of another epoch, with a valid cookie if the share has a
  password; the file is an active file node that is the shared node or lies below it, and the bytes
  are the stored object of that node.
\<close>

theorem public_download_in_scope:
  assumes "handle_public_download sv calls conn rq token i r a = Some r'"
    and "FileContent name t content \<in> set (rs_body r')" and "FileContent name t content \<notin> set (rs_body r)"
  shows "\<exists>s row fo. get_share_by_token (sv_crypto sv) (sv_cfg sv) (calls 0) token (ap_db a) = Inr s \<and>
    sh_revoked s = None \<and> sh_epoch s = GlobalShareEpoch (sv_cfg sv) \<and>
    (\<forall>e. sh_expires s = Some e \<longrightarrow> clock (calls 0) 0 \<le> e * 1000000000) \<and> session_open sv (calls 1) rq s \<and>
    find_node (ap_db a) i = Some row \<and> nr_trashed row = None \<and> nr_kind row = KindFile \<and> name = nr_name row \<and>
    (i, sh_target s) \<in> (par_rel (nodes (ap_db a)))\<^sup>* \<and>
    n_file (scan_row (ap_db a) row) = Some fo \<and> stored (sv_storage sv) (w_fs (ap_world a)) (fo_key fo) = Some content"
proof -
  from assms(1,2,3) obtain s where s: "get_share_by_token (sv_crypto sv) (sv_cfg sv) (calls 0) token (ap_db a) = Inr s"
    by (auto simp: handle_public_download_def share_not_found_def split: sum.splits)
  then have live: "sh_revoked s = None" "sh_epoch s = GlobalShareEpoch (sv_cfg sv)"
    "\<forall>e. sh_expires s = Some e \<longrightarrow> clock (calls 0) 0 \<le> e * 1000000000"
    by (auto simp: get_share_by_token_def split: sum.splits if_splits option.splits)
  from assms s have op: "session_open sv (calls 1) rq s"
    by (auto simp: handle_public_download_def password_required_def split: if_splits)
  with assms s obtain n where n: "check_node_in_share (calls 2) s i (ap_db a) = Some (Inr n)"
    by (auto simp: handle_public_download_def split: option.splits sum.splits)
  obtain res r1 where dl: "fst (serve_download (sv_quote sv) (new_limits (sv_cfg sv)) (sv_storage sv) (calls 3) (fst conn)
      (snd conn) n True (w_fs (ap_world a)) r (ap_slots a)) = (res, r1)" by fastforce
  with assms(1,2,3) s op n have body: "FileContent name t content \<in> set (rs_body r1)"
    by (auto simp: handle_public_download_def split: sum.splits if_splits)
  with assms(3) have "rs_body r1 \<noteq> rs_body r" by auto
  from served_content [OF dl this] body assms(3) obtain fo where fo: "n_kind n = KindFile" "n_file n = Some fo"
    "stored (sv_storage sv) (w_fs (ap_world a)) (fo_key fo) = Some content" "name = n_name n" by auto
  from check_node_inside [OF n] obtain row where "find_node (ap_db a) i = Some row" "n = scan_row (ap_db a) row"
    "nr_trashed row = None" "(i, sh_target s) \<in> (par_rel (nodes (ap_db a)))\<^sup>*" by blast
  with s live op fo show ?thesis by (intro exI [of _ s] exI [of _ row] exI [of _ fo]) simp
qed

text \<open>
  The search of a share's folder page ignores the share: with a search text the page shows
  what the same search shows to the administrator, nodes outside the shared folder included.
\<close>

theorem share_search_ignores_scope:
  assumes "get_share_by_token (sv_crypto sv) (sv_cfg sv) (calls 0) token (ap_db a) = Inr s"
    and "session_open sv (calls 1) rq s" and "sh_node s = Some n" and "n_kind n = KindFolder"
    and "rq_query rq ''parent_id'' = []" and "rq_query rq ''search'' \<noteq> []" and "db_fails (calls 3) 0 = None"
  shows "\<exists>r'. handle_public_nodes sv calls rq token r a = Some r' \<and>
    rs_body r' = rs_body (handle_list_nodes sv (\<lambda>_. calls 3) rq r a)"
  using assms by (simp add: handle_public_nodes_def handle_list_nodes_def list_nodes_def private_headers_def Let_def split: prod.split)

text \<open>A server with a share of one node of the small tree, open to anyone who has the token.\<close>

definition open_share :: "string \<Rightarrow> share_row" where
  "open_share i = demo_share\<lparr>sr_target := i, sr_password := None\<rparr>"

definition share_server :: server where
  "share_server = demo_server\<lparr>sv_cfg := share_cfg, sv_storage := demo_st\<rparr>"

definition share_app :: "string \<Rightarrow> app" where
  "share_app i = \<lparr>ap_world = \<lparr>w_db = demo_db\<lparr>shares := [open_share i], file_objects := [demo_file]\<rparr>, w_fs = stored_fs\<rparr>,
     ap_slots = no_slots, ap_pending = []\<rparr>"

definition share_token :: string where
  "share_token = hex_encode [CHR 0xAA]"

lemma share_app_simps [simp]:
  "ap_db (share_app i) = demo_db\<lparr>shares := [open_share i], file_objects := [demo_file]\<rparr>"
  "w_fs (ap_world (share_app i)) = stored_fs" "ap_slots (share_app i) = no_slots"
  "sv_cfg share_server = share_cfg" "sv_crypto share_server = demo_crypto" "sv_storage share_server = demo_st"
  "sv_text share_server = plain_text" "sv_codec share_server = plain_codec" "sv_quote share_server = id"
  by (simp_all add: share_app_def share_server_def demo_server_def)

lemma share_app_found:
  "get_share_by_token demo_crypto share_cfg calm share_token (ap_db (share_app i)) =
     Inr (scan_share None (ap_db (share_app i)) (open_share i))"
  by (simp add: get_share_by_token_Inr find_token_def open_share_def share_token_def demo_share_found(3))

theorem share_search_ignores_scope_witness:
  "\<exists>r' items cont. handle_public_nodes share_server (\<lambda>_. calm) (demo_request\<lparr>rq_query := (\<lambda>k. if k = ''search'' then ''a'' else [])\<rparr>)
       share_token fresh_response (share_app ''b'') = Some r' \<and> rs_body r' = [PageJson items cont] \<and> map n_id items = [''a''] \<and>
     check_node_in_share calm (scan_share None (ap_db (share_app ''b'')) (open_share ''b'')) ''a'' (ap_db (share_app ''b'')) =
       Some (Inl ErrAccessDenied)"
proof -
  let ?rq = "demo_request\<lparr>rq_query := (\<lambda>k. if k = ''search'' then ''a'' else [])\<rparr>"
  let ?s = "scan_share None (ap_db (share_app ''b'')) (open_share ''b'')"
  obtain n where n: "sh_node ?s = Some n" "n_kind n = KindFolder"
    by (simp add: scan_share_def open_share_def eval_db demo_rows)
  have "session_open share_server calm ?rq ?s" by (simp add: session_open_def scan_share_def open_share_def)
  from share_search_ignores_scope [of share_server "\<lambda>_. calm" share_token "share_app ''b''" ?s ?rq, OF _ this n] share_app_found
  obtain r' where r': "handle_public_nodes share_server (\<lambda>_. calm) ?rq share_token fresh_response (share_app ''b'') = Some r'"
    "rs_body r' = rs_body (handle_list_nodes share_server (\<lambda>_. calm) ?rq fresh_response (share_app ''b''))" by auto
  have name: "normalize_name plain_text ''a'' = Inr (''a'', ''a'')" by code_simp
  have like: "sql_like ''%a%'' ''a''" "\<not> sql_like ''%a%'' ''b''" "\<not> sql_like ''%a%'' ''f''" by code_simp+
  have "handle_list_nodes share_server (\<lambda>_. calm) ?rq fresh_response (share_app ''b'') =
      write_json 200 (PageJson [scan_row (ap_db (share_app ''b'')) (new_node ''a'' root_id KindFolder ''A'' ''a'' 1)] None) fresh_response"
    by (simp add: handle_list_nodes_def list_nodes_def Let_def name search_query_def page_limit_def query_limit_def parse_int64_def
        make_page_def after_cursor_def like demo_rows)
  with r'(2) have body: "rs_body r' = [PageJson [scan_row (ap_db (share_app ''b'')) (new_node ''a'' root_id KindFolder ''A'' ''a'' 1)] None]"
    by simp
  have "check_node_in_share calm ?s ''a'' (ap_db (share_app ''b'')) = Some (Inl ErrAccessDenied)"
  proof (cases "check_node_in_share calm ?s ''a'' (ap_db (share_app ''b''))")
    case None
    with share_check_returns [of "ap_db (share_app ''b'')" calm ?s "''a''"] demo_tree_ok show ?thesis by simp
  next
    case (Some res)
    have "(''b'', ''a'') \<in> par_rel (nodes demo_db)" by (simp add: par_rel_iff demo_rows)
    then have "(''a'', ''b'') \<notin> (par_rel (nodes demo_db))\<^sup>*"
      using tree_okD(3) [OF demo_tree_ok] by (auto simp: acyclic_def dest: rtrancl_into_trancl2)
    with Some check_node_inside [of calm ?s "''a''" "ap_db (share_app ''b'')"] have "\<forall>n. res \<noteq> Inr n"
      by (auto simp: scan_share_def open_share_def)
    with Some show ?thesis
      by (cases res) (auto simp: check_node_in_share_def get_node_def find_node_def demo_rows split: if_splits option.splits)
  qed
  with r'(1) body show ?thesis by (auto simp: new_node_def)
qed

theorem public_download_in_scope_witness:
  "\<exists>r'. handle_public_download share_server (\<lambda>_. calm) (False, False) demo_request share_token ''f'' fresh_response (share_app ''f'') = Some r' \<and>
     rs_body r' = [FileContent ''F'' (Some 1) ''hello''] \<and>
     stored demo_st stored_fs ''ccdd'' = Some ''hello''"
proof -
  let ?a = "share_app ''f''" and ?row = "new_node ''f'' ''b'' KindFile ''F'' ''f'' 1"
  let ?s = "scan_share None (ap_db ?a) (open_share ''f'')"
  have row: "find_node (ap_db ?a) ''f'' = Some ?row" by (simp add: find_node_def) (simp add: demo_rows)
  define n where "n = scan_row (ap_db ?a) ?row"
  have "find_file (ap_db ?a) ''f'' = Some demo_file" by (simp add: find_file_def) (simp add: demo_file_def)
  then have fobj: "n_file n = Some (scan_file demo_file)" "n_kind n = KindFile" "n_name n = ''F''" "n_updated n = Some 1"
    by (simp_all add: n_def scan_row_def scan_node_def new_node_def)
  have key: "fo_key (scan_file demo_file) = ''ccdd''" by (simp add: scan_file_def demo_file_def)
  have inside: "check_node_in_share calm ?s ''f'' (ap_db ?a) = Some (Inr n)"
    using row by (simp add: n_def check_node_in_share_def get_node_def scan_share_def open_share_def new_node_def)
  have op: "session_open share_server calm demo_request ?s" by (simp add: session_open_def scan_share_def open_share_def)
  have cap: "taken True no_slots < capacity True (new_limits share_cfg)"
    by (simp add: taken_def no_slots_def capacity_def new_limits_def)
  obtain r' where r': "fst (serve_download id (new_limits share_cfg) demo_st calm False False n True stored_fs
      fresh_response no_slots) = (Inr (), r')" "rs_body r' = [FileContent ''F'' (Some 1) ''hello'']"
    using cap demo_open
    by (simp add: serve_download_def start_download_def acquire_def serve_content_def download_headers_def Let_def
        fobj key split: option.split)
  have dl: "handle_public_download share_server (\<lambda>_. calm) (False, False) demo_request share_token ''f'' fresh_response ?a = Some r'"
    using share_app_found [of "''f''"] op inside r'(1) by (simp add: handle_public_download_def)
  from public_download_in_scope [OF dl, of "''F''" "Some 1" "''hello''"] r'(2) row fobj(1) key dl show ?thesis
    by (auto simp: n_def)
qed

section \<open>Objects that a purge removes\<close>

text \<open>A removal without a fault leaves every other path alone and the object's path without a file.\<close>

lemma remove_object_frame:
  "fs_files (snd (remove_object st flt k fs)) q = fs_files fs q \<or>
    (object_path st k = Inr q \<and> fs_files (snd (remove_object st flt k fs)) q = None)"
proof (cases "object_path st k")
  case (Inr p)
  obtain res fs' where eq: "remove_quietly flt p fs = (res, fs')" by fastforce
  show ?thesis
  proof (cases res)
    case (Inl e)
    with Inr eq remove_quietly_Inl [of flt p fs e fs'] show ?thesis by (simp add: remove_object_def)
  next
    case (Inr u)
    with \<open>object_path st k = Inr p\<close> eq remove_quietly_Inr [of flt p fs u fs'] show ?thesis by (simp add: remove_object_def)
  qed
qed (simp add: remove_object_def)

lemma remove_object_gone:
  assumes "object_path st k = Inr p" and "p \<notin> fs_dirs fs"
  shows "fs_files (snd (remove_object st None k fs)) p = None"
  using assms
  by (auto simp: remove_object_def remove_quietly_def os_remove_def os_open_def is_not_exist_def split: option.split)

lemma remove_object_dirs [simp]: "fs_dirs (snd (remove_object st flt k fs)) = fs_dirs fs"
  by (auto simp: remove_object_def remove_quietly_def os_remove_def split: sum.split)

lemma remove_objects_frame:
  "fs_files (remove_objects st flts n keys fs) q = fs_files fs q \<or>
    ((\<exists>k \<in> set keys. object_path st k = Inr q) \<and> fs_files (remove_objects st flts n keys fs) q = None)"
proof (induction keys arbitrary: n fs)
  case (Cons k keys)
  then show ?case
    using remove_object_frame [of st "flts n" k fs q] by (metis list.set_intros remove_objects.simps(2))
qed simp

lemma remove_objects_gone:
  assumes "\<And>k. flts k = None" and "key \<in> set keys" and "object_path st key = Inr p" and "p \<notin> fs_dirs fs"
  shows "fs_files (remove_objects st flts n keys fs) p = None"
proof -
  have flts: "flts = (\<lambda>_. None)" using assms(1) by auto
  show ?thesis
    using assms(2,4)
    unfolding flts
  proof (induction keys arbitrary: n fs)
    case (Cons k keys)
    show ?case
    proof (cases "key \<in> set keys")
      case False
      with Cons.prems have "key = k" by simp
      with remove_object_gone [OF assms(3) Cons.prems(2)] have "fs_files (snd (remove_object st None k fs)) p = None" by simp
      then show ?thesis
        using remove_objects_frame [of st "\<lambda>_. None" "Suc n" keys "snd (remove_object st None k fs)" p] by auto
    qed (use Cons in simp)
  qed simp
qed



section \<open>Errors of a download\<close>

lemma open_object_errors: "open_object st flt key fs = Inl e \<Longrightarrow> \<not> errors_is e ErrDownloadLimitReached"
  by (auto simp: open_object_def object_path_def os_open_def split: sum.splits if_splits option.splits)

text \<open>
  Only the download limit is reported: when the object of an existing, active file is missing or
  cannot be opened, the administrator's download is answered with status 200 and an empty body.
\<close>

theorem missing_object_empty_answer:
  assumes "get_node (db_fails (calls 0) 0) (ap_db a) i = Inr n" and "n_trashed n = None" and "n_kind n = KindFile"
    and "n_file n = Some fo" and "open_object (sv_storage sv) (fs_fails (calls 1) 0) (fo_key fo) (w_fs (ap_world a)) = Inl e"
    and "taken False (ap_slots a) < capacity False (new_limits (sv_cfg sv))"
  shows "sent_status (handle_download_file sv calls (False, pd) rq i fresh_response a) = 200 \<and>
    rs_body (handle_download_file sv calls (False, pd) rq i fresh_response a) = []"
  using assms open_object_errors [OF assms(5)]
  by (simp add: handle_download_file_def serve_download_def start_download_def acquire_def sent_status_def)

theorem missing_object_empty_answer_witness:
  "sent_status (handle_download_file demo_server (\<lambda>_. calm) (False, False) demo_request ''f'' fresh_response
     \<lparr>ap_world = \<lparr>w_db = demo_db, w_fs = \<lparr>fs_files = (\<lambda>_. None), fs_dirs = {}\<rparr>\<rparr>, ap_slots = no_slots, ap_pending = []\<rparr>) = 200"
proof -
  let ?a = "\<lparr>ap_world = \<lparr>w_db = demo_db, w_fs = \<lparr>fs_files = (\<lambda>_. None), fs_dirs = {}\<rparr>\<rparr>, ap_slots = no_slots, ap_pending = []\<rparr>"
  obtain n fo where n: "get_node None demo_db ''f'' = Inr n" "n_trashed n = None" "n_kind n = KindFile" "n_file n = Some fo"
    by (simp add: eval_db demo_rows)
  obtain e where "open_object (sv_storage demo_server) None (fo_key fo) \<lparr>fs_files = (\<lambda>_. None), fs_dirs = {}\<rparr> = Inl e"
    by (cases "open_object (sv_storage demo_server) None (fo_key fo) \<lparr>fs_files = (\<lambda>_. None), fs_dirs = {}\<rparr>")
      (auto simp: open_object_def os_open_def split: sum.splits)
  with n missing_object_empty_answer [of "\<lambda>_. calm" ?a "''f''" n fo demo_server e False demo_request]
  show ?thesis by (simp add: taken_def no_slots_def capacity_def new_limits_def)
qed

section \<open>The audit log\<close>

definition audited :: "route \<Rightarrow> bool" where
  "audited rt \<longleftrightarrow> rt \<in> {CreateFolder, CreateShare} \<union> range RenameNode \<union> range MoveNode \<union> range TrashNode \<union>
     range RestoreNode \<union> range PurgeNode \<union> range RevokeShare"

text \<open>The last row is the one of the request: its outcome says what the status says.\<close>

definition logged :: "request \<Rightarrow> app \<Rightarrow> response \<Rightarrow> app \<Rightarrow> bool" where
  "logged rq a r' a' \<longleftrightarrow> (\<exists>e. ap_pending a' = ap_pending a @ [e] \<and> au_request e = rq_request_id rq \<and> au_ip e = client_ip rq \<and>
     (au_outcome e = ''success'' \<longleftrightarrow> sent_status r' < 400))"

lemma logged_record:
  "ap_pending a1 = ap_pending a \<Longrightarrow> (outcome = ''success'' \<longleftrightarrow> sent_status r' < 400) \<Longrightarrow>
    logged rq a r' (record_event sv ora rq act ty i outcome m a1)"
  by (simp add: logged_def record_event_def audit_record_def context_actor_def)

lemma set_db_pending [simp]: "ap_pending (set_db db a) = ap_pending a"
  by (simp add: set_db_def)

lemma logged_create_folder:
  assumes "handle_create_folder sv calls rq r a = (r', a')" and "rs_status r = None"
  shows "(a' = a \<and> sent_status r' = 400) \<or> logged rq a r' a'"
proof (cases "dec_folder (sv_decoders sv) (rq_body rq)")
  case (Inl m)
  with assms show ?thesis by (auto simp: handle_create_folder_def invalid_json_def)
next
  case (Inr x)
  with assms have "logged rq a r' a'"
    by (auto simp: handle_create_folder_def Let_def intro!: logged_record split: sum.splits prod.splits option.splits if_splits)
  then show ?thesis ..
qed

lemma logged_rename_node:
  assumes "handle_rename_node sv calls rq j r a = (r', a')" and "rs_status r = None"
  shows "(a' = a \<and> sent_status r' = 400) \<or> logged rq a r' a'"
proof (cases "dec_rename (sv_decoders sv) (rq_body rq)")
  case (Inl m)
  with assms show ?thesis by (auto simp: handle_rename_node_def invalid_json_def)
next
  case (Inr x)
  with assms have "logged rq a r' a'"
    by (auto simp: handle_rename_node_def Let_def intro!: logged_record split: sum.splits prod.splits option.splits if_splits)
  then show ?thesis ..
qed

lemma logged_move_node:
  assumes "handle_move_node sv calls rq j r a = Some (r', a')" and "rs_status r = None"
  shows "(a' = a \<and> sent_status r' = 400) \<or> logged rq a r' a'"
proof (cases "dec_move (sv_decoders sv) (rq_body rq)")
  case (Inl m)
  with assms show ?thesis by (auto simp: handle_move_node_def invalid_json_def)
next
  case (Inr x)
  with assms have "logged rq a r' a'"
    by (auto simp: handle_move_node_def Let_def intro!: logged_record split: sum.splits prod.splits option.splits if_splits)
  then show ?thesis ..
qed

lemma logged_trash_node:
  assumes "handle_trash_node sv calls rq j r a = Some (r', a')" and "rs_status r = None"
  shows "logged rq a r' a'"
  using assms by (auto simp: handle_trash_node_def Let_def intro!: logged_record split: sum.splits prod.splits option.splits if_splits)

lemma logged_restore_node:
  assumes "handle_restore_node sv calls rq j r a = Some (r', a')" and "rs_status r = None"
  shows "logged rq a r' a'"
  using assms by (auto simp: handle_restore_node_def Let_def intro!: logged_record split: sum.splits prod.splits option.splits if_splits)

lemma logged_purge_node:
  assumes "handle_purge_node sv calls rq j r a = Some (r', a')" and "rs_status r = None"
  shows "logged rq a r' a'"
  using assms by (auto simp: handle_purge_node_def Let_def intro!: logged_record split: sum.splits prod.splits option.splits if_splits)

lemma logged_create_share:
  assumes "handle_create_share sv calls rq r a = (r', a')" and "rs_status r = None"
  shows "(a' = a \<and> sent_status r' = 400) \<or> logged rq a r' a'"
proof (cases "dec_share (sv_decoders sv) (rq_body rq)")
  case (Inl m)
  with assms show ?thesis by (auto simp: handle_create_share_def invalid_json_def)
next
  case (Inr x)
  with assms have "logged rq a r' a'"
    by (auto simp: handle_create_share_def Let_def intro!: logged_record split: sum.splits prod.splits option.splits if_splits)
  then show ?thesis ..
qed

lemma logged_revoke_share:
  assumes "handle_revoke_share sv calls rq j r a = (r', a')" and "rs_status r = None"
  shows "logged rq a r' a'"
  using assms by (auto simp: handle_revoke_share_def Let_def intro!: logged_record split: sum.splits prod.splits option.splits if_splits)



section \<open>The log\<close>

text \<open>
  The path in the request log never holds a share's token: for every request below
  /s/TOKEN the segment is replaced and the rest of the path is kept.
\<close>

theorem logged_path_redacts:
  assumes "token \<noteq> []" and "CHR ''/'' \<notin> set token"
  shows "logged_path (''/s/'' @ token) = ''/s/[REDACTED_TOKEN]'' \<and>
    logged_path (''/s/'' @ token @ ''/'' @ rest) = ''/s/[REDACTED_TOKEN]/'' @ rest"
proof -
  have split: "go_split (CHR ''/'') (''/s/'' @ t) = [] # ''s'' # go_split (CHR ''/'') t" for t by simp
  obtain p ps where p: "go_split (CHR ''/'') rest = p # ps" by (cases "go_split (CHR ''/'') rest") auto
  then have rest: "rest = go_join (CHR ''/'') (p # ps)" using go_join_split [of "CHR ''/''" rest] by simp
  have "go_split (CHR ''/'') (''/s/'' @ token) = [[], ''s'', token]"
    unfolding split go_split_no_sep [OF assms(2)] by simp
  moreover have "go_split (CHR ''/'') (''/s/'' @ token @ CHR ''/'' # rest) = [] # ''s'' # token # p # ps"
    unfolding split go_split_append [OF assms(2)] p by simp
  ultimately show ?thesis
    using assms(1) by (simp add: logged_path_def has_prefix_def Let_def del: go_split.simps) (simp add: rest)
qed

theorem logged_path_redacts_witness:
  "logged_path ''/s/0a1b'' = ''/s/[REDACTED_TOKEN]'' \<and> logged_path ''/s/0a1b/nodes'' = ''/s/[REDACTED_TOKEN]/nodes''"
  using logged_path_redacts [of "''0a1b''" "''nodes''"] by simp

end
