(* ===== verification/Web_Types.thy ===== *)
theory Web_Types
  imports Web_Props
begin

text \<open>
  The shape of the responses: every body has the content type and the status of its kind, is
  written once, and the log line has the status that was sent; and what the static client serves.
\<close>

section \<open>Well-typed responses\<close>

text \<open>Nothing written yet; headers may be set.\<close>

definition untouched :: "response \<Rightarrow> bool" where
  "untouched r \<longleftrightarrow> rs_status r = None \<and> rs_body r = [] \<and> rs_seen r = 200"

definition content_type :: "response \<Rightarrow> string option" where
  "content_type r = rs_headers r ''Content-Type''"

fun payload_typed :: "response \<Rightarrow> payload \<Rightarrow> bool" where
  "payload_typed r (Problem s title why path) \<longleftrightarrow>
     rs_status r = Some s \<and> 400 \<le> s \<and> s < 600 \<and> content_type r = Some ''application/problem+json''"
| "payload_typed r (PlainText t) \<longleftrightarrow>
     content_type r \<in> {Some ''text/plain; charset=utf-8'', Some ''text/html; charset=utf-8''}"
| "payload_typed r (StaticFile p) \<longleftrightarrow> rs_status r = None"
| "payload_typed r (MovedTo p) \<longleftrightarrow> rs_status r = None"
| "payload_typed r (FileContent name t content) \<longleftrightarrow>
     rs_status r = None \<and> content_type r \<noteq> None \<and> rs_headers r ''Content-Disposition'' \<noteq> None"
| "payload_typed r json \<longleftrightarrow> rs_status r \<in> {Some 200, Some 201} \<and> content_type r = Some ''application/json''"

definition typed :: "response \<Rightarrow> bool" where
  "typed r \<longleftrightarrow> length (rs_body r) \<le> 1 \<and> (\<forall>p \<in> set (rs_body r). payload_typed r p) \<and> rs_seen r = sent_status r"

definition is_json :: "payload \<Rightarrow> bool" where
  "is_json p \<longleftrightarrow> (case p of Problem s t d q \<Rightarrow> False | PlainText t \<Rightarrow> False | StaticFile q \<Rightarrow> False | MovedTo q \<Rightarrow> False
     | FileContent n t c \<Rightarrow> False | _ \<Rightarrow> True)"

lemma untouched_set [simp]: "untouched (set_header k v r) = untouched r"
  by (simp add: untouched_def set_header_def)

lemma untouched_typed: "untouched r \<Longrightarrow> typed r"
  by (simp add: untouched_def typed_def sent_status_def)

lemma json_typed: "is_json p \<Longrightarrow> s \<in> {200, 201} \<Longrightarrow> untouched r \<Longrightarrow> typed (write_json s p r)"
  by (cases p) (auto simp: is_json_def typed_def untouched_def write_json_def write_body_def write_header_def set_header_def
      content_type_def sent_status_def Let_def)

lemma problem_typed: "400 \<le> s \<Longrightarrow> s < 600 \<Longrightarrow> untouched r \<Longrightarrow> typed (write_problem rq s t d r)"
  by (simp add: typed_def untouched_def write_problem_def write_body_def write_header_def set_header_def
      content_type_def sent_status_def Let_def)

lemma empty_typed: "untouched r \<Longrightarrow> typed (write_header s r)"
  by (simp add: typed_def untouched_def write_header_def sent_status_def Let_def)

lemma http_error_typed: "untouched r \<Longrightarrow> typed (http_error m s r)"
  by (simp add: typed_def untouched_def http_error_def write_body_def write_header_def set_header_def content_type_def
      sent_status_def Let_def)

lemma typed_replies:
  assumes "untouched r"
  shows "400 \<le> s \<Longrightarrow> s < 600 \<Longrightarrow> typed (write_problem rq s t d r)"
    "typed (write_json 200 (NodeJson n) r)" "typed (write_json 201 (NodeJson n) r)" "typed (write_json 200 (NodesJson ns) r)"
    "typed (write_json 200 (PageJson ns c) r)" "typed (write_json 200 (SharesJson ss) r)"
    "typed (write_json 201 (CreatedShareJson sh tok url) r)" "typed (write_json 200 (PublicShareJson v) r)"
    "typed (write_json 200 (Fields fs) r)" "typed (write_header code r)" "typed (http_error m code r)"
    "typed (invalid_json rq m r)" "typed (share_not_found rq r)" "typed (password_required rq r)"
  using assms by (simp_all add: json_typed problem_typed empty_typed http_error_typed is_json_def invalid_json_def
      share_not_found_def password_required_def)

lemma private_untouched [simp]: "untouched (private_headers r) = untouched r"
  by (simp add: private_headers_def)

lemma headers_untouched [simp]: "untouched (download_headers uni pub n fo r) = untouched r"
  by (simp add: download_headers_def Let_def split: option.split)

lemma headers_content:
  "content_type (download_headers uni pub n fo r) \<noteq> None" "rs_headers (download_headers uni pub n fo r) ''Content-Disposition'' \<noteq> None"
  by (simp_all add: download_headers_def content_type_def set_header_def Let_def split: option.split)

lemma content_typed:
  "untouched r \<Longrightarrow> typed (serve_content n t c (download_headers uni pub nd fo r))"
proof -
  assume "untouched r"
  then have "untouched (download_headers uni pub nd fo r)" by simp
  with headers_content [of uni pub nd fo r] show ?thesis
    by (simp add: typed_def untouched_def serve_content_def content_type_def sent_status_def)
qed

lemma typed_download:
  assumes "fst (serve_download uni lm st ora c p n pub fs r s) = (res, r')" and "untouched r"
  shows "(case res of Inl e \<Rightarrow> untouched r' | Inr u \<Rightarrow> typed r')"
  using assms content_typed [OF assms(2)]
  by (auto simp: serve_download_def start_download_def split: option.splits sum.splits if_splits)

section \<open>The handlers\<close>

lemma typed_reads:
  assumes "untouched r"
  shows "typed (handle_health_live r)" "typed (handle_health_ready ping rq r)" "typed (handle_get_me rq r)"
    "typed (handle_list_nodes sv calls rq r a)" "typed (handle_list_trash calls rq r a)"
    "typed (handle_tus_options sv r)" "typed (handle_tus_head calls rq j r a)"
    "typed (handle_list_shares calls rq r a)" "typed (handle_system_storage sv sf calls r a)"
    "typed (handle_public_unlock sv calls rq token r a)"
  using assms
  by (simp_all add: handle_health_live_def handle_health_ready_def handle_get_me_def handle_list_nodes_def handle_list_trash_def
      handle_tus_options_def handle_tus_head_def handle_list_shares_def handle_system_storage_def handle_public_unlock_def
      typed_replies Let_def split: option.split sum.split)

lemma typed_static: "untouched r \<Longrightarrow> typed (serve_static sv rq r)"
  by (simp add: serve_static_def typed_def untouched_def write_body_def set_header_def content_type_def sent_status_def Let_def
      split: option.split)

lemma typed_file:
  assumes "untouched r"
  shows "typed (handle_download_file sv calls conn rq j r a)"
  using assms
  by (auto simp: handle_download_file_def typed_replies untouched_typed split: sum.split prod.split dest!: typed_download)

lemma typed_public:
  assumes "untouched r"
  shows "handle_public_get sv calls rq token r a = Some r' \<Longrightarrow> typed r'"
    "handle_public_nodes sv calls rq token r a = Some r' \<Longrightarrow> typed r'"
    "handle_public_download sv calls conn rq token j r a = Some r' \<Longrightarrow> typed r'"
  using assms
  by (auto simp: handle_public_get_def handle_public_nodes_def handle_public_download_def Let_def typed_replies untouched_typed
      split: sum.splits option.splits if_splits prod.splits dest!: typed_download)

lemma typed_nodes:
  assumes "untouched r"
  shows "handle_create_folder sv calls rq r a = (r', a') \<Longrightarrow> typed r'"
    "handle_rename_node sv calls rq j r a = (r', a') \<Longrightarrow> typed r'"
    "handle_move_node sv calls rq j r a = Some (r', a') \<Longrightarrow> typed r'"
    "handle_trash_node sv calls rq j r a = Some (r', a') \<Longrightarrow> typed r'"
    "handle_restore_node sv calls rq j r a = Some (r', a') \<Longrightarrow> typed r'"
    "handle_purge_node sv calls rq j r a = Some (r', a') \<Longrightarrow> typed r'"
    "handle_backup_selection sv calls rq j r a = (r', a') \<Longrightarrow> typed r'"
    "handle_create_share sv calls rq r a = (r', a') \<Longrightarrow> typed r'"
    "handle_revoke_share sv calls rq j r a = (r', a') \<Longrightarrow> typed r'"
  using assms
  by (auto simp: handle_create_folder_def handle_rename_node_def handle_move_node_def handle_trash_node_def
      handle_restore_node_def handle_purge_node_def handle_backup_selection_def handle_create_share_def
      handle_revoke_share_def typed_replies Let_def split: sum.splits option.splits prod.splits)

lemma typed_uploads:
  assumes "untouched r"
  shows "handle_tus_create sv sf calls rq r a = (r', a') \<Longrightarrow> typed r'"
    "handle_tus_patch sv calls rq j r a = (r', a') \<Longrightarrow> typed r'"
    "handle_tus_delete sv calls rq j r a = (r', a') \<Longrightarrow> typed r'"
  using assms
  by (auto simp: handle_tus_create_def handle_tus_patch_def handle_tus_delete_def typed_replies
      split: sum.splits option.splits prod.splits if_splits)

lemma typed_route:
  assumes "serve_route sv io rt rq r a = Some (r', a')" and "untouched r"
  shows "typed r'"
  using assms(1)
  by (cases rt) (auto simp: serve_route_def Let_def typed_reads [OF assms(2)] typed_static [OF assms(2)] typed_file [OF assms(2)]
      split: if_splits elim!: typed_public [OF assms(2)] typed_nodes [OF assms(2)] typed_uploads [OF assms(2)])

lemma typed_mux:
  assumes "serve_mux sv io table rq r a = Some (r', a')" and "untouched r"
  shows "typed r'"
  using assms
  by (auto simp: serve_mux_def typed_replies split: mux_answer.splits intro: typed_route)
    (simp add: typed_def untouched_def sent_status_def)



section \<open>The static client\<close>

text \<open>
  The static client serves the start page or the path of the request, and the latter only when the
  embedded directory \<open>dist\<close> has it; no element of it is \<open>".."\<close>.
\<close>

theorem static_stays_in_dist:
  assumes "sv_static sv = Some (dist_fs opens)" and "rs_body r = []"
  shows "rs_body (serve_static sv rq r) = [StaticFile ''/''] \<or>
    (rs_body (serve_static sv rq r) = [StaticFile (rq_path rq)] \<and>
     (\<exists>name. rq_path rq \<in> {name, CHR ''/'' # name} \<and> ''..'' \<notin> set (go_split (CHR ''/'') name) \<and>
        (name = [] \<or> opens (if name = ''.'' then ''dist'' else ''dist/'' @ name))))"
proof -
  define name where "name = (if has_prefix (rq_path rq) ''/'' then tl (rq_path rq) else rq_path rq)"
  have path: "rq_path rq \<in> {name, CHR ''/'' # name}"
    by (cases "rq_path rq") (auto simp: name_def has_prefix_def)
  have body: "rs_body (serve_static sv rq r) =
      [StaticFile (if dist_fs opens (if name = [] then ''index.html'' else name) then rq_path rq else ''/'')]"
    using assms by (simp add: serve_static_def name_def Let_def)
  show ?thesis
  proof (cases "dist_fs opens (if name = [] then ''index.html'' else name)")
    case True
    have "''..'' \<notin> set (go_split (CHR ''/'') name) \<and> (name = [] \<or> opens (if name = ''.'' then ''dist'' else ''dist/'' @ name))"
    proof (cases "name = []")
      case empty: True
      have "''..'' \<notin> set (go_split (CHR ''/'') [])" by code_simp
      with empty show ?thesis by simp
    next
      case False
      with True have "dist_fs opens name" by simp
      with dist_fs_no_dotdot [OF this] show ?thesis by (simp add: dist_fs_opens)
    qed
    with path have "\<exists>name. rq_path rq \<in> {name, CHR ''/'' # name} \<and> ''..'' \<notin> set (go_split (CHR ''/'') name) \<and>
        (name = [] \<or> opens (if name = ''.'' then ''dist'' else ''dist/'' @ name))" by blast
    moreover from True body have "rs_body (serve_static sv rq r) = [StaticFile (rq_path rq)]" by simp
    ultimately show ?thesis by blast
  qed (use body in simp)
qed

theorem static_stays_in_dist_witness:
  "rs_body (serve_static (demo_server\<lparr>sv_static := Some (dist_fs (\<lambda>p. p = ''dist/app.js''))\<rparr>)
      (demo_request\<lparr>rq_escaped := ''/%2e%2e/app.js''\<rparr>) fresh_response) = [StaticFile ''/'']"
proof -
  have "rq_path (demo_request\<lparr>rq_escaped := ''/%2e%2e/app.js''\<rparr>) = ''/../app.js''" by code_simp
  moreover have "go_split (CHR ''/'') ''/../app.js'' = [[], ''..'', ''app.js'']" "go_split (CHR ''/'') ''../app.js'' = [''..'', ''app.js'']"
    by code_simp+
  ultimately show ?thesis
    using static_stays_in_dist [of "demo_server\<lparr>sv_static := Some (dist_fs (\<lambda>p. p = ''dist/app.js''))\<rparr>" "\<lambda>p. p = ''dist/app.js''"
        fresh_response "demo_request\<lparr>rq_escaped := ''/%2e%2e/app.js''\<rparr>"]
    by auto
qed

end
