(* ===== verification/Spec2Isabelle.thy ===== *)
theory Spec2Isabelle
  imports Files_Paging Crash_Props Race_Props Web_Types
begin

text \<open>
  A model of the self-hosted file manager: a Go program that keeps a tree of folders and files in
  SQLite and the contents on disk, takes resumable uploads (tus), serves downloads, and publishes
  nodes under secret links. \<open>src/cmd/server\<close> starts it; the packages under \<open>src/internal\<close> are
  modelled one by one, from the schema up to the HTTP handler that \<open>main\<close> installs.

  How the parts fit. A request passes the logger (\<open>observability\<close>), the root handler (security
  headers, host and origin checks), the Cloudflare Access middleware for \<open>/api/v1/\<close> (\<open>auth\<close>), a mux,
  and a handler (\<open>httpapi\<close>), which calls one service: \<open>files\<close> (nodes and trash), \<open>uploads\<close>, \<open>shares\<close>
  or \<open>downloads\<close>, and then \<open>audit\<close>. The services share the database (\<open>db\<close>, \<open>migrations\<close>) and
  \<open>storage\<close>. Beside the requests run the goroutines that insert audit rows and a reconciliation
  of interrupted uploads at the start and every ten minutes.

  Conventions. A service operation is a function from its arguments and the state to a result
  and the new state; \<open>err + 'a\<close> is Go's pair of value and error. What a call reads from outside
  (failing statements and file operations, the clock, UUIDs, random bytes) is a record \<open>outside\<close>
  that is indexed by the calls in their order, so every fault is an input and every error path a
  branch. Strings are byte lists, \<open>int64\<close> is \<open>int\<close> with \<open>wrap64\<close> where it can wrap, and disk sizes are
  64-bit words. A walk over the tree that might not end is a \<open>partial_function (option)\<close>; that it
  ends on a well-formed tree is proved. There is no fuel anywhere.

  Theories, in the order of the layers:
  \<^item> \<open>Prelude\<close>, \<open>Go_Text\<close>, \<open>Go_Path\<close>, \<open>Go_Url\<close>, \<open>Go_Base64\<close>: lookups in lists of rows, invariants of
    step systems (the locale \<open>invariant_system\<close>), and what is used of Go's \<open>strings\<close>, \<open>strconv\<close>,
    \<open>path/filepath\<close>, \<open>net/url\<close>, \<open>encoding/base64\<close>.
  \<^item> \<open>Schema\<close>: tables, constraints and statements of \<open>migrations/001_initial_schema.sql\<close>; the errors.
  \<^item> \<open>Config\<close>: \<open>internal/config\<close>. \<open>Migrations\<close>: \<open>internal/db/db.go\<close>; a migration that was interrupted
    can be resumed.
  \<^item> \<open>Node_Tree\<close>, \<open>Files\<close>, \<open>Files_Tree\<close>, \<open>Files_Inv\<close>: \<open>internal/files\<close>; the parent relation, the
    recursive queries, and the invariant \<open>files_ok\<close> (a forest with unique names per folder, files with
    one object) under all seven operations. \<open>Files_Props\<close>, \<open>Files_Laws\<close>, \<open>Files_Paging\<close>: what each
    operation does, when it refuses, what a purge deletes, which nodes the pages show.
  \<^item> \<open>Storage\<close>, \<open>Object_Store\<close>, \<open>Storage_Props\<close>: \<open>internal/storage\<close> on a tree of paths, and its
    refinement of a store of contents by key, stated as a locale.
  \<^item> \<open>Uploads\<close>, \<open>Upload_Life\<close>, \<open>Upload_Inv\<close>, \<open>Upload_Quota\<close>, \<open>Upload_Props\<close>, \<open>Upload_Recovery\<close>:
    \<open>internal/uploads\<close>; the life cycle of an upload as a refinement, the invariant \<open>store_ok\<close>, the quota, the
    content of a completed upload, termination and reconciliation. \<open>Upload_Crash\<close>, \<open>Crash_Recovery\<close>,
    \<open>Crash_Props\<close>: every operation of the service as the list of states its writes pass through (a
    trace, which ends in the state of the operation), a crash as a state of that list, what the next
    reconciliation makes of it and what it leaves behind.
  \<^item> \<open>Races\<close>, \<open>Race_Tree\<close>, \<open>Race_Props\<close>: requests to the node service, commits and recoveries of uploads as
    threads, a step being one database call of one thread. A thread alone is the operation of \<open>Files\<close>; every interleaving keeps
    the constraints, one move at a time keeps the tree a forest, and two moves can make a cycle.
  \<^item> \<open>Shares\<close>, \<open>Share_Props\<close>: \<open>internal/shares\<close>; session cookies over the locale of a signer, revocation,
    scope.
  \<^item> \<open>Http\<close>, \<open>Audit_Log\<close>, \<open>Downloads\<close>, \<open>Download_Props\<close>, \<open>Auth\<close>: requests and responses,
    \<open>internal/audit\<close>, \<open>internal/downloads\<close> (slots are never over-committed), \<open>internal/auth\<close>.
  \<^item> \<open>Api\<close>, \<open>Api_Uploads\<close>, \<open>Api_Shares\<close>, \<open>Router\<close>: \<open>internal/httpapi\<close> and \<open>internal/observability\<close>,
    up to \<open>serve\<close>, the whole chain on one request. \<open>Web_Embed\<close>: \<open>web/embed.go\<close>, the tree of the client.
  \<^item> \<open>Server_Inv\<close>: every request is at most one operation of one service (\<open>service_step\<close>), so the services'
    invariants hold of the server. \<open>Server_Run\<close>: \<open>cmd/server/main.go\<close>; the process as a step system over
    requests, audit insertions, reconciliations, the signal, a return or a kill in the middle of the work, and
    restarts. \<open>Server_Props\<close>, \<open>Web_Props\<close>, \<open>Web_Types\<close>: the properties of the whole.

  Parameters stand for code outside the repository: Unicode tables, SHA-256, HMAC, Argon2id, the JWT
  library, the certificate endpoint, content sniffing, JSON, the text of a cursor, SQLite where it
  runs the text of a migration.

  Not modelled: the listener and the time limits, permissions, \<open>fsync\<close> (a write that was made is on the disk),
  \<open>http.ServeContent\<close> and \<open>http.FileServer\<close>, the count of bytes in the logger's wrapper, the TypeScript client.
  In \<open>Server_Run\<close> a request that is answered is one step; what happens between its database calls is the
  subject of \<open>Races\<close>, for everything that writes nodes. The upload service has a lock, so its operations are
  atomic steps against each other.
\<close>

end
